(* ===== verification/Prelude.thy ===== *)
theory Prelude
  imports Main
begin

text \<open>
  Shared ground of the development: Go strings and byte slices, Go errors, the outcome of a
  Go call, and the generic lemmas on lists that the component theories use.

  A Go \<open>string\<close> and a Go \<open>[]byte\<close> are both sequences of bytes; an Isabelle \<open>char\<close>
  is one of 256 values, that is, a byte, so both are modelled by \<open>char list\<close>, and the
  conversions \<open>[]byte(s)\<close> and \<open>string(b)\<close> are the identity.
\<close>

type_synonym byte = char
type_synonym bytes = "byte list"

named_theorems go_simps \<open>unfolding rules of small helpers of the Go standard library\<close>
named_theorems res_simps \<open>rules of the outcome type\<close>

section \<open>Outcomes of a call\<close>

text \<open>
  A Go function returns a value, returns an error, or panics. The panic is a third outcome:
  every slice index the code computes is checked in the model and gives \<open>Panic\<close> when it
  is out of range, so that "never panics" is a statement about the model.
\<close>

text \<open>
  The sentinel errors of \<open>siws/errors.go\<close> and \<open>siwx/errors.go\<close>. They are distinct
  pointers in Go, also where their messages agree, so they are distinct constructors.
\<close>

datatype sentinel =
    SiwsErrMalformed | SiwsErrBadSignature | SiwsErrExpired | SiwsErrNotYetValid
  | SiwsErrDomainMismatch | SiwsErrNonceMismatch
  | ErrMalformed | ErrBadSignature | ErrExpired | ErrNotYetValid
  | ErrDomainMismatch | ErrNonceMismatch | ErrUnsupportedNamespace
  | ErrContractValidationFailed | ErrContractWalletUnsupported | ErrRPC

text \<open>
  An error value: a sentinel, an unrelated error made by \<open>errors.New\<close>, or the result of
  \<open>fmt.Errorf\<close>: its format, the arguments of its verbs other than \<open>%w\<close>, and the
  errors its \<open>%w\<close> verbs wrap, in order.
\<close>

datatype gerror =
    Sentinel sentinel
  | NewError string
  | Errorf string "string list" "gerror list"

text \<open>\<open>errors.Is\<close> searches the tree of wrapped errors for the sentinel.\<close>

fun errors_Is :: "gerror \<Rightarrow> sentinel \<Rightarrow> bool" where
  "errors_Is (Sentinel t) s \<longleftrightarrow> t = s"
| "errors_Is (NewError m) s \<longleftrightarrow> False"
| "errors_Is (Errorf f args es) s \<longleftrightarrow> list_ex (\<lambda>e. errors_Is e s) es"

text \<open>The formats and the arguments that occur in an error: all that its text is made of.\<close>

fun err_formats :: "gerror \<Rightarrow> string set" where
  "err_formats (Sentinel t) = {}"
| "err_formats (NewError m) = {m}"
| "err_formats (Errorf f args es) = insert f (\<Union>e \<in> set es. err_formats e)"

fun err_args :: "gerror \<Rightarrow> string set" where
  "err_args (Sentinel t) = {}"
| "err_args (NewError m) = {}"
| "err_args (Errorf f args es) = set args \<union> (\<Union>e \<in> set es. err_args e)"

datatype 'a res = Ok 'a | Err gerror | Panic

fun bind_res :: "'a res \<Rightarrow> ('a \<Rightarrow> 'b res) \<Rightarrow> 'b res" where
  "bind_res (Ok x) f = f x"
| "bind_res (Err e) f = Err e"
| "bind_res Panic f = Panic"

lemma bind_res_eq_Ok [res_simps]:
  "bind_res r f = Ok y \<longleftrightarrow> (\<exists>x. r = Ok x \<and> f x = Ok y)"
  by (cases r) auto

lemma bind_res_eq_Err [res_simps]:
  "bind_res r f = Err e \<longleftrightarrow> r = Err e \<or> (\<exists>x. r = Ok x \<and> f x = Err e)"
  by (cases r) auto

lemma bind_res_eq_Panic [res_simps]:
  "bind_res r f = Panic \<longleftrightarrow> r = Panic \<or> (\<exists>x. r = Ok x \<and> f x = Panic)"
  by (cases r) auto

lemma bind_res_assoc: "bind_res (bind_res r f) g = bind_res r (\<lambda>x. bind_res (f x) g)"
  by (cases r) auto

lemma bind_res_cong [fundef_cong]:
  "r = r' \<Longrightarrow> (\<And>x. r' = Ok x \<Longrightarrow> f x = f' x) \<Longrightarrow> bind_res r f = bind_res r' f'"
  by (cases r') auto

text \<open>A call is clean when it does not panic; the rule composes along \<open>bind_res\<close>.\<close>

lemma bind_res_no_panic [intro]:
  "r \<noteq> Panic \<Longrightarrow> (\<And>x. r = Ok x \<Longrightarrow> f x \<noteq> Panic) \<Longrightarrow> bind_res r f \<noteq> Panic"
  by (cases r) auto

text \<open>The error component of a pair \<open>x, err\<close>: nil when the call returned a value.\<close>

definition error_of :: "'a res \<Rightarrow> gerror option" where
  "error_of r = (case r of Err e \<Rightarrow> Some e | _ \<Rightarrow> None)"

lemma error_of_simps [simp]:
  "error_of (Ok x) = None" "error_of (Err e) = Some e" "error_of Panic = None"
  by (simp_all add: error_of_def)

text \<open>Reading \<open>xs[i]\<close>: Go panics when \<open>i\<close> is out of range.\<close>

definition index :: "'a list \<Rightarrow> nat \<Rightarrow> 'a res" where
  "index xs i = (if i < length xs then Ok (xs ! i) else Panic)"

lemma index_Ok [simp]: "i < length xs \<Longrightarrow> index xs i = Ok (xs ! i)"
  by (simp add: index_def)

lemma index_eq_Ok: "index xs i = Ok x \<longleftrightarrow> i < length xs \<and> xs ! i = x"
  by (auto simp: index_def)

lemma index_eq_Panic: "index xs i = Panic \<longleftrightarrow> length xs \<le> i"
  by (auto simp: index_def)

lemma index_not_Err [simp]: "index xs i \<noteq> Err e"
  by (simp add: index_def)

section \<open>The string functions of the Go standard library that the code uses\<close>

definition has_prefix :: "bytes \<Rightarrow> bytes \<Rightarrow> bool" where
  "has_prefix s p \<longleftrightarrow> length p \<le> length s \<and> take (length p) s = p"

definition has_suffix :: "bytes \<Rightarrow> bytes \<Rightarrow> bool" where
  "has_suffix s p \<longleftrightarrow> length p \<le> length s \<and> drop (length s - length p) s = p"

definition trim_prefix :: "bytes \<Rightarrow> bytes \<Rightarrow> bytes" where
  "trim_prefix s p = (if has_prefix s p then drop (length p) s else s)"

definition trim_suffix :: "bytes \<Rightarrow> bytes \<Rightarrow> bytes" where
  "trim_suffix s p = (if has_suffix s p then take (length s - length p) s else s)"

lemma has_prefix_iff: "has_prefix s p \<longleftrightarrow> (\<exists>t. s = p @ t)"
proof
  assume "has_prefix s p"
  then have "s = p @ drop (length p) s"
    unfolding has_prefix_def by (metis append_take_drop_id)
  then show "\<exists>t. s = p @ t" by blast
next
  assume "\<exists>t. s = p @ t"
  then show "has_prefix s p" by (auto simp: has_prefix_def)
qed

lemma has_suffix_iff: "has_suffix s p \<longleftrightarrow> (\<exists>t. s = t @ p)"
proof
  assume "has_suffix s p"
  then have "s = take (length s - length p) s @ p"
    unfolding has_suffix_def by (metis append_take_drop_id)
  then show "\<exists>t. s = t @ p" by blast
next
  assume "\<exists>t. s = t @ p"
  then show "has_suffix s p" by (auto simp: has_suffix_def)
qed

lemma has_prefix_append [simp]: "has_prefix (p @ t) p"
  by (auto simp: has_prefix_iff)

lemma has_suffix_append [simp]: "has_suffix (t @ p) p"
  by (auto simp: has_suffix_iff)

lemma trim_prefix_append [simp]: "trim_prefix (p @ t) p = t"
  by (simp add: trim_prefix_def)

lemma trim_suffix_append [simp]: "trim_suffix (t @ p) p = t"
  by (simp add: trim_suffix_def)

lemma has_prefix_split: "has_prefix s p \<Longrightarrow> s = p @ trim_prefix s p"
  by (auto simp: has_prefix_iff trim_prefix_def)

lemma has_suffix_split: "has_suffix s p \<Longrightarrow> s = trim_suffix s p @ p"
  by (auto simp: has_suffix_iff trim_suffix_def)

lemma has_prefix_Nil [simp]: "has_prefix s []"
  by (simp add: has_prefix_def)

lemma has_prefix_Cons_Nil [simp]: "\<not> has_prefix [] (a # p)"
  by (simp add: has_prefix_def)

lemma has_prefix_Cons_Cons [simp]: "has_prefix (c # s) (a # p) \<longleftrightarrow> c = a \<and> has_prefix s p"
  by (auto simp: has_prefix_iff)

lemma trim_prefix_Nil [simp]: "trim_prefix s [] = s"
  by (simp add: trim_prefix_def)

lemma trim_prefix_Cons [simp]:
  "trim_prefix (c # s) (c # p) = (if has_prefix s p then trim_prefix s p else c # s)"
  by (simp add: trim_prefix_def)

lemma set_trim_prefix: "set (trim_prefix s p) \<subseteq> set s"
  by (auto simp: trim_prefix_def dest: in_set_dropD)

lemma set_trim_suffix: "set (trim_suffix s p) \<subseteq> set s"
  by (auto simp: trim_suffix_def dest: in_set_takeD)

text \<open>\<open>strings.Split(s, sep)\<close> for a separator of one byte.\<close>

fun split_byte :: "byte \<Rightarrow> bytes \<Rightarrow> bytes list" where
  "split_byte c [] = [[]]"
| "split_byte c (x # xs) =
     (if x = c then [] # split_byte c xs
      else (case split_byte c xs of [] \<Rightarrow> [[x]] | l # ls \<Rightarrow> (x # l) # ls))"

text \<open>\<open>bytes.TrimRight(s, cutset)\<close> for a cutset of one byte.\<close>

fun trim_right_byte :: "byte \<Rightarrow> bytes \<Rightarrow> bytes" where
  "trim_right_byte c [] = []"
| "trim_right_byte c (x # xs) =
     (let r = trim_right_byte c xs in if r = [] \<and> x = c then [] else x # r)"

text \<open>\<open>strings.Join(ls, sep)\<close> for a separator of one byte: the inverse of \<open>Split\<close>.\<close>

fun join_byte :: "byte \<Rightarrow> bytes list \<Rightarrow> bytes" where
  "join_byte c [] = []"
| "join_byte c [l] = l"
| "join_byte c (l # m # ls) = l @ c # join_byte c (m # ls)"

lemma split_byte_nonempty [simp]: "split_byte c s \<noteq> []"
  by (induction s) (auto split: list.splits)

lemma split_byte_no_sep: "c \<notin> set s \<Longrightarrow> split_byte c s = [s]"
  by (induction s) auto

lemma split_byte_append:
  "c \<notin> set l \<Longrightarrow> split_byte c (l @ c # s) = l # split_byte c s"
  by (induction l) auto

lemma split_byte_join:
  assumes "ls \<noteq> []" and "\<forall>l \<in> set ls. c \<notin> set l"
  shows "split_byte c (join_byte c ls) = ls"
  using assms
proof (induction c ls rule: join_byte.induct)
  case (3 c l m ls)
  then show ?case by (simp add: split_byte_append)
qed (auto simp: split_byte_no_sep)

lemma join_split_byte: "join_byte c (split_byte c s) = s"
proof (induction s)
  case (Cons x xs)
  then show ?case
    by (cases "split_byte c xs"; cases "tl (split_byte c xs)") auto
qed simp

lemma split_byte_pieces: "l \<in> set (split_byte c s) \<Longrightarrow> c \<notin> set l"
proof (induction s arbitrary: l)
  case (Cons x xs)
  then show ?case by (cases "split_byte c xs") (auto split: if_splits)
qed simp

lemma split_byte_subset: "l \<in> set (split_byte c s) \<Longrightarrow> set l \<subseteq> set s"
proof (induction s arbitrary: l)
  case (Cons x xs)
  then show ?case by (cases "split_byte c xs") (fastforce split: if_splits)+
qed simp

lemma trim_right_byte_snoc [simp]: "trim_right_byte c (s @ [c]) = trim_right_byte c s"
  by (induction s) (auto simp: Let_def)

lemma trim_right_byte_replicate:
  "trim_right_byte c (s @ replicate n c) = trim_right_byte c s"
proof (induction n)
  case (Suc n)
  have "s @ replicate (Suc n) c = (s @ replicate n c) @ [c]"
    by (simp add: replicate_append_same)
  with Suc show ?case by (simp only: trim_right_byte_snoc)
qed simp

lemma trim_right_byte_last:
  "s \<noteq> [] \<Longrightarrow> last s \<noteq> c \<Longrightarrow> trim_right_byte c s = s"
  by (induction s) (auto simp: Let_def split: if_splits)

lemma set_trim_right_byte: "set (trim_right_byte c s) \<subseteq> set s"
  by (induction s) (auto simp: Let_def)

lemma takeWhile_replicate_append:
  "P x \<Longrightarrow> takeWhile P (replicate k x @ ys) = replicate k x @ takeWhile P ys"
  by (induction k) auto

lemma length_takeWhile_dropWhile: "length (takeWhile P xs) + length (dropWhile P xs) = length xs"
  by (metis length_append takeWhile_dropWhile_id)

end
