(* ===== verification/Positional.thy ===== *)
theory Positional
  imports Prelude
begin

text \<open>
  Positional numerals in an arbitrary base, most significant digit first. The base58 codec
  is a change of base between 256 and 58; both \<open>big.Int.Bytes\<close> / \<open>SetBytes\<close> and the
  base58 loops are instances of \<open>digits\<close> and \<open>value\<close>.
\<close>

fun digits :: "nat \<Rightarrow> nat \<Rightarrow> nat list" where
  "digits B n = (if B < 2 \<or> n = 0 then [] else digits B (n div B) @ [n mod B])"

declare digits.simps [simp del]

definition value_from :: "nat \<Rightarrow> nat \<Rightarrow> nat list \<Rightarrow> nat" where
  "value_from B = foldl (\<lambda>n d. n * B + d)"

definition value_of :: "nat \<Rightarrow> nat list \<Rightarrow> nat" where
  "value_of B = value_from B 0"

lemma value_from_simps [simp]:
  "value_from B n [] = n"
  "value_from B n (d # ds) = value_from B (n * B + d) ds"
  by (simp_all add: value_from_def)

lemma value_from_append: "value_from B n (xs @ ys) = value_from B (value_from B n xs) ys"
  by (simp add: value_from_def)

lemma value_of_Nil [simp]: "value_of B [] = 0"
  by (simp add: value_of_def)

lemma value_of_snoc [simp]: "value_of B (ds @ [d]) = value_of B ds * B + d"
  by (simp add: value_of_def value_from_append)

lemma value_of_leading_zeros: "value_of B (replicate k 0 @ ds) = value_of B ds"
  by (induction k) (simp_all add: value_of_def)

lemma digits_0 [simp]: "digits B 0 = []"
  by (simp add: digits.simps)

lemma digits_step: "2 \<le> B \<Longrightarrow> 0 < n \<Longrightarrow> digits B n = digits B (n div B) @ [n mod B]"
  by (subst digits.simps) simp

lemma value_of_digits:
  assumes "2 \<le> B"
  shows "value_of B (digits B n) = n"
  using assms
proof (induction B n rule: digits.induct)
  case (1 B n)
  then show ?case by (cases "n = 0") (simp_all add: digits_step)
qed

lemma digits_less:
  assumes "2 \<le> B" and "d \<in> set (digits B n)"
  shows "d < B"
  using assms
proof (induction B n rule: digits.induct)
  case (1 B n)
  then show ?case by (cases "n = 0") (auto simp: digits_step)
qed

lemma digits_nonzero: "2 \<le> B \<Longrightarrow> 0 < n \<Longrightarrow> digits B n \<noteq> []"
  by (simp add: digits_step)

lemma digits_hd:
  assumes "2 \<le> B" and "0 < n"
  shows "0 < hd (digits B n)"
  using assms
proof (induction B n rule: digits.induct)
  case (1 B n)
  show ?case
  proof (cases "n < B")
    case True
    then show ?thesis using "1.prems" by (simp add: digits_step)
  next
    case False
    then have pos: "0 < n div B" using "1.prems" by (simp add: div_greater_zero_iff)
    then have "0 < hd (digits B (n div B))" using "1.IH" "1.prems" by simp
    moreover have "digits B (n div B) \<noteq> []" using "1.prems" pos by (simp add: digits_nonzero)
    ultimately show ?thesis using "1.prems" by (simp add: digits_step [of B n])
  qed
qed

lemma value_of_pos:
  assumes "2 \<le> B" and "ds \<noteq> []" and "0 < hd ds"
  shows "0 < value_of B ds"
  using assms
proof (induction ds rule: rev_induct)
  case (snoc d ds)
  show ?case
  proof (cases "ds = []")
    case True
    with snoc.prems show ?thesis by (simp add: value_of_def)
  next
    case False
    with snoc show ?thesis by simp
  qed
qed simp

text \<open>A numeral without leading zeros is the one \<open>digits\<close> writes.\<close>

lemma digits_value_of:
  assumes "2 \<le> B" and "\<forall>d \<in> set ds. d < B" and "ds \<noteq> [] \<Longrightarrow> 0 < hd ds"
  shows "digits B (value_of B ds) = ds"
  using assms
proof (induction ds rule: rev_induct)
  case (snoc d ds)
  show ?case
  proof (cases "ds = []")
    case True
    with snoc.prems show ?thesis by (simp add: digits_step value_of_def)
  next
    case False
    with snoc.prems have hd: "0 < hd ds" by simp
    with False snoc.prems have pos: "0 < value_of B ds" by (simp add: value_of_pos)
    have d: "d < B" using snoc.prems by simp
    have "digits B (value_of B ds) = ds" using snoc hd by simp
    with pos d snoc.prems(1) show ?thesis by (simp add: digits_step)
  qed
qed simp

lemma length_digits_le:
  assumes "2 \<le> B" and "n < B ^ k"
  shows "length (digits B n) \<le> k"
  using assms
proof (induction k arbitrary: n)
  case (Suc k)
  show ?case
  proof (cases "n = 0")
    case False
    have "n div B < B ^ k" using Suc.prems by (simp add: less_mult_imp_div_less mult.commute)
    with Suc False show ?thesis by (simp add: digits_step)
  qed simp
qed simp

lemma value_of_less:
  assumes "2 \<le> B" and "\<forall>d \<in> set ds. d < B"
  shows "value_of B ds < B ^ length ds"
  using assms
proof (induction ds rule: rev_induct)
  case (snoc d ds)
  then have "value_of B ds + 1 \<le> B ^ length ds" and d: "d < B" by simp_all
  then have "(value_of B ds + 1) * B \<le> B ^ length ds * B" by (simp only: mult_le_mono1)
  with d show ?case by (simp add: algebra_simps)
qed simp

text \<open>Every list of digits is its leading zeros followed by a numeral without any.\<close>

lemma leading_zeros_split:
  "ds = replicate (length (takeWhile (\<lambda>d. d = 0) ds)) 0 @ dropWhile (\<lambda>d. d = (0::nat)) ds"
  by (induction ds) auto

lemma digits_value_of_strip:
  assumes "2 \<le> B" and "\<forall>d \<in> set ds. d < B"
  shows "digits B (value_of B ds) = dropWhile (\<lambda>d. d = 0) ds"
proof -
  let ?z = "length (takeWhile (\<lambda>d. d = 0) ds)"
  let ?r = "dropWhile (\<lambda>d. d = (0::nat)) ds"
  have "value_of B ds = value_of B ?r"
    by (subst leading_zeros_split) (rule value_of_leading_zeros)
  moreover have "\<forall>d \<in> set ?r. d < B"
    using assms(2) set_dropWhileD by fast
  moreover have "?r \<noteq> [] \<Longrightarrow> 0 < hd ?r"
    using hd_dropWhile [of "\<lambda>d. d = 0" ds] by blast
  ultimately show ?thesis using assms(1) by (metis digits_value_of)
qed

end
