(* ===== verification/GoTime.thy ===== *)
theory GoTime
  imports Positional
begin

text \<open>
  The part of Go's package \<open>time\<close> the program uses: instants, their order, the civil
  calendar, \<open>time.Parse\<close> for the layouts that occur in the source, and \<open>Format\<close> for the
  canonical layout. A \<open>time.Time\<close> is the instant it denotes, in nanoseconds since the Unix
  epoch: the program only compares instants and prints them in UTC, so the location a
  \<open>Time\<close> carries plays no role. \<open>time.Parse\<close> returns \<open>None\<close> for an error; every caller
  drops the error's text.
\<close>

type_synonym instant = int

definition Before :: "instant \<Rightarrow> instant \<Rightarrow> bool" where
  "Before t u \<longleftrightarrow> t < u"

definition After :: "instant \<Rightarrow> instant \<Rightarrow> bool" where
  "After t u \<longleftrightarrow> u < t"

section \<open>The civil calendar\<close>

definition is_leap :: "int \<Rightarrow> bool" where
  "is_leap y \<longleftrightarrow> y mod 4 = 0 \<and> (y mod 100 \<noteq> 0 \<or> y mod 400 = 0)"

definition days_in :: "int \<Rightarrow> int \<Rightarrow> int" where
  "days_in m y = (if m = 2 then (if is_leap y then 29 else 28)
                  else if m \<in> {4, 6, 9, 11} then 30 else 31)"

text \<open>Days of the year before month \<open>m\<close>, in a common year.\<close>

definition days_before :: "int \<Rightarrow> int" where
  "days_before m = [0, 31, 59, 90, 120, 151, 181, 212, 243, 273, 304, 334, 365] ! nat (m - 1)"

definition yday_of :: "int \<Rightarrow> int \<Rightarrow> int \<Rightarrow> int" where
  "yday_of y m d = days_before m + (if is_leap y \<and> 2 < m then 1 else 0) + (d - 1)"

text \<open>Days from 0001-01-01 to the first day of year \<open>y\<close>; 1970-01-01 is day 719162.\<close>

definition days_before_year :: "int \<Rightarrow> int" where
  "days_before_year y =
     365 * (y - 1) + (y - 1) div 4 - (y - 1) div 100 + (y - 1) div 400"

definition unix_days :: int where
  "unix_days = 719162"

definition days_of_civil :: "int \<Rightarrow> int \<Rightarrow> int \<Rightarrow> int" where
  "days_of_civil y m d = days_before_year y + yday_of y m d - unix_days"

text \<open>The inverse: split off 400-year, 100-year, 4-year cycles and single years.\<close>

definition year_yday :: "int \<Rightarrow> int \<times> int" where
  "year_yday n =
     (let n400 = n div 146097; r400 = n mod 146097;
          n100 = min 3 (r400 div 36524); r100 = r400 - 36524 * n100;
          n4 = r100 div 1461; r4 = r100 mod 1461;
          n1 = min 3 (r4 div 365)
      in (400 * n400 + 100 * n100 + 4 * n4 + n1 + 1, r4 - 365 * n1))"

definition month_day :: "int \<Rightarrow> int \<Rightarrow> int \<times> int" where
  "month_day y yd =
     (let l = (if is_leap y then 1 else 0) in
      if yd < 31 then (1, yd + 1)
      else if yd < 59 + l then (2, yd - 31 + 1)
      else if yd < 90 + l then (3, yd - (59 + l) + 1)
      else if yd < 120 + l then (4, yd - (90 + l) + 1)
      else if yd < 151 + l then (5, yd - (120 + l) + 1)
      else if yd < 181 + l then (6, yd - (151 + l) + 1)
      else if yd < 212 + l then (7, yd - (181 + l) + 1)
      else if yd < 243 + l then (8, yd - (212 + l) + 1)
      else if yd < 273 + l then (9, yd - (243 + l) + 1)
      else if yd < 304 + l then (10, yd - (273 + l) + 1)
      else if yd < 334 + l then (11, yd - (304 + l) + 1)
      else (12, yd - (334 + l) + 1))"

definition civil_of_days :: "int \<Rightarrow> int \<times> int \<times> int" where
  "civil_of_days n =
     (let (y, yd) = year_yday (n + unix_days); (m, d) = month_day y yd in (y, m, d))"

definition valid_date :: "int \<Rightarrow> int \<Rightarrow> int \<Rightarrow> bool" where
  "valid_date y m d \<longleftrightarrow> 1 \<le> m \<and> m \<le> 12 \<and> 1 \<le> d \<and> d \<le> days_in m y"

lemma year_split:
  fixes y :: int
  obtains a b c e where
    "y - 1 = 400 * a + 100 * b + 4 * c + e"
    "0 \<le> b" "b < 4" "0 \<le> c" "c < 25" "0 \<le> e" "e < 4"
proof -
  define r where "r = (y - 1) mod 400"
  define q where "q = r mod 100"
  have r: "0 \<le> r" "r < 400" and q: "0 \<le> q" "q < 100" by (simp_all add: r_def q_def)
  show thesis
  proof (rule that [of "(y - 1) div 400" "r div 100" "q div 4" "q mod 4"])
    have "y - 1 = 400 * ((y - 1) div 400) + r" by (simp add: r_def)
    moreover have "r = 100 * (r div 100) + q" by (simp add: q_def)
    moreover have "q = 4 * (q div 4) + q mod 4" by simp
    ultimately show "y - 1 = 400 * ((y - 1) div 400) + 100 * (r div 100) + 4 * (q div 4) + q mod 4"
      by linarith
    show "0 \<le> r div 100" "r div 100 < 4" using r by linarith+
    show "0 \<le> q div 4" "q div 4 < 25" using q by linarith+
  qed simp_all
qed

lemma days_before_year_split:
  assumes "y - 1 = 400 * a + 100 * b + 4 * c + e"
    and "0 \<le> b" "b < 4" "0 \<le> c" "c < 25" "0 \<le> e" "e < (4::int)"
  shows "days_before_year y = 146097 * a + 36524 * b + 1461 * c + 365 * e"
proof -
  have q4: "(y - 1) div 4 = 100 * a + 25 * b + c"
    using assms by (intro int_div_pos_eq [of _ _ _ e]) auto
  have q100: "(y - 1) div 100 = 4 * a + b"
    using assms by (intro int_div_pos_eq [of _ _ _ "4 * c + e"]) auto
  have q400: "(y - 1) div 400 = a"
    using assms by (intro int_div_pos_eq [of _ _ _ "100 * b + 4 * c + e"]) auto
  show ?thesis unfolding days_before_year_def q4 q100 q400 unfolding assms(1) by simp
qed

lemma mod_zero_top: "0 < x \<Longrightarrow> x \<le> (n::int) \<Longrightarrow> (k * n + x) mod n = 0 \<longleftrightarrow> x = n"
  by (cases "x = n") simp_all

lemma is_leap_split:
  assumes "y - 1 = 400 * a + 100 * b + 4 * c + e"
    and "0 \<le> b" "b < 4" "0 \<le> c" "c < 25" "0 \<le> e" "e < (4::int)"
  shows "is_leap y \<longleftrightarrow> e = 3 \<and> (c \<noteq> 24 \<or> b = 3)"
proof -
  have y: "y = (100 * a + 25 * b + c) * 4 + (e + 1)" "y = (4 * a + b) * 100 + (4 * c + e + 1)"
      "y = a * 400 + (100 * b + 4 * c + e + 1)"
    using assms(1) by simp_all
  have "y mod 4 = 0 \<longleftrightarrow> e + 1 = 4"
    by (subst y(1), rule mod_zero_top) (use assms in auto)
  moreover have "y mod 100 = 0 \<longleftrightarrow> 4 * c + e + 1 = 100"
    by (subst y(2), rule mod_zero_top) (use assms in auto)
  moreover have "y mod 400 = 0 \<longleftrightarrow> 100 * b + 4 * c + e + 1 = 400"
    by (subst y(3), rule mod_zero_top) (use assms in auto)
  ultimately show ?thesis unfolding is_leap_def using assms(2-7) by auto
qed

lemma year_yday_inverse:
  assumes "0 \<le> yd" and "yd < (if is_leap y then 366 else 365)"
  shows "year_yday (days_before_year y + yd) = (y, yd)"
proof -
  obtain a b c e where s: "y - 1 = 400 * a + 100 * b + 4 * c + e"
    and b: "0 \<le> b" "b < 4" and c: "0 \<le> c" "c < 25" and e: "0 \<le> e" "e < 4"
    by (rule year_split [of y])
  let ?r = "36524 * b + 1461 * c + 365 * e + yd"
  have n: "days_before_year y + yd = 146097 * a + ?r"
    using days_before_year_split [OF s b c e] by simp
  have yd: "yd < 365 \<or> yd = 365 \<and> e = 3 \<and> (c \<noteq> 24 \<or> b = 3)"
    using assms is_leap_split [OF s b c e] by (auto split: if_splits)
  have r: "0 \<le> ?r" "?r < 146097" using b c e yd assms(1) by linarith+
  then have n400: "(146097 * a + ?r) div 146097 = a" "(146097 * a + ?r) mod 146097 = ?r"
    by simp_all
  have n100: "min 3 (?r div 36524) = b"
  proof (cases "1461 * c + 365 * e + yd < 36524")
    case True
    have "?r div 36524 = b"
      by (rule int_div_pos_eq [of _ _ _ "1461 * c + 365 * e + yd"])
         (use b c e assms(1) True in linarith)+
    then show ?thesis using b by simp
  next
    case False
    then have "b = 3" and "1461 * c + 365 * e + yd = 36524" using c e yd by linarith+
    then show ?thesis by simp
  qed
  have r100: "?r - 36524 * b = 1461 * c + (365 * e + yd)" by simp
  have r4: "0 \<le> 365 * e + yd" "365 * e + yd < 1461" using e yd assms(1) by linarith+
  then have n4: "(1461 * c + (365 * e + yd)) div 1461 = c"
      "(1461 * c + (365 * e + yd)) mod 1461 = 365 * e + yd"
    by simp_all
  have n1: "min 3 ((365 * e + yd) div 365) = e"
  proof (cases "yd < 365")
    case True
    have "(365 * e + yd) div 365 = e"
      by (rule int_div_pos_eq [of _ _ _ yd]) (use assms(1) True in linarith)+
    then show ?thesis using e by simp
  next
    case False
    then show ?thesis using yd by simp
  qed
  show ?thesis
    unfolding year_yday_def Let_def n n400 n100 r100 n4 n1 using s by simp
qed

lemma month_cases:
  assumes "1 \<le> m" and "m \<le> (12::int)"
  obtains "m = 1" | "m = 2" | "m = 3" | "m = 4" | "m = 5" | "m = 6"
    | "m = 7" | "m = 8" | "m = 9" | "m = 10" | "m = 11" | "m = 12"
proof -
  have "[1..12] = [1, 2, 3, 4, 5, 6, 7, 8, 9, 10, 11, 12 :: int]" by code_simp
  moreover have "m \<in> set [1..12]" using assms by simp
  ultimately have "m \<in> set [1, 2, 3, 4, 5, 6, 7, 8, 9, 10, 11, 12]" by (simp only:)
  then show thesis using that by (simp only: list.set insert_iff empty_iff) (elim disjE; simp)
qed

lemma month_day_inverse_leap:
  assumes "valid_date y m d" and "is_leap y"
  shows "month_day y (yday_of y m d) = (m, d) \<and> 0 \<le> yday_of y m d \<and> yday_of y m d < 366"
proof -
  have m: "1 \<le> m" "m \<le> 12" and d: "1 \<le> d" "d \<le> days_in m y"
    using assms(1) by (simp_all add: valid_date_def)
  from m show ?thesis
    by (cases rule: month_cases)
       (use d assms(2) in \<open>simp_all add: month_day_def yday_of_def days_before_def days_in_def\<close>)
qed

lemma month_day_inverse_common:
  assumes "valid_date y m d" and "\<not> is_leap y"
  shows "month_day y (yday_of y m d) = (m, d) \<and> 0 \<le> yday_of y m d \<and> yday_of y m d < 365"
proof -
  have m: "1 \<le> m" "m \<le> 12" and d: "1 \<le> d" "d \<le> days_in m y"
    using assms(1) by (simp_all add: valid_date_def)
  from m show ?thesis
    by (cases rule: month_cases)
       (use d assms(2) in \<open>simp_all add: month_day_def yday_of_def days_before_def days_in_def\<close>)
qed

lemma civil_of_days_inverse:
  "valid_date y m d \<Longrightarrow> civil_of_days (days_of_civil y m d) = (y, m, d)"
  using month_day_inverse_leap [of y m d] month_day_inverse_common [of y m d]
  by (cases "is_leap y") (simp_all add: civil_of_days_def days_of_civil_def year_yday_inverse)

text \<open>Every day number is the day of one valid date.\<close>

lemma div_bounds: "0 < k \<Longrightarrow> k * (x div k) \<le> x \<and> x < k * (x div k) + (k::int)"
  by (metis add_le_cancel_left add_less_cancel_left mult_div_mod_eq pos_mod_bound pos_mod_sign
      add.right_neutral)

lemma year_yday_sound:
  assumes "year_yday n = (y, yd)"
  shows "days_before_year y + yd = n \<and> 0 \<le> yd \<and> yd < (if is_leap y then 366 else 365)"
proof -
  define a where "a = n div 146097"
  define r where "r = n mod 146097"
  define b where "b = min 3 (r div 36524)"
  define q where "q = r - 36524 * b"
  define c where "c = q div 1461"
  define p where "p = q mod 1461"
  define e where "e = min 3 (p div 365)"
  have y: "y = 400 * a + 100 * b + 4 * c + e + 1" and yd: "yd = p - 365 * e"
    using assms [unfolded year_yday_def Let_def, folded a_def r_def, folded b_def, folded q_def,
        folded c_def p_def, folded e_def]
    by auto
  have n: "n = 146097 * a + r" by (simp add: a_def r_def)
  have r: "0 \<le> r" "r < 146097" by (simp_all add: r_def)
  have rm: "36524 * (r div 36524) \<le> r" "r < 36524 * (r div 36524) + 36524"
    using div_bounds [of 36524 r] by simp_all
  have b: "0 \<le> b" "b < 4" using r by (simp_all add: b_def)
  have q: "0 \<le> q" "q \<le> 36524" "q = 36524 \<Longrightarrow> b = 3"
    using r rm unfolding q_def b_def min_def by (auto split: if_splits)
  have qs: "q = 1461 * c + p" "0 \<le> p" "p < 1461" by (simp_all add: c_def p_def)
  have c: "0 \<le> c" "c < 25" using q(1,2) qs by linarith+
  have pm: "365 * (p div 365) \<le> p" "p < 365 * (p div 365) + 365"
    using div_bounds [of 365 p] by simp_all
  have e: "0 \<le> e" "e < 4" using qs by (simp_all add: e_def)
  have d: "0 \<le> yd" "yd \<le> 365" "yd = 365 \<Longrightarrow> e = 3 \<and> p = 1460"
    using qs pm unfolding yd e_def min_def by (auto split: if_splits)
  have s: "y - 1 = 400 * a + 100 * b + 4 * c + e" using y by simp
  have "yd = 365 \<Longrightarrow> e = 3 \<and> (c \<noteq> 24 \<or> b = 3)"
    using d(3) q(3) qs(1) by auto
  then have "yd < (if is_leap y then 366 else 365)"
    using d(2) is_leap_split [OF s b c e] by (cases "yd = 365") auto
  moreover have "days_before_year y + yd = n"
    using days_before_year_split [OF s b c e] n qs(1) yd unfolding q_def by simp
  ultimately show ?thesis using d(1) by blast
qed

lemma yday_ranges:
  fixes yd l :: int
  obtains "yd < 31" | "31 \<le> yd" "yd < 59 + l" | "59 + l \<le> yd" "yd < 90 + l"
    | "90 + l \<le> yd" "yd < 120 + l" | "120 + l \<le> yd" "yd < 151 + l"
    | "151 + l \<le> yd" "yd < 181 + l" | "181 + l \<le> yd" "yd < 212 + l"
    | "212 + l \<le> yd" "yd < 243 + l" | "243 + l \<le> yd" "yd < 273 + l"
    | "273 + l \<le> yd" "yd < 304 + l" | "304 + l \<le> yd" "yd < 334 + l" | "334 + l \<le> yd"
  by (meson not_le)

lemma month_day_sound:
  assumes md: "month_day y yd = (m, d)" and "0 \<le> yd" and "yd < (if is_leap y then 366 else 365)"
  shows "valid_date y m d \<and> yday_of y m d = yd"
proof (cases "is_leap y")
  case True
  show ?thesis
    by (cases rule: yday_ranges [where yd = yd and l = 1])
       (use assms True in \<open>auto simp: month_day_def valid_date_def yday_of_def
          days_before_def days_in_def\<close>)
next
  case False
  show ?thesis
    by (cases rule: yday_ranges [where yd = yd and l = 0])
       (use assms False in \<open>auto simp: month_day_def valid_date_def yday_of_def
          days_before_def days_in_def\<close>)
qed

lemma civil_of_days_sound:
  assumes "civil_of_days n = (y, m, d)"
  shows "valid_date y m d \<and> days_of_civil y m d = n"
proof -
  obtain yd where yd: "year_yday (n + unix_days) = (y, yd)" and m: "month_day y yd = (m, d)"
    using assms by (auto simp: civil_of_days_def split: prod.splits)
  from year_yday_sound [OF yd] month_day_sound [OF m] show ?thesis
    by (simp add: days_of_civil_def)
qed

end
