(* ===== verification/GoTimeFormat.thy ===== *)
theory GoTimeFormat
  imports GoTime
begin

text \<open>
  \<open>time.Parse\<close> and \<open>Time.Format\<close> for the layouts that occur in the source. A layout is
  the list of chunks the library cuts it into: literal text and the fields of the reference
  time. Parsing follows the library's loop over the chunks, with its lenient corners: an hour
  of one digit, a fractional second after the seconds also where the layout has none, a comma
  for the decimal point, and zone offsets up to 24:60.
\<close>

datatype chunk =
    Lit bytes | StdLongYear | StdZeroMonth | StdZeroDay | StdHour | StdZeroMinute
  | StdZeroSecond | StdFracSecond0 nat | StdFracSecond9 nat | StdISO8601ColonTZ

type_synonym layout = "chunk list"

definition date_time :: layout where
  "date_time = [StdLongYear, Lit ''-'', StdZeroMonth, Lit ''-'', StdZeroDay, Lit ''T'',
     StdHour, Lit '':'', StdZeroMinute, Lit '':'', StdZeroSecond]"

definition RFC3339 :: layout where
  "RFC3339 = date_time @ [StdISO8601ColonTZ]"

definition RFC3339Nano :: layout where
  "RFC3339Nano = date_time @ [StdFracSecond9 9, StdISO8601ColonTZ]"

text \<open>\<open>2006-01-02T15:04:05.000Z07:00\<close>, \<open>...05.000Z\<close> and \<open>...05.999Z\<close>.\<close>

definition layout_ms_zone :: layout where
  "layout_ms_zone = date_time @ [StdFracSecond0 3, StdISO8601ColonTZ]"

definition layout_ms_Z :: layout where
  "layout_ms_Z = date_time @ [StdFracSecond0 3, Lit ''Z'']"

definition layout_999_Z :: layout where
  "layout_999_Z = date_time @ [StdFracSecond9 3, Lit ''Z'']"

section \<open>Digits\<close>

definition is_digit :: "byte \<Rightarrow> bool" where
  "is_digit c \<longleftrightarrow> 48 \<le> (of_char c :: nat) \<and> (of_char c :: nat) \<le> 57"

definition digit_val :: "byte \<Rightarrow> nat" where
  "digit_val c = of_char c - 48"

definition digit_char :: "nat \<Rightarrow> byte" where
  "digit_char d = char_of (48 + d)"

definition is_digit_at :: "bytes \<Rightarrow> nat \<Rightarrow> bool" where
  "is_digit_at s i \<longleftrightarrow> i < length s \<and> is_digit (s ! i)"

definition comma_or_period :: "byte \<Rightarrow> bool" where
  "comma_or_period c \<longleftrightarrow> c = CHR ''.'' \<or> c = CHR '',''"

text \<open>\<open>atoi\<close>: an optional sign, then decimal digits to the end of the string.\<close>

definition leading_int :: "bytes \<Rightarrow> nat option" where
  "leading_int s = (if list_all is_digit s then Some (value_of 10 (map digit_val s)) else None)"

definition atoi :: "bytes \<Rightarrow> int option" where
  "atoi s = (case s of
       [] \<Rightarrow> map_option int (leading_int s)
     | c # t \<Rightarrow>
         if c = CHR ''-'' then map_option (\<lambda>n. - int n) (leading_int t)
         else if c = CHR ''+'' then map_option int (leading_int t)
         else map_option int (leading_int s))"

text \<open>One or two digits; \<open>fixed\<close> asks for exactly two.\<close>

definition getnum :: "bytes \<Rightarrow> bool \<Rightarrow> (nat \<times> bytes) option" where
  "getnum s fixed =
     (if \<not> is_digit_at s 0 then None
      else if \<not> is_digit_at s 1 then (if fixed then None else Some (digit_val (s ! 0), drop 1 s))
      else Some (digit_val (s ! 0) * 10 + digit_val (s ! 1), drop 2 s))"

text \<open>\<open>value[0:nbytes]\<close> is a point and digits; more than nine digits are cut off.\<close>

definition parse_nanoseconds :: "bytes \<Rightarrow> nat \<Rightarrow> int option" where
  "parse_nanoseconds v nbytes =
     (if v = [] \<or> \<not> comma_or_period (hd v) then None
      else let n = min nbytes 10 in
        (case atoi (drop 1 (take n v)) of
           None \<Rightarrow> None
         | Some ns \<Rightarrow> if ns < 0 then None else Some (ns * 10 ^ (10 - n))))"

text \<open>The number of digits a string starts with.\<close>

definition digit_run :: "bytes \<Rightarrow> nat" where
  "digit_run s = length (takeWhile is_digit s)"

section \<open>Parsing\<close>

record fields =
  f_year :: int
  f_month :: int
  f_day :: int
  f_hour :: int
  f_min :: int
  f_sec :: int
  f_nsec :: int
  f_offset :: int

definition no_fields :: fields where
  "no_fields = \<lparr>f_year = 0, f_month = 1, f_day = 1, f_hour = 0, f_min = 0, f_sec = 0,
     f_nsec = 0, f_offset = 0\<rparr>"

text \<open>The zone \<open>Z07:00\<close>: the letter Z, or a sign and \<open>hh:mm\<close>.\<close>

definition parse_zone :: "bytes \<Rightarrow> (int \<times> bytes) option" where
  "parse_zone v =
     (if v \<noteq> [] \<and> hd v = CHR ''Z'' then Some (0, drop 1 v)
      else if length v < 6 then None
      else if v ! 3 \<noteq> CHR '':'' then None
      else (case (getnum (take 2 (drop 1 v)) True, getnum (take 2 (drop 4 v)) True) of
          (Some (hr, _), Some (mm, _)) \<Rightarrow>
            if hr > 24 \<or> mm > 60 then None
            else if v ! 0 = CHR ''+'' then Some (int (hr * 60 + mm) * 60, drop 6 v)
            else if v ! 0 = CHR ''-'' then Some (- (int (hr * 60 + mm) * 60), drop 6 v)
            else None
        | _ \<Rightarrow> None))"

text \<open>The fractional second after the seconds field, where the layout names none.\<close>

definition parse_extra_fraction :: "layout \<Rightarrow> bytes \<Rightarrow> (int option \<times> bytes) option" where
  "parse_extra_fraction rest v =
     (if 2 \<le> length v \<and> comma_or_period (v ! 0) \<and> is_digit_at v 1
         \<and> (case rest of StdFracSecond0 _ # _ \<Rightarrow> False | StdFracSecond9 _ # _ \<Rightarrow> False | _ \<Rightarrow> True)
      then (let n = 1 + digit_run (drop 1 v) in
            (case parse_nanoseconds v n of None \<Rightarrow> None | Some ns \<Rightarrow> Some (Some ns, drop n v)))
      else Some (None, v))"

fun parse_chunk :: "chunk \<Rightarrow> layout \<Rightarrow> bytes \<Rightarrow> fields \<Rightarrow> (fields \<times> bytes) option" where
  "parse_chunk (Lit p) rest v f =
     (if has_prefix v p then Some (f, drop (length p) v) else None)"
| "parse_chunk StdLongYear rest v f =
     (if length v < 4 \<or> \<not> is_digit_at v 0 then None
      else (case atoi (take 4 v) of
          None \<Rightarrow> None | Some y \<Rightarrow> Some (f\<lparr>f_year := y\<rparr>, drop 4 v)))"
| "parse_chunk StdZeroMonth rest v f =
     (case getnum v True of None \<Rightarrow> None
      | Some (m, v') \<Rightarrow> if m = 0 \<or> 12 < m then None else Some (f\<lparr>f_month := int m\<rparr>, v'))"
| "parse_chunk StdZeroDay rest v f =
     (case getnum v True of None \<Rightarrow> None
      | Some (d, v') \<Rightarrow> Some (f\<lparr>f_day := int d\<rparr>, v'))"
| "parse_chunk StdHour rest v f =
     (case getnum v False of None \<Rightarrow> None
      | Some (h, v') \<Rightarrow> if 24 \<le> h then None else Some (f\<lparr>f_hour := int h\<rparr>, v'))"
| "parse_chunk StdZeroMinute rest v f =
     (case getnum v True of None \<Rightarrow> None
      | Some (m, v') \<Rightarrow> if 60 \<le> m then None else Some (f\<lparr>f_min := int m\<rparr>, v'))"
| "parse_chunk StdZeroSecond rest v f =
     (case getnum v True of None \<Rightarrow> None
      | Some (s, v') \<Rightarrow>
          if 60 \<le> s then None
          else (case parse_extra_fraction rest v' of
              None \<Rightarrow> None
            | Some (None, v'') \<Rightarrow> Some (f\<lparr>f_sec := int s\<rparr>, v'')
            | Some (Some ns, v'') \<Rightarrow> Some (f\<lparr>f_sec := int s, f_nsec := ns\<rparr>, v'')))"
| "parse_chunk (StdFracSecond0 k) rest v f =
     (if length v < 1 + k then None
      else (case parse_nanoseconds v (1 + k) of
          None \<Rightarrow> None | Some ns \<Rightarrow> Some (f\<lparr>f_nsec := ns\<rparr>, drop (1 + k) v)))"
| "parse_chunk (StdFracSecond9 k) rest v f =
     (if length v < 2 \<or> \<not> comma_or_period (v ! 0) \<or> \<not> is_digit (v ! 1) then Some (f, v)
      else let n = 1 + digit_run (drop 1 v) in
        (case parse_nanoseconds v n of
           None \<Rightarrow> None | Some ns \<Rightarrow> Some (f\<lparr>f_nsec := ns\<rparr>, drop n v)))"
| "parse_chunk StdISO8601ColonTZ rest v f =
     (case parse_zone v of None \<Rightarrow> None
      | Some (off, v') \<Rightarrow> Some (f\<lparr>f_offset := off\<rparr>, v'))"

text \<open>The loop ends with the layout; text left over is an error.\<close>

fun parse_chunks :: "layout \<Rightarrow> bytes \<Rightarrow> fields \<Rightarrow> fields option" where
  "parse_chunks [] v f = (if v = [] then Some f else None)"
| "parse_chunks (c # rest) v f =
     (case parse_chunk c rest v f of None \<Rightarrow> None | Some (f', v') \<Rightarrow> parse_chunks rest v' f')"

definition date_instant :: "int \<Rightarrow> int \<Rightarrow> int \<Rightarrow> int \<Rightarrow> int \<Rightarrow> int \<Rightarrow> int \<Rightarrow> instant" where
  "date_instant y mo d h mi s ns =
     ((days_of_civil y mo d * 86400 + h * 3600 + mi * 60 + s) * 1000000000) + ns"

definition time_Parse :: "layout \<Rightarrow> bytes \<Rightarrow> instant option" where
  "time_Parse l v =
     (case parse_chunks l v no_fields of
        None \<Rightarrow> None
      | Some f \<Rightarrow>
          if f_day f < 1 \<or> days_in (f_month f) (f_year f) < f_day f then None
          else Some (date_instant (f_year f) (f_month f) (f_day f) (f_hour f) (f_min f) (f_sec f)
                       (f_nsec f) - f_offset f * 1000000000))"

section \<open>Formatting\<close>

definition append_int :: "int \<Rightarrow> nat \<Rightarrow> bytes" where
  "append_int x w =
     (if x < 0 then ''-'' else [])
     @ (let ds = map digit_char (digits 10 (nat \<bar>x\<bar>))
        in replicate (w - length ds) (CHR ''0'') @ ds)"

text \<open>
  \<open>t.UTC().Format("2006-01-02T15:04:05.000Z")\<close>: the fraction is cut to milliseconds, not
  rounded.
\<close>

definition format_timestamp :: "instant \<Rightarrow> bytes" where
  "format_timestamp t =
     (let secs = t div 1000000000; ns = t mod 1000000000;
          days = secs div 86400; sod = secs mod 86400;
          (y, m, d) = civil_of_days days
      in append_int y 4 @ ''-'' @ append_int m 2 @ ''-'' @ append_int d 2 @ ''T''
         @ append_int (sod div 3600) 2 @ '':'' @ append_int (sod mod 3600 div 60) 2 @ '':''
         @ append_int (sod mod 60) 2 @ ''.'' @ append_int (ns div 1000000) 3 @ ''Z'')"

section \<open>What \<open>Format\<close> writes, \<open>Parse\<close> reads\<close>

lemma is_digit_digit_char [simp]: "d < 10 \<Longrightarrow> is_digit (digit_char d)"
  by (simp add: is_digit_def digit_char_def of_char_of)

lemma digit_val_digit_char [simp]: "d < 10 \<Longrightarrow> digit_val (digit_char d) = d"
  by (simp add: digit_val_def digit_char_def of_char_of)

lemma digit_char_neq:
  "d < 10 \<Longrightarrow> \<not> is_digit c \<Longrightarrow> digit_char d \<noteq> c"
  using is_digit_digit_char by metis

lemma not_digit [simp]:
  "\<not> is_digit (CHR ''-'')" "\<not> is_digit (CHR ''+'')" "\<not> is_digit (CHR ''Z'')"
  "\<not> is_digit (CHR ''.'')" "\<not> is_digit (CHR '','')" "\<not> is_digit (CHR '':'')"
  "\<not> is_digit (CHR ''T'')" "\<not> is_digit (CHR 0x0A)" "\<not> is_digit (CHR 0x0D)"
  by (simp_all add: is_digit_def)

text \<open>The decimal digits of a number in a field of fixed width.\<close>

primrec fixed_digits :: "nat \<Rightarrow> nat \<Rightarrow> nat list" where
  "fixed_digits 0 n = []"
| "fixed_digits (Suc w) n = fixed_digits w (n div 10) @ [n mod 10]"

lemma fixed_digits_less: "d \<in> set (fixed_digits w n) \<Longrightarrow> d < 10"
  by (induction w arbitrary: n) auto

lemma fixed_digits_0: "fixed_digits w 0 = replicate w 0"
  by (induction w) (simp_all add: replicate_append_same)

lemma length_fixed_digits [simp]: "length (fixed_digits w n) = w"
  by (induction w arbitrary: n) auto

lemma pad_digits:
  "n < 10 ^ w \<Longrightarrow> replicate (w - length (digits 10 n)) 0 @ digits 10 n = fixed_digits w n"
proof (induction w arbitrary: n)
  case (Suc w)
  show ?case
  proof (cases "n = 0")
    case True
    then show ?thesis by (simp add: fixed_digits_0 replicate_append_same)
  next
    case False
    have "n div 10 < 10 ^ w" using Suc.prems by (simp add: less_mult_imp_div_less mult.commute)
    with Suc.IH False show ?thesis by (simp add: digits_step)
  qed
qed simp

lemma append_int_fixed:
  assumes "0 \<le> x" and "nat x < 10 ^ w"
  shows "append_int x w = map digit_char (fixed_digits w (nat x))"
proof -
  have "digit_char 0 = CHR ''0''" by code_simp
  then have "append_int x w
      = map digit_char (replicate (w - length (digits 10 (nat x))) 0 @ digits 10 (nat x))"
    using assms(1) by (simp add: append_int_def Let_def)
  then show ?thesis using pad_digits [OF assms(2)] by simp
qed

lemma append_int_2:
  assumes "0 \<le> x" and "x < 100"
  obtains a b where "a < 10" "b < 10" "nat x = a * 10 + b"
    "append_int x 2 = [digit_char a, digit_char b]"
proof
  have "nat x < 10 ^ 2" using assms by simp
  then have "append_int x 2 = map digit_char (fixed_digits (Suc (Suc 0)) (nat x))"
    using append_int_fixed [OF assms(1), of 2] by (simp only: numeral_2_eq_2)
  then show "append_int x 2 = [digit_char (nat x div 10 mod 10), digit_char (nat x mod 10)]"
    by simp
  show "nat x = nat x div 10 mod 10 * 10 + nat x mod 10"
    using assms by simp
qed simp_all

lemma getnum_append_int:
  assumes "0 \<le> x" and "x < 100"
  shows "getnum (append_int x 2 @ s) fixed = Some (nat x, s)"
proof -
  obtain a b where "a < 10" "b < 10" "nat x = a * 10 + b"
    "append_int x 2 = [digit_char a, digit_char b]"
    using append_int_2 [OF assms] .
  then show ?thesis by (simp add: getnum_def is_digit_at_def)
qed

lemma leading_int_fixed:
  assumes "n < 10 ^ w"
  shows "leading_int (map digit_char (fixed_digits w n)) = Some n"
proof -
  have "map (digit_val \<circ> digit_char) (fixed_digits w n) = fixed_digits w n"
    by (rule map_idI) (simp add: fixed_digits_less)
  moreover have "value_of 10 (fixed_digits w n) = n"
    by (simp only: pad_digits [OF assms, symmetric] value_of_leading_zeros) (simp add: value_of_digits)
  moreover have "list_all is_digit (map digit_char (fixed_digits w n))"
    by (auto simp: list_all_iff fixed_digits_less)
  ultimately show ?thesis by (simp add: leading_int_def)
qed

lemma length_append_int: "0 \<le> x \<Longrightarrow> nat x < 10 ^ w \<Longrightarrow> length (append_int x w) = w"
  by (simp add: append_int_fixed)

lemma atoi_append_int:
  assumes "0 \<le> x" and "nat x < 10 ^ w" and "0 < w"
  shows "atoi (append_int x w) = Some x"
proof -
  have eq: "append_int x w = map digit_char (fixed_digits w (nat x))"
    using assms(1,2) by (rule append_int_fixed)
  have "\<forall>c \<in> set (append_int x w). is_digit c"
    unfolding eq by (auto simp: fixed_digits_less)
  moreover obtain c t where ct: "append_int x w = c # t"
    using assms(3) length_append_int [OF assms(1,2)] by (cases "append_int x w") auto
  ultimately have "is_digit c" by simp
  then have "c \<noteq> CHR ''-''" "c \<noteq> CHR ''+''" by auto
  moreover have "leading_int (append_int x w) = Some (nat x)"
    unfolding eq by (rule leading_int_fixed [OF assms(2)])
  ultimately show ?thesis using assms(1) ct by (simp add: atoi_def)
qed

lemma parse_Lit: "parse_chunk (Lit [c]) rest (c # s) f = Some (f, s)"
  by simp

lemma append_int_nth_digit:
  assumes "0 \<le> x" and "nat x < 10 ^ w" and "i < w"
  shows "is_digit_at (append_int x w @ s) i"
  using assms fixed_digits_less [OF nth_mem, of i w "nat x"]
  by (simp add: is_digit_at_def append_int_fixed nth_append)

lemma parse_year:
  "0 \<le> y \<Longrightarrow> y < 10000 \<Longrightarrow>
   parse_chunk StdLongYear rest (append_int y 4 @ s) f = Some (f\<lparr>f_year := y\<rparr>, s)"
  by (simp add: length_append_int append_int_nth_digit atoi_append_int)

lemma parse_two_digits:
  "1 \<le> x \<Longrightarrow> x \<le> 12 \<Longrightarrow>
     parse_chunk StdZeroMonth rest (append_int x 2 @ s) f = Some (f\<lparr>f_month := x\<rparr>, s)"
  "1 \<le> x \<Longrightarrow> x \<le> 31 \<Longrightarrow>
     parse_chunk StdZeroDay rest (append_int x 2 @ s) f = Some (f\<lparr>f_day := x\<rparr>, s)"
  "0 \<le> x \<Longrightarrow> x < 24 \<Longrightarrow>
     parse_chunk StdHour rest (append_int x 2 @ s) f = Some (f\<lparr>f_hour := x\<rparr>, s)"
  "0 \<le> x \<Longrightarrow> x < 60 \<Longrightarrow>
     parse_chunk StdZeroMinute rest (append_int x 2 @ s) f = Some (f\<lparr>f_min := x\<rparr>, s)"
  by (simp_all add: getnum_append_int)

lemma parse_seconds:
  "0 \<le> x \<Longrightarrow> x < 60 \<Longrightarrow>
   parse_chunk StdZeroSecond rest (append_int x 2 @ s) f =
     (case parse_extra_fraction rest s of
        None \<Rightarrow> None
      | Some (None, s') \<Rightarrow> Some (f\<lparr>f_sec := x\<rparr>, s')
      | Some (Some ns, s') \<Rightarrow> Some (f\<lparr>f_sec := x, f_nsec := ns\<rparr>, s'))"
  by (auto simp: getnum_append_int split: option.split)

declare parse_chunk.simps [simp del]

lemma parse_nanoseconds_ms:
  assumes "0 \<le> ms" and "ms < 1000"
  shows "parse_nanoseconds (CHR ''.'' # append_int ms 3 @ s) 4 = Some (ms * 1000000)"
proof -
  have "take 3 (append_int ms 3 @ s) = append_int ms 3"
    using assms by (simp add: length_append_int)
  moreover have "atoi (append_int ms 3) = Some ms"
    using assms by (intro atoi_append_int) auto
  ultimately show ?thesis
    using assms by (simp add: parse_nanoseconds_def comma_or_period_def)
qed

lemma digit_run_ms:
  assumes "0 \<le> ms" and "ms < 1000"
  shows "digit_run (append_int ms 3 @ CHR ''Z'' # s) = 3"
proof -
  have "\<forall>c \<in> set (append_int ms 3). is_digit c"
    using assms by (auto simp: append_int_fixed fixed_digits_less)
  then have "takeWhile is_digit (append_int ms 3 @ CHR ''Z'' # s) = append_int ms 3"
    by (simp add: takeWhile_append2)
  then show ?thesis using assms by (simp add: digit_run_def length_append_int)
qed

text \<open>The two layouts that read the fraction \<open>Format\<close> writes.\<close>

lemma parse_fraction_RFC3339:
  assumes "0 \<le> ms" and "ms < 1000"
  shows "parse_extra_fraction [StdISO8601ColonTZ] (CHR ''.'' # append_int ms 3 @ ''Z'')
     = Some (Some (ms * 1000000), ''Z'')"
  using assms append_int_nth_digit [of ms 3 0 "''Z''"]
  by (simp add: parse_extra_fraction_def comma_or_period_def digit_run_ms parse_nanoseconds_ms
      length_append_int is_digit_at_def Let_def)

lemma parse_fraction_ms_Z:
  assumes "0 \<le> ms" and "ms < 1000"
  shows "parse_extra_fraction [StdFracSecond0 3, Lit ''Z''] v = Some (None, v)"
    and "parse_chunk (StdFracSecond0 3) [Lit ''Z''] (CHR ''.'' # append_int ms 3 @ ''Z'') f
     = Some (f\<lparr>f_nsec := ms * 1000000\<rparr>, ''Z'')"
  using assms
  by (simp_all add: parse_extra_fraction_def parse_chunk.simps parse_nanoseconds_ms
      length_append_int)

lemma parse_zone_Z: "parse_chunk StdISO8601ColonTZ rest ''Z'' f = Some (f\<lparr>f_offset := 0\<rparr>, [])"
  by (simp add: parse_chunk.simps parse_zone_def)

text \<open>
  A timestamp in the range the canonical layout can hold: a whole number of milliseconds, in
  a year of four digits.
\<close>

definition year_of :: "instant \<Rightarrow> int" where
  "year_of t = fst (civil_of_days (t div 1000000000 div 86400))"

definition canonical_ts :: "instant \<Rightarrow> bool" where
  "canonical_ts t \<longleftrightarrow> t mod 1000000 = 0 \<and> 0 \<le> year_of t \<and> year_of t < 10000"

lemma days_in_le_31: "days_in m y \<le> 31"
  by (simp add: days_in_def)

text \<open>The fields \<open>Format\<close> splits an instant into, and the instant they make.\<close>

lemma instant_fields:
  assumes "secs = t div 1000000000" and "ns = t mod 1000000000"
    and "sod = secs mod 86400" and "civil_of_days (secs div 86400) = (y, m, d)"
  shows "date_instant y m d (sod div 3600) (sod mod 3600 div 60) (sod mod 60) ns = t"
    and "0 \<le> sod div 3600" "sod div 3600 < 24"
    and "0 \<le> sod mod 3600 div 60" "sod mod 3600 div 60 < 60"
    and "0 \<le> sod mod 60" "sod mod 60 < 60"
proof -
  have sod: "0 \<le> sod" "sod < 86400" using assms(3) by simp_all
  have days: "days_of_civil y m d = secs div 86400"
    using civil_of_days_sound [OF assms(4)] by simp
  have "sod mod 60 = sod mod 3600 mod 60" by (simp add: mod_mod_cancel)
  then have "sod = 3600 * (sod div 3600) + 60 * (sod mod 3600 div 60) + sod mod 60"
    using mult_div_mod_eq [of 3600 sod] mult_div_mod_eq [of 60 "sod mod 3600"] by linarith
  moreover have "secs = 86400 * (secs div 86400) + sod" using assms(3) by simp
  ultimately have "secs = days_of_civil y m d * 86400 + (sod div 3600) * 3600
      + (sod mod 3600 div 60) * 60 + sod mod 60"
    using days by linarith
  moreover have "t = secs * 1000000000 + ns" using assms(1,2) by simp
  ultimately show "date_instant y m d (sod div 3600) (sod mod 3600 div 60) (sod mod 60) ns = t"
    by (simp add: date_instant_def)
  show "0 \<le> sod div 3600" "sod div 3600 < 24" using sod by linarith+
  show "0 \<le> sod mod 3600 div 60" by simp
  have "sod mod 3600 < 3600" by simp
  then show "sod mod 3600 div 60 < 60" by linarith
qed simp_all

theorem parse_format_timestamp:
  assumes can: "canonical_ts t" and l: "l = RFC3339 \<or> l = layout_ms_Z"
  shows "time_Parse l (format_timestamp t) = Some t"
proof -
  define secs where "secs = t div 1000000000"
  define ns where "ns = t mod 1000000000"
  define sod where "sod = secs mod 86400"
  obtain y m d where ymd: "civil_of_days (secs div 86400) = (y, m, d)"
    by (metis prod_cases3)
  note f = instant_fields [OF secs_def ns_def sod_def ymd]
  have date: "valid_date y m d" using civil_of_days_sound [OF ymd] by simp
  then have m: "1 \<le> m" "m \<le> 12" and d: "1 \<le> d" "d \<le> days_in m y" "d \<le> 31"
    using days_in_le_31 [of m y] by (simp_all add: valid_date_def)
  have y: "0 \<le> y" "y < 10000"
    using can ymd by (simp_all add: canonical_ts_def year_of_def secs_def)
  have "ns mod 1000000 = 0"
    using can by (simp add: ns_def canonical_ts_def mod_mod_cancel)
  then have ms: "ns div 1000000 * 1000000 = ns"
    using mult_div_mod_eq [of 1000000 ns] by simp
  have ms_range: "0 \<le> ns div 1000000" "ns div 1000000 < 1000"
  proof -
    have "0 \<le> ns" "ns < 1000000000" by (simp_all add: ns_def)
    then show "0 \<le> ns div 1000000" "ns div 1000000 < 1000" by linarith+
  qed
  have "format_timestamp t = append_int y 4 @ ''-'' @ append_int m 2 @ ''-'' @ append_int d 2
      @ ''T'' @ append_int (sod div 3600) 2 @ '':'' @ append_int (sod mod 3600 div 60) 2
      @ '':'' @ append_int (sod mod 60) 2 @ ''.'' @ append_int (ns div 1000000) 3 @ ''Z''"
    by (simp add: format_timestamp_def Let_def ymd sod_def ns_def flip: secs_def)
  moreover have "parse_chunks l \<dots> no_fields =
      Some \<lparr>f_year = y, f_month = m, f_day = d, f_hour = sod div 3600,
        f_min = sod mod 3600 div 60, f_sec = sod mod 60, f_nsec = ns, f_offset = 0\<rparr>"
    using l
  proof
    assume "l = RFC3339"
    then show ?thesis
      by (simp only: RFC3339_def date_time_def append.simps parse_chunks.simps parse_Lit
          parse_year [OF y] parse_two_digits(1) [OF m] parse_two_digits(2) [OF d(1,3)]
          parse_two_digits(3) [OF f(2,3)] parse_two_digits(4) [OF f(4,5)]
          parse_seconds [OF f(6,7)] parse_fraction_RFC3339 [OF ms_range] parse_zone_Z ms
          option.case prod.case) (simp add: no_fields_def)
  next
    assume "l = layout_ms_Z"
    then show ?thesis
      by (simp only: layout_ms_Z_def date_time_def append.simps parse_chunks.simps parse_Lit
          parse_year [OF y] parse_two_digits(1) [OF m] parse_two_digits(2) [OF d(1,3)]
          parse_two_digits(3) [OF f(2,3)] parse_two_digits(4) [OF f(4,5)]
          parse_seconds [OF f(6,7)] parse_fraction_ms_Z [OF ms_range] ms
          option.case prod.case) (simp add: no_fields_def)
  qed
  ultimately show ?thesis
    using f(1) d by (simp add: time_Parse_def)
qed

end
