(* ===== verification/GoUtf8.thy ===== *)
theory GoUtf8
  imports Prelude
begin

text \<open>
  Go's \<open>for _, r := range s\<close> walks the runes of a string, not its bytes: it decodes UTF-8
  and yields U+FFFD for a byte that starts no valid sequence. The decoder of the language
  runtime is modelled here, with the one fact the validation loops of the program need: a
  loop that refuses every rune above 127 may be read byte by byte.
\<close>

definition rune_error :: nat where
  "rune_error = 0xFFFD"

definition is_cont :: "byte \<Rightarrow> bool" where
  "is_cont c \<longleftrightarrow> 0x80 \<le> (of_char c :: nat) \<and> (of_char c :: nat) \<le> 0xBF"

definition cont_bits :: "byte \<Rightarrow> nat" where
  "cont_bits c = of_char c mod 64"

text \<open>The rune that a non-empty string starts with, and the number of bytes it takes.\<close>

definition rune2 :: "nat \<Rightarrow> byte \<Rightarrow> nat" where
  "rune2 a b = (a mod 32) * 64 + cont_bits b"

definition rune3 :: "nat \<Rightarrow> byte \<Rightarrow> byte \<Rightarrow> nat" where
  "rune3 a b c = (a mod 16) * 4096 + cont_bits b * 64 + cont_bits c"

definition rune4 :: "nat \<Rightarrow> byte \<Rightarrow> byte \<Rightarrow> byte \<Rightarrow> nat" where
  "rune4 a b c d = (a mod 8) * 262144 + cont_bits b * 4096 + cont_bits c * 64 + cont_bits d"

definition decode_multi :: "nat \<Rightarrow> bytes \<Rightarrow> nat \<times> nat" where
  "decode_multi a t =
     (if 0xC0 \<le> a \<and> a < 0xE0 \<and> 1 \<le> length t \<and> is_cont (t ! 0) \<and> 0x7F < rune2 a (t ! 0)
      then (rune2 a (t ! 0), 2)
      else if 0xE0 \<le> a \<and> a < 0xF0 \<and> 2 \<le> length t \<and> is_cont (t ! 0) \<and> is_cont (t ! 1)
              \<and> 0x7FF < rune3 a (t ! 0) (t ! 1)
              \<and> \<not> (0xD800 \<le> rune3 a (t ! 0) (t ! 1) \<and> rune3 a (t ! 0) (t ! 1) \<le> 0xDFFF)
      then (rune3 a (t ! 0) (t ! 1), 3)
      else if 0xF0 \<le> a \<and> a < 0xF8 \<and> 3 \<le> length t
              \<and> is_cont (t ! 0) \<and> is_cont (t ! 1) \<and> is_cont (t ! 2)
              \<and> 0xFFFF < rune4 a (t ! 0) (t ! 1) (t ! 2)
              \<and> rune4 a (t ! 0) (t ! 1) (t ! 2) \<le> 0x10FFFF
      then (rune4 a (t ! 0) (t ! 1) (t ! 2), 4)
      else (rune_error, 1))"

fun decode_rune :: "bytes \<Rightarrow> nat \<times> nat" where
  "decode_rune [] = (rune_error, 1)"
| "decode_rune (c # t) =
     (if (of_char c :: nat) < 0x80 then (of_char c, 1) else decode_multi (of_char c) t)"

fun runes :: "bytes \<Rightarrow> nat list" where
  "runes [] = []"
| "runes (c # s) =
     fst (decode_rune (c # s)) # runes (drop (snd (decode_rune (c # s)) - 1) s)"

declare decode_rune.simps(2) [simp del] runes.simps(2) [simp del]

lemma decode_rune_ascii:
  "(of_char c :: nat) < 128 \<Longrightarrow> decode_rune (c # s) = (of_char c, 1)"
  by (simp add: decode_rune.simps)

lemma decode_rune_non_ascii:
  "128 \<le> (of_char c :: nat) \<Longrightarrow> 128 \<le> fst (decode_rune (c # s))"
  by (auto simp: decode_rune.simps decode_multi_def rune_error_def)

lemma runes_ascii [simp]:
  "(of_char c :: nat) < 128 \<Longrightarrow> runes (c # s) = of_char c # runes s"
  by (simp add: decode_rune_ascii runes.simps)

lemma runes_all_ascii:
  "\<forall>c \<in> set s. (of_char c :: nat) < 128 \<Longrightarrow> runes s = map of_char s"
  by (induction s) simp_all

text \<open>
  A test that fails on every rune above 127 holds of all runes exactly when it holds of all
  bytes.
\<close>

lemma list_all_runes:
  assumes ascii: "\<And>r. P r \<Longrightarrow> r < 128"
  shows "list_all P (runes s) \<longleftrightarrow> list_all (\<lambda>c. P (of_char c)) s"
proof (induction s)
  case (Cons c s)
  show ?case
  proof (cases "(of_char c :: nat) < 128")
    case True
    then show ?thesis using Cons.IH by simp
  next
    case False
    then have "128 \<le> fst (decode_rune (c # s))"
      by (simp add: decode_rune_non_ascii)
    then have "\<not> P (fst (decode_rune (c # s)))" and "\<not> P (of_char c)"
      using ascii False by fastforce+
    then show ?thesis by (simp add: runes.simps)
  qed
qed simp

end
