(* ===== verification/Codec.thy ===== *)
theory Codec
  imports Prelude
begin

text \<open>
  The contract between a printer and a parser. Four parts of the program are such a pair:
  base58, CAIP-2 chain ids, CAIP-10 account ids, and the sign-in message itself. A \<open>codec\<close>
  parses what it prints; a \<open>canonical_codec\<close> accepts nothing else.
\<close>

locale codec =
  fixes enc :: "'a \<Rightarrow> bytes"
    and dec :: "bytes \<Rightarrow> 'a res"
    and printable :: "'a \<Rightarrow> bool"
  assumes dec_enc: "printable x \<Longrightarrow> dec (enc x) = Ok x"
begin

lemma enc_inj: "printable x \<Longrightarrow> printable y \<Longrightarrow> enc x = enc y \<Longrightarrow> x = y"
  by (metis dec_enc res.inject(1))

lemma enc_inj_on: "inj_on enc (Collect printable)"
  by (auto intro!: inj_onI enc_inj)

lemma enc_eq_iff: "printable x \<Longrightarrow> printable y \<Longrightarrow> enc x = enc y \<longleftrightarrow> x = y"
  by (metis enc_inj)

end

locale canonical_codec = codec +
  assumes dec_printable: "dec s = Ok x \<Longrightarrow> printable x"
    and dec_canonical: "dec s = Ok x \<Longrightarrow> enc x = s"
begin

lemma dec_iff: "dec s = Ok x \<longleftrightarrow> printable x \<and> enc x = s"
  by (metis dec_enc dec_printable dec_canonical)

lemma dec_inj: "dec s = Ok x \<Longrightarrow> dec t = Ok x \<Longrightarrow> s = t"
  by (metis dec_canonical)

lemma accepts_iff: "(\<exists>x. dec s = Ok x) \<longleftrightarrow> s \<in> enc ` Collect printable"
  by (auto simp: dec_iff)

end

end
