(* ===== verification/Base58.thy ===== *)
theory Base58
  imports GoUtf8 Positional Codec
begin

text \<open>
  \<open>siws/base58.go\<close>: the base58 decoder and encoder. \<open>math/big\<close> integers are natural
  numbers; \<open>Bytes\<close> and \<open>SetBytes\<close> are the big-endian digits in base 256.
\<close>

section \<open>The alphabet and its index table\<close>

definition alphabet :: bytes where
  "alphabet = ''123456789ABCDEFGHJKLMNPQRSTUVWXYZabcdefghijkmnopqrstuvwxyz''"

definition maxBase58Len :: nat where
  "maxBase58Len = 128"

text \<open>\<open>init\<close> fills the table with -1 and then stores each letter's position.\<close>

definition alphabetIdx :: "int list" where
  "alphabetIdx =
     foldl (\<lambda>tab (i, r). tab[r := int i]) (replicate 128 (-1)) (enumerate 0 (runes alphabet))"

lemma length_alphabet [simp]: "length alphabet = 58"
  by (simp add: alphabet_def)

lemma alphabet_ascii: "\<forall>c \<in> set alphabet. (of_char c :: nat) < 128"
  by (simp add: alphabet_def)

lemma length_alphabetIdx [simp]: "length alphabetIdx = 128"
proof -
  have "length (foldl (\<lambda>tab (i, r). tab[r := int i]) t ps) = length t" for t ps
    by (induction ps arbitrary: t) auto
  then show ?thesis by (simp add: alphabetIdx_def)
qed

text \<open>The table as a literal: what \<open>init\<close> leaves in it.\<close>

lemma alphabetIdx_eq:
  "alphabetIdx = replicate 49 (-1) @ map int [0..<9] @ replicate 7 (-1) @ map int [9..<17] @ [-1]
     @ map int [17..<22] @ [-1] @ map int [22..<33] @ replicate 6 (-1) @ map int [33..<44] @ [-1]
     @ map int [44..<58] @ replicate 5 (-1)"
  by (simp add: alphabetIdx_def alphabet_def runes_all_ascii) code_simp

definition digit_of :: "byte \<Rightarrow> nat" where
  "digit_of c = nat (alphabetIdx ! of_char c)"

lemma alphabetIdx_alphabet_all:
  "list_all (\<lambda>i. alphabetIdx ! of_char (alphabet ! i) = int i) [0..<58]"
  unfolding alphabetIdx_eq alphabet_def by code_simp

lemma alphabet_alphabetIdx_all:
  "list_all (\<lambda>r. alphabetIdx ! r < 0 \<or>
      nat (alphabetIdx ! r) < 58 \<and> of_char (alphabet ! nat (alphabetIdx ! r)) = r) [0..<128]"
  unfolding alphabetIdx_eq alphabet_def by code_simp

lemma alphabetIdx_alphabet: "i < 58 \<Longrightarrow> alphabetIdx ! of_char (alphabet ! i) = int i"
  using alphabetIdx_alphabet_all by (simp add: list_all_iff)

lemma digit_of_alphabet [simp]: "i < 58 \<Longrightarrow> digit_of (alphabet ! i) = i"
  by (simp add: digit_of_def alphabetIdx_alphabet)

lemma alphabetIdx_hit:
  assumes "r < 128" and "0 \<le> alphabetIdx ! r"
  shows "nat (alphabetIdx ! r) < 58" and "of_char (alphabet ! nat (alphabetIdx ! r)) = r"
proof -
  have "alphabetIdx ! r < 0 \<or>
      nat (alphabetIdx ! r) < 58 \<and> of_char (alphabet ! nat (alphabetIdx ! r)) = r"
    using alphabet_alphabetIdx_all assms(1) unfolding list_all_iff by force
  then show "nat (alphabetIdx ! r) < 58" "of_char (alphabet ! nat (alphabetIdx ! r)) = r"
    using assms(2) by simp_all
qed

lemma in_alphabet_iff:
  "c \<in> set alphabet \<longleftrightarrow> (of_char c :: nat) < 128 \<and> 0 \<le> alphabetIdx ! of_char c"
proof
  assume "c \<in> set alphabet"
  then obtain i where "i < 58" "c = alphabet ! i" by (auto simp: in_set_conv_nth)
  then show "(of_char c :: nat) < 128 \<and> 0 \<le> alphabetIdx ! of_char c"
    using alphabet_ascii \<open>c \<in> set alphabet\<close> by (simp add: alphabetIdx_alphabet)
next
  assume "(of_char c :: nat) < 128 \<and> 0 \<le> alphabetIdx ! of_char c"
  then have "nat (alphabetIdx ! of_char c) < 58"
    and "(of_char (alphabet ! nat (alphabetIdx ! of_char c)) :: nat) = of_char c"
    using alphabetIdx_hit by blast+
  then show "c \<in> set alphabet"
    by (metis length_alphabet nth_mem of_char_eq_iff)
qed

lemma alphabet_digit_of [simp]: "c \<in> set alphabet \<Longrightarrow> alphabet ! digit_of c = c"
  by (metis digit_of_alphabet in_set_conv_nth length_alphabet)

lemma digit_of_less: "c \<in> set alphabet \<Longrightarrow> digit_of c < 58"
  by (metis digit_of_alphabet in_set_conv_nth length_alphabet)

lemma digit_of_0_iff: "c \<in> set alphabet \<Longrightarrow> digit_of c = 0 \<longleftrightarrow> c = CHR ''1''"
proof -
  have one: "alphabet ! 0 = CHR ''1''" by (simp add: alphabet_def)
  assume c: "c \<in> set alphabet"
  show ?thesis
  proof
    assume "digit_of c = 0"
    then show "c = CHR ''1''" using alphabet_digit_of [OF c] one by simp
  next
    assume "c = CHR ''1''"
    then show "digit_of c = 0" using digit_of_alphabet [of 0] one by simp
  qed
qed

section \<open>Decoding and encoding\<close>

definition big_Bytes :: "nat \<Rightarrow> bytes" where
  "big_Bytes n = map char_of (digits 256 n)"

definition big_SetBytes :: "bytes \<Rightarrow> nat" where
  "big_SetBytes b = value_of 256 (map of_char b)"

definition err_base58_long :: gerror where
  "err_base58_long = Errorf ''base58: input too long: %w'' [] [Sentinel SiwsErrMalformed]"

definition err_base58_char :: gerror where
  "err_base58_char = Errorf ''base58: invalid character: %w'' [] [Sentinel SiwsErrMalformed]"

fun decode_loop :: "nat list \<Rightarrow> nat \<Rightarrow> nat res" where
  "decode_loop [] n = Ok n"
| "decode_loop (r # rs) n =
     (if r > 127 then Err err_base58_char
      else bind_res (index alphabetIdx r) (\<lambda>i.
        if i < 0 then Err err_base58_char
        else decode_loop rs (n * 58 + nat i)))"

definition DecodeBase58 :: "bytes \<Rightarrow> bytes res" where
  "DecodeBase58 s =
     (if length s > maxBase58Len then Err err_base58_long
      else bind_res (decode_loop (runes s) 0) (\<lambda>n.
        let decoded = big_Bytes n;
            nLeadingZeros = length (takeWhile (\<lambda>r. r = of_char (CHR ''1'')) (runes s))
        in Ok (if nLeadingZeros > 0 then replicate nLeadingZeros (CHR 0x00) @ decoded
               else decoded)))"

fun encode_loop :: "nat \<Rightarrow> bytes \<Rightarrow> bytes" where
  "encode_loop n result =
     (if n > 0 then encode_loop (n div 58) (result @ [alphabet ! (n mod 58)]) else result)"

declare encode_loop.simps [simp del]

text \<open>The in-place reversal: two indices that walk towards each other and swap.\<close>

function reverse_loop :: "bytes \<Rightarrow> int \<Rightarrow> int \<Rightarrow> bytes" where
  "reverse_loop xs i j =
     (if i < j then reverse_loop (xs[nat i := xs ! nat j, nat j := xs ! nat i]) (i + 1) (j - 1)
      else xs)"
  by pat_completeness auto
termination
  by (relation "measure (\<lambda>(xs, i, j). nat (j - i))") auto

declare reverse_loop.simps [simp del]

definition EncodeBase58 :: "bytes \<Rightarrow> bytes" where
  "EncodeBase58 b =
     (let result = encode_loop (big_SetBytes b) []
                     @ replicate (length (takeWhile (\<lambda>c. c = CHR 0x00) b)) (CHR ''1'')
      in reverse_loop result 0 (int (length result) - 1))"

section \<open>The encoder as a change of base\<close>

lemma encode_loop_eq: "encode_loop n acc = acc @ rev (map ((!) alphabet) (digits 58 n))"
proof (induction n acc rule: encode_loop.induct)
  case (1 n acc)
  show ?case
  proof (cases "n = 0")
    case True
    then show ?thesis by (simp add: encode_loop.simps)
  next
    case False
    with 1 show ?thesis by (simp add: encode_loop.simps [of n acc] digits_step)
  qed
qed

lemma reverse_loop_nth:
  assumes "0 \<le> i" and "j < int (length xs)" and "k < length xs"
  shows "length (reverse_loop xs i j) = length xs \<and>
         reverse_loop xs i j ! k =
           (if i \<le> int k \<and> int k \<le> j then xs ! nat (i + j - int k) else xs ! k)"
  using assms
proof (induction xs i j rule: reverse_loop.induct)
  case (1 xs i j)
  show ?case
  proof (cases "i < j")
    case True
    let ?ys = "xs[nat i := xs ! nat j, nat j := xs ! nat i]"
    have IH: "length (reverse_loop ?ys (i + 1) (j - 1)) = length ?ys \<and>
         reverse_loop ?ys (i + 1) (j - 1) ! k =
           (if i + 1 \<le> int k \<and> int k \<le> j - 1 then ?ys ! nat (i + 1 + (j - 1) - int k)
            else ?ys ! k)"
      using "1.IH" [OF True] "1.prems" by simp
    consider "int k < i" | "int k = i" | "i < int k \<and> int k < j" | "int k = j" | "j < int k"
      by linarith
    then show ?thesis
      using IH True "1.prems" by cases (auto simp: reverse_loop.simps [of xs i j] nth_list_update)
  next
    case False
    have "k = nat (i + j - int k)" if "i \<le> int k" "int k \<le> j" using that False by linarith
    then show ?thesis using False by (auto simp: reverse_loop.simps [of xs i j])
  qed
qed

lemma reverse_loop_rev: "reverse_loop xs 0 (int (length xs) - 1) = rev xs"
proof (cases "xs = []")
  case False
  show ?thesis
  proof (rule nth_equalityI)
    show "length (reverse_loop xs 0 (int (length xs) - 1)) = length (rev xs)"
      using reverse_loop_nth [of 0 "int (length xs) - 1" xs 0] False by simp
    fix k assume "k < length (reverse_loop xs 0 (int (length xs) - 1))"
    then have k: "k < length xs"
      using reverse_loop_nth [of 0 "int (length xs) - 1" xs 0] False by simp
    moreover have "nat (0 + (int (length xs) - 1) - int k) = length xs - Suc k"
      using k by linarith
    ultimately show "reverse_loop xs 0 (int (length xs) - 1) ! k = rev xs ! k"
      using reverse_loop_nth [of 0 "int (length xs) - 1" xs k] by (simp add: rev_nth)
  qed
qed (simp add: reverse_loop.simps)

lemma EncodeBase58_eq:
  "EncodeBase58 b =
     replicate (length (takeWhile (\<lambda>c. c = CHR 0x00) b)) (CHR ''1'')
     @ map ((!) alphabet) (digits 58 (big_SetBytes b))"
  by (simp add: EncodeBase58_def Let_def reverse_loop_rev encode_loop_eq)

section \<open>The decoder as a change of base\<close>

lemma runes_non_ascii:
  "128 \<le> (of_char c :: nat) \<Longrightarrow> \<exists>r rs. runes (c # s) = r # rs \<and> 127 < r"
  using decode_rune_non_ascii [of c s] by (simp add: runes.simps)

lemma decode_loop_runes:
  "decode_loop (runes s) n =
     (if set s \<subseteq> set alphabet then Ok (value_from 58 n (map digit_of s))
      else Err err_base58_char)"
proof (induction s arbitrary: n)
  case (Cons c s)
  show ?case
  proof (cases "(of_char c :: nat) < 128")
    case True
    then show ?thesis
      using Cons.IH by (auto simp: digit_of_def [symmetric] in_alphabet_iff)
  next
    case False
    then obtain r rs where "runes (c # s) = r # rs" "127 < r"
      using runes_non_ascii by (metis not_less)
    moreover have "c \<notin> set alphabet" using False in_alphabet_iff by blast
    ultimately show ?thesis by simp
  qed
qed simp

lemma leading_ones_runes:
  assumes "set s \<subseteq> set alphabet"
  shows "length (takeWhile (\<lambda>r. r = of_char (CHR ''1'')) (runes s))
       = length (takeWhile (\<lambda>d. d = 0) (map digit_of s))"
  using assms
proof (induction s)
  case (Cons c s)
  have "(of_char c :: nat) = of_char (CHR ''1'') \<longleftrightarrow> digit_of c = 0"
    using Cons.prems by (simp add: digit_of_0_iff del: of_char_Char)
  moreover have "(of_char c :: nat) < 128"
    using Cons.prems in_alphabet_iff by simp
  ultimately show ?case using Cons by (simp del: of_char_Char)
qed simp

lemma DecodeBase58_eq:
  "DecodeBase58 s =
     (if length s > 128 then Err err_base58_long
      else if set s \<subseteq> set alphabet
      then Ok (replicate (length (takeWhile (\<lambda>d. d = 0) (map digit_of s))) (CHR 0x00)
               @ big_Bytes (value_of 58 (map digit_of s)))
      else Err err_base58_char)"
proof -
  have pad: "(if 0 < k then replicate k z @ d else d) = replicate k z @ d" for k z and d :: bytes
    by simp
  show ?thesis
    unfolding DecodeBase58_def maxBase58Len_def Let_def pad decode_loop_runes value_of_def
    by (cases "set s \<subseteq> set alphabet") (simp_all only: leading_ones_runes bind_res.simps if_True if_False)
qed

lemma DecodeBase58_no_panic: "DecodeBase58 s \<noteq> Panic"
  by (simp add: DecodeBase58_eq)

lemma DecodeBase58_Ok_alphabet: "DecodeBase58 s = Ok b \<Longrightarrow> set s \<subseteq> set alphabet"
  by (simp add: DecodeBase58_eq split: if_splits)

lemma DecodeBase58_Ok_length: "DecodeBase58 s = Ok b \<Longrightarrow> length s \<le> 128"
  by (simp add: DecodeBase58_eq split: if_splits)

lemma DecodeBase58_Err:
  "DecodeBase58 s = Err e \<Longrightarrow> e \<in> {err_base58_long, err_base58_char}"
  by (auto simp: DecodeBase58_eq split: if_splits)

section \<open>The round trips\<close>

lemma zero_bytes_prefix:
  "replicate (length (takeWhile (\<lambda>c. c = CHR 0x00) b)) (CHR 0x00)
     @ dropWhile (\<lambda>c. c = CHR 0x00) b = b"
  by (induction b) auto

lemma takeWhile_of_char:
  "length (takeWhile (\<lambda>d. d = (0::nat)) (map of_char b)) = length (takeWhile (\<lambda>c. c = CHR 0x00) b)"
proof (induction b)
  case (Cons c b)
  have "(of_char c = (0::nat)) = (c = CHR 0x00)"
    using of_char_eq_iff [of c "CHR 0x00", where 'a = nat] by simp
  with Cons show ?case by simp
qed simp

lemma dropWhile_of_char:
  "dropWhile (\<lambda>d. d = 0) (map of_char b) = map (of_char :: byte \<Rightarrow> nat) (dropWhile (\<lambda>c. c = CHR 0x00) b)"
proof (induction b)
  case (Cons c b)
  have "(of_char c = (0::nat)) = (c = CHR 0x00)"
    using of_char_eq_iff [of c "CHR 0x00", where 'a = nat] by simp
  with Cons show ?case by simp
qed simp

lemma big_Bytes_SetBytes: "big_Bytes (big_SetBytes b) = dropWhile (\<lambda>c. c = CHR 0x00) b"
proof -
  have "digits 256 (big_SetBytes b) = dropWhile (\<lambda>d. d = 0) (map of_char b)"
    unfolding big_SetBytes_def by (rule digits_value_of_strip) auto
  then show ?thesis by (simp add: big_Bytes_def dropWhile_of_char comp_def)
qed

lemma big_SetBytes_Bytes: "big_SetBytes (big_Bytes n) = n"
proof -
  have "map (of_char \<circ> char_of) (digits 256 n) = digits 256 n"
    by (rule map_idI) (use digits_less [of 256 _ n] in \<open>auto simp: of_char_of mod_less\<close>)
  then show ?thesis by (simp add: big_Bytes_def big_SetBytes_def value_of_digits)
qed

lemma digit_of_map_alphabet: "\<forall>d \<in> set ds. d < 58 \<Longrightarrow> map (digit_of \<circ> (!) alphabet) ds = ds"
  by (rule map_idI) simp

lemma digit_of_one [simp]: "digit_of (CHR ''1'') = 0"
proof -
  have "alphabet ! 0 = CHR ''1''" by (simp add: alphabet_def)
  then show ?thesis using digit_of_alphabet [of 0] by simp
qed

lemma one_in_alphabet [simp]: "CHR ''1'' \<in> set alphabet"
  by (simp add: alphabet_def)

lemma EncodeBase58_alphabet: "set (EncodeBase58 b) \<subseteq> set alphabet"
proof -
  have "alphabet ! d \<in> set alphabet" if "d \<in> set (digits 58 n)" for d n
    using digits_less [of 58 d n] that by simp
  then show ?thesis by (auto simp: EncodeBase58_eq)
qed

lemma map_digit_of_EncodeBase58:
  "map digit_of (EncodeBase58 b) =
     replicate (length (takeWhile (\<lambda>c. c = CHR 0x00) b)) 0 @ digits 58 (big_SetBytes b)"
  using digit_of_map_alphabet [of "digits 58 (big_SetBytes b)"] digits_less [of 58]
  by (simp add: EncodeBase58_eq)

lemma takeWhile_zeros_digits:
  assumes "2 \<le> B"
  shows "length (takeWhile (\<lambda>d. d = 0) (replicate k 0 @ digits B n)) = k"
proof -
  have "takeWhile (\<lambda>d. d = 0) (digits B n) = []"
  proof (cases "n = 0")
    case False
    then have "0 < hd (digits B n)" "digits B n \<noteq> []"
      using assms by (simp_all add: digits_hd digits_nonzero)
    then show ?thesis by (cases "digits B n") auto
  qed simp
  then show ?thesis by (simp add: takeWhile_replicate_append)
qed

lemma decode_encode:
  assumes "length (EncodeBase58 b) \<le> 128"
  shows "DecodeBase58 (EncodeBase58 b) = Ok b"
  using assms EncodeBase58_alphabet
  by (simp add: DecodeBase58_eq map_digit_of_EncodeBase58 takeWhile_zeros_digits
      value_of_leading_zeros value_of_digits big_Bytes_SetBytes zero_bytes_prefix)

lemma big_Bytes_no_leading_zero: "takeWhile (\<lambda>c. c = CHR 0x00) (big_Bytes n) = []"
proof -
  have "dropWhile (\<lambda>c. c = CHR 0x00) (big_Bytes n) = big_Bytes n"
    using big_Bytes_SetBytes [of "big_Bytes n"] by (simp add: big_SetBytes_Bytes)
  then show ?thesis
    by (metis append_self_conv2 takeWhile_dropWhile_id)
qed

lemma big_SetBytes_leading_zeros: "big_SetBytes (replicate k (CHR 0x00) @ b) = big_SetBytes b"
  by (simp add: big_SetBytes_def value_of_leading_zeros)

lemma encode_decode:
  assumes "DecodeBase58 s = Ok b"
  shows "EncodeBase58 b = s"
proof -
  let ?ds = "map digit_of s"
  let ?k = "length (takeWhile (\<lambda>d. d = 0) ?ds)"
  from assms have alpha: "set s \<subseteq> set alphabet"
    and b: "b = replicate ?k (CHR 0x00) @ big_Bytes (value_of 58 ?ds)"
    by (auto simp: DecodeBase58_eq split: if_splits)
  have zeros: "length (takeWhile (\<lambda>c. c = CHR 0x00) b) = ?k"
    by (subst b) (simp add: takeWhile_replicate_append big_Bytes_no_leading_zero)
  have "\<forall>d \<in> set ?ds. d < 58" using alpha digit_of_less by fastforce
  then have "digits 58 (big_SetBytes b) = dropWhile (\<lambda>d. d = 0) ?ds"
    by (auto simp: b big_SetBytes_leading_zeros big_SetBytes_Bytes intro!: digits_value_of_strip)
  then have "map digit_of (EncodeBase58 b) = ?ds"
    by (simp add: map_digit_of_EncodeBase58 zeros leading_zeros_split [of ?ds, symmetric])
  then have "map (\<lambda>c. alphabet ! digit_of c) (EncodeBase58 b) = map (\<lambda>c. alphabet ! digit_of c) s"
    by (metis (no_types, lifting) map_map comp_def map_eq_conv)
  moreover have "map (\<lambda>c. alphabet ! digit_of c) t = t" if "set t \<subseteq> set alphabet" for t
    using that by (intro map_idI) auto
  ultimately show ?thesis using alpha EncodeBase58_alphabet by metis
qed

text \<open>
  base58 as a codec: the strings it accepts are exactly the printed forms of at most 128
  characters.
\<close>

interpretation base58: canonical_codec EncodeBase58 DecodeBase58
    "\<lambda>b. length (EncodeBase58 b) \<le> 128"
  by unfold_locales
     (auto simp: decode_encode dest: encode_decode DecodeBase58_Ok_length)

section \<open>Lengths\<close>

lemma big_SetBytes_less: "big_SetBytes b < 256 ^ length (dropWhile (\<lambda>c. c = CHR 0x00) b)"
proof -
  let ?k = "length (takeWhile (\<lambda>c. c = CHR 0x00) b)"
  let ?r = "dropWhile (\<lambda>c. c = CHR 0x00) b"
  have "big_SetBytes b = big_SetBytes (replicate ?k (CHR 0x00) @ ?r)"
    by (simp only: zero_bytes_prefix)
  then have "big_SetBytes b = big_SetBytes ?r"
    by (simp only: big_SetBytes_leading_zeros)
  also have "\<dots> < 256 ^ length ?r"
    using value_of_less [of 256 "map of_char ?r"] by (simp add: big_SetBytes_def)
  finally show ?thesis .
qed

lemma EncodeBase58_length_32:
  assumes "length b \<le> 32"
  shows "length (EncodeBase58 b) \<le> 44"
proof -
  let ?z = "length (takeWhile (\<lambda>c. c = CHR 0x00) b)"
  let ?m = "length (dropWhile (\<lambda>c. c = CHR 0x00) b)"
  have m: "?z + ?m = length b" by (rule length_takeWhile_dropWhile)
  have "(256::nat) ^ ?m * 58 ^ ?z \<le> 256 ^ ?m * 256 ^ ?z"
    by (intro mult_le_mono2 power_mono) auto
  also have "\<dots> = 256 ^ length b"
    using m by (simp add: power_add [symmetric] add.commute)
  also have "\<dots> \<le> (256::nat) ^ 32"
    using assms by (intro power_increasing) auto
  also have "\<dots> \<le> 58 ^ 44" by simp
  also have "\<dots> = 58 ^ (44 - ?z) * 58 ^ ?z"
    using m assms by (simp add: power_add [symmetric])
  finally have "(256::nat) ^ ?m \<le> 58 ^ (44 - ?z)" by simp
  then have "big_SetBytes b < 58 ^ (44 - ?z)"
    using big_SetBytes_less [of b] by (rule order_less_le_trans [rotated])
  then have "length (digits 58 (big_SetBytes b)) \<le> 44 - ?z"
    by (intro length_digits_le) auto
  then show ?thesis using m assms by (simp add: EncodeBase58_eq)
qed

lemma DecodeBase58_length_le: "DecodeBase58 s = Ok b \<Longrightarrow> length b \<le> length s"
proof -
  assume ok: "DecodeBase58 s = Ok b"
  let ?ds = "map digit_of s"
  let ?k = "length (takeWhile (\<lambda>d. d = 0) ?ds)"
  let ?r = "dropWhile (\<lambda>d. d = 0) ?ds"
  from ok have alpha: "set s \<subseteq> set alphabet"
    and b: "b = replicate ?k (CHR 0x00) @ big_Bytes (value_of 58 ?ds)"
    by (auto simp: DecodeBase58_eq split: if_splits)
  have less: "\<forall>d \<in> set ?ds. d < 58" using alpha digit_of_less by fastforce
  have "value_of 58 ?ds = value_of 58 ?r"
    by (subst leading_zeros_split) (rule value_of_leading_zeros)
  also have "\<dots> < 58 ^ length ?r"
    using less by (intro value_of_less) (auto dest!: set_dropWhileD)
  also have "\<dots> \<le> 256 ^ length ?r" by (intro power_mono) auto
  finally have "length (digits 256 (value_of 58 ?ds)) \<le> length ?r"
    by (intro length_digits_le) auto
  moreover have "?k + length ?r = length s"
    using length_takeWhile_dropWhile [of "\<lambda>d. d = 0" ?ds] by simp
  ultimately show ?thesis by (simp add: b big_Bytes_def)
qed

lemma base58_key_address_length:
  assumes "DecodeBase58 s = Ok b" and "length b = 32"
  shows "32 \<le> length s \<and> length s \<le> 44"
  using DecodeBase58_length_le [OF assms(1)] EncodeBase58_length_32 [of b]
    encode_decode [OF assms(1)] assms(2)
  by auto

section \<open>Properties\<close>

text \<open>The value of a letter read off the alphabet itself, without the table.\<close>

definition alphabet_pos :: "byte \<Rightarrow> nat" where
  "alphabet_pos c = length (takeWhile (\<lambda>x. x \<noteq> c) alphabet)"

lemma alphabet_pos_all: "list_all (\<lambda>i. alphabet_pos (alphabet ! i) = i) [0..<58]"
  unfolding alphabet_pos_def alphabet_def by code_simp

lemma digit_of_alphabet_pos: "c \<in> set alphabet \<Longrightarrow> digit_of c = alphabet_pos c"
  using alphabet_pos_all by (auto simp: in_set_conv_nth list_all_iff)

lemma leading_ones_digits:
  "set s \<subseteq> set alphabet \<Longrightarrow>
     length (takeWhile (\<lambda>d. d = 0) (map alphabet_pos s)) = length (takeWhile (\<lambda>c. c = CHR ''1'') s)"
  by (induction s) (auto simp: digit_of_0_iff digit_of_alphabet_pos [symmetric])

lemma map_digit_of_pos: "set s \<subseteq> set alphabet \<Longrightarrow> map digit_of s = map alphabet_pos s"
  by (auto simp: digit_of_alphabet_pos)

text \<open>C23. Decoding is the exact inverse of encoding: \<open>DecodeBase58 s\<close> is \<open>b\<close> exactly when
  \<open>s\<close> is the encoding of \<open>b\<close> and fits the 128-character bound. So no two texts name one
  key, and every other text is refused.\<close>

theorem DecodeBase58_iff:
  "DecodeBase58 s = Ok b \<longleftrightarrow> EncodeBase58 b = s \<and> length s \<le> maxBase58Len"
  by (auto simp: base58.dec_iff maxBase58Len_def)

text \<open>C24. \<open>DecodeBase58\<close> computes the textbook conversion: one leading zero byte per leading
  \<open>'1'\<close>, then the base-256 digits of the base-58 value, each letter read by its position in
  the alphabet. A text over 128 bytes, or with a rune outside the alphabet, is refused with
  \<open>ErrMalformed\<close>, and the table lookup never panics.\<close>

theorem DecodeBase58_reference:
  "DecodeBase58 s =
     (if maxBase58Len < length s then Err err_base58_long
      else if \<not> set s \<subseteq> set alphabet then Err err_base58_char
      else Ok (replicate (length (takeWhile (\<lambda>c. c = CHR ''1'') s)) (CHR 0x00)
        @ map char_of (digits 256 (value_of 58 (map alphabet_pos s)))))"
proof (cases "set s \<subseteq> set alphabet")
  case True
  then show ?thesis
    unfolding DecodeBase58_eq map_digit_of_pos [OF True] leading_ones_digits [OF True]
    by (simp add: maxBase58Len_def big_Bytes_def)
qed (simp add: DecodeBase58_eq maxBase58Len_def)

text \<open>Every 32-byte key survives the trip through its address, which has 32 to 44
  characters, well under the decoder's bound.\<close>

theorem key_address_roundtrip:
  assumes "length k = 32"
  shows "DecodeBase58 (EncodeBase58 k) = Ok k \<and>
     32 \<le> length (EncodeBase58 k) \<and> length (EncodeBase58 k) \<le> 44"
  using assms EncodeBase58_length_32 [of k] decode_encode [of k]
    base58_key_address_length [of "EncodeBase58 k" k]
  by simp

theorem key_address_roundtrip_witness:
  "length (replicate 32 (CHR 0x07)) = 32 \<and>
     DecodeBase58 (EncodeBase58 (replicate 32 (CHR 0x07))) = Ok (replicate 32 (CHR 0x07))"
  using key_address_roundtrip [of "replicate 32 (CHR 0x07)"] by simp

end
