(* ===== verification/SiwsMessage.thy ===== *)
theory SiwsMessage
  imports GoTimeFormat Base58
begin

text \<open>
  \<open>siws/message.go\<close>: the parsed sign-in message and its canonical text, and the sentinel
  wrappers that \<open>siws\<close> builds its errors with (\<open>siws/errors.go\<close>).
\<close>

record Message =
  mDomain :: bytes
  mAddress :: bytes
  mStatement :: bytes
  mURI :: bytes
  mVersion :: bytes
  mChainID :: bytes
  mNonce :: bytes
  mIssuedAt :: instant
  mExpirationTime :: "instant option"
  mNotBefore :: "instant option"
  mRequestID :: bytes
  mResources :: "bytes list"

abbreviation nl :: byte where
  "nl \<equiv> CHR 0x0A"

abbreviation cr :: byte where
  "cr \<equiv> CHR 0x0D"

text \<open>\<open>fmt.Errorf("... %w", ErrMalformed)\<close> and its siblings.\<close>

definition siws_err :: "string \<Rightarrow> sentinel \<Rightarrow> gerror" where
  "siws_err f s = Errorf f [] [Sentinel s]"

lemma siws_err_Is [simp]: "errors_Is (siws_err f s) t \<longleftrightarrow> s = t"
  by (simp add: siws_err_def)

text \<open>\<open>String\<close> writes the builder's pieces in the order of the source.\<close>

definition optional_time :: "bytes \<Rightarrow> instant option \<Rightarrow> bytes" where
  "optional_time label t = (case t of None \<Rightarrow> [] | Some u \<Rightarrow> label @ format_timestamp u @ [nl])"

definition Message_String :: "Message \<Rightarrow> bytes" where
  "Message_String m =
     mDomain m @ '' wants you to sign in with your Solana account:'' @ [nl]
     @ mAddress m @ [nl]
     @ (if mStatement m \<noteq> [] then [nl] @ mStatement m @ [nl] else [])
     @ [nl]
     @ ''URI: '' @ mURI m @ [nl]
     @ ''Version: '' @ mVersion m @ [nl]
     @ ''Chain ID: '' @ mChainID m @ [nl]
     @ ''Nonce: '' @ mNonce m @ [nl]
     @ ''Issued At: '' @ format_timestamp (mIssuedAt m) @ [nl]
     @ optional_time ''Expiration Time: '' (mExpirationTime m)
     @ optional_time ''Not Before: '' (mNotBefore m)
     @ (if mRequestID m \<noteq> [] then ''Request ID: '' @ mRequestID m @ [nl] else [])
     @ (if length (mResources m) > 0
        then ''Resources:'' @ [nl] @ concat (map (\<lambda>r. ''- '' @ r @ [nl]) (mResources m))
        else [])"

end
