(* ===== verification/SiwsParse.thy ===== *)
theory SiwsParse
  imports SiwsMessage
begin

text \<open>
  \<open>siws/parse.go\<close>: the parser of sign-in messages. The parser keeps the lines and an
  index into them; every \<open>lines[pos]\<close> is a checked read that panics out of range.
\<close>

definition maxMessageBytes :: nat where
  "maxMessageBytes = 8192"

definition headerSuffix :: bytes where
  "headerSuffix = '' wants you to sign in with your Solana account:''"

definition malformed :: "string \<Rightarrow> 'a res" where
  "malformed f = Err (siws_err f SiwsErrMalformed)"

definition expectField :: "bytes list \<Rightarrow> nat \<Rightarrow> bytes \<Rightarrow> (bytes \<times> nat) res" where
  "expectField lines pos label =
     (if pos \<ge> length lines
      then Err (Errorf ''parse: missing field %q: %w'' [trim_suffix label '': '']
                  [Sentinel SiwsErrMalformed])
      else bind_res (index lines pos) (\<lambda>line.
        if \<not> has_prefix line label
        then Err (Errorf ''parse: expected field %q: %w'' [trim_suffix label '': '']
                    [Sentinel SiwsErrMalformed])
        else Ok (trim_prefix line label, pos + 1)))"

definition fieldLabels :: "bytes list" where
  "fieldLabels = [''URI: '', ''Version: '', ''Chain ID: '', ''Nonce: '', ''Issued At: '',
     ''Expiration Time: '', ''Not Before: '', ''Request ID: '', ''Resources:'']"

definition isFieldPrefix :: "bytes \<Rightarrow> bool" where
  "isFieldPrefix s = list_ex (has_prefix s) fieldLabels"

definition alnum_rune :: "nat \<Rightarrow> bool" where
  "alnum_rune r \<longleftrightarrow> of_char (CHR ''a'') \<le> r \<and> r \<le> of_char (CHR ''z'')
     \<or> of_char (CHR ''A'') \<le> r \<and> r \<le> of_char (CHR ''Z'')
     \<or> of_char (CHR ''0'') \<le> r \<and> r \<le> of_char (CHR ''9'')"

definition validNonce :: "bytes \<Rightarrow> bool" where
  "validNonce s = (if length s < 8 then False else list_all alnum_rune (runes s))"

fun first_layout :: "layout list \<Rightarrow> bytes \<Rightarrow> instant option" where
  "first_layout [] s = None"
| "first_layout (l # ls) s =
     (case time_Parse l s of Some t \<Rightarrow> Some t | None \<Rightarrow> first_layout ls s)"

definition parseTimestamp :: "bytes \<Rightarrow> instant option" where
  "parseTimestamp = first_layout [layout_ms_Z, layout_999_Z, RFC3339Nano, RFC3339]"

definition zero_message :: Message where
  "zero_message = \<lparr>mDomain = [], mAddress = [], mStatement = [], mURI = [], mVersion = [],
     mChainID = [], mNonce = [], mIssuedAt = date_instant 1 1 1 0 0 0 0,
     mExpirationTime = None, mNotBefore = None, mRequestID = [], mResources = []\<rparr>"

section \<open>The stages of the parser\<close>

text \<open>Line 0: the domain and the fixed header text.\<close>

definition parse_domain :: "bytes list \<Rightarrow> nat \<Rightarrow> Message \<Rightarrow> (Message \<times> nat) res" where
  "parse_domain lines pos m =
     bind_res (index lines pos) (\<lambda>line.
       if \<not> has_suffix line headerSuffix then malformed ''parse: invalid header line: %w''
       else let d = trim_suffix line headerSuffix in
         if d = [] then malformed ''parse: missing domain: %w''
         else Ok (m\<lparr>mDomain := d\<rparr>, pos + 1))"

text \<open>Line 1: the address, base58 of exactly 32 bytes.\<close>

definition parse_address :: "bytes list \<Rightarrow> nat \<Rightarrow> Message \<Rightarrow> (Message \<times> nat) res" where
  "parse_address lines pos m =
     bind_res (index lines pos) (\<lambda>addr.
       if addr = [] then malformed ''parse: missing address: %w''
       else (case DecodeBase58 addr of
           Panic \<Rightarrow> Panic
         | Err _ \<Rightarrow> malformed ''parse: invalid address encoding: %w''
         | Ok addrBytes \<Rightarrow>
             if length addrBytes \<noteq> 32
             then malformed ''parse: address must decode to 32 bytes: %w''
             else Ok (m\<lparr>mAddress := addr\<rparr>, pos + 1)))"

text \<open>Line 2: a blank line.\<close>

definition parse_blank :: "bytes list \<Rightarrow> nat \<Rightarrow> Message \<Rightarrow> (Message \<times> nat) res" where
  "parse_blank lines pos m =
     bind_res (index lines pos) (\<lambda>line.
       if line \<noteq> [] then malformed ''parse: expected blank line after address: %w''
       else Ok (m, pos + 1))"

text \<open>The optional statement and the blank line after it.\<close>

definition parse_statement :: "bytes list \<Rightarrow> nat \<Rightarrow> Message \<Rightarrow> (Message \<times> nat) res" where
  "parse_statement lines pos m =
     (if pos < length lines
      then bind_res (index lines pos) (\<lambda>line.
        if line \<noteq> [] \<and> \<not> isFieldPrefix line
        then (if pos + 1 \<ge> length lines
              then malformed ''parse: expected blank line after statement: %w''
              else bind_res (index lines (pos + 1)) (\<lambda>line'.
                if line' \<noteq> [] then malformed ''parse: expected blank line after statement: %w''
                else Ok (m\<lparr>mStatement := line\<rparr>, pos + 2)))
        else Ok (m, pos))
      else Ok (m, pos))"

definition parse_uri :: "bytes list \<Rightarrow> nat \<Rightarrow> Message \<Rightarrow> (Message \<times> nat) res" where
  "parse_uri lines pos m =
     bind_res (expectField lines pos ''URI: '') (\<lambda>(v, pos).
       if v = [] then malformed ''parse: empty URI: %w'' else Ok (m\<lparr>mURI := v\<rparr>, pos))"

definition parse_version :: "bytes list \<Rightarrow> nat \<Rightarrow> Message \<Rightarrow> (Message \<times> nat) res" where
  "parse_version lines pos m =
     bind_res (expectField lines pos ''Version: '') (\<lambda>(v, pos).
       if v \<noteq> ''1'' then malformed ''parse: unsupported version: %w''
       else Ok (m\<lparr>mVersion := v\<rparr>, pos))"

text \<open>The chain id is optional; absent or empty means mainnet.\<close>

definition parse_chain :: "bytes list \<Rightarrow> nat \<Rightarrow> Message \<Rightarrow> (Message \<times> nat) res" where
  "parse_chain lines pos m =
     bind_res
       (if pos < length lines
        then bind_res (index lines pos) (\<lambda>line.
          if has_prefix line ''Chain ID: ''
          then Ok (m\<lparr>mChainID := trim_prefix line ''Chain ID: ''\<rparr>, pos + 1)
          else Ok (m, pos))
        else Ok (m, pos))
       (\<lambda>(m, pos).
         if mChainID m = [] then Ok (m\<lparr>mChainID := ''mainnet''\<rparr>, pos) else Ok (m, pos))"

definition parse_nonce :: "bytes list \<Rightarrow> nat \<Rightarrow> Message \<Rightarrow> (Message \<times> nat) res" where
  "parse_nonce lines pos m =
     bind_res (expectField lines pos ''Nonce: '') (\<lambda>(v, pos).
       if \<not> validNonce v then malformed ''parse: invalid nonce: %w''
       else Ok (m\<lparr>mNonce := v\<rparr>, pos))"

definition parse_issued :: "bytes list \<Rightarrow> nat \<Rightarrow> Message \<Rightarrow> (Message \<times> nat) res" where
  "parse_issued lines pos m =
     bind_res (expectField lines pos ''Issued At: '') (\<lambda>(v, pos).
       case time_Parse RFC3339 v of
         Some t \<Rightarrow> Ok (m\<lparr>mIssuedAt := t\<rparr>, pos)
       | None \<Rightarrow>
           (case time_Parse layout_ms_zone v of
              Some t \<Rightarrow> Ok (m\<lparr>mIssuedAt := t\<rparr>, pos)
            | None \<Rightarrow> malformed ''parse: invalid Issued At: %w''))"

text \<open>The inner loop of the resources block.\<close>

function read_resources :: "bytes list \<Rightarrow> nat \<Rightarrow> bytes list \<Rightarrow> (bytes list \<times> nat) res" where
  "read_resources lines pos rs =
     (if pos < length lines
      then bind_res (index lines pos) (\<lambda>rline.
        if \<not> has_prefix rline ''- '' then Ok (rs, pos)
        else read_resources lines (pos + 1) (rs @ [trim_prefix rline ''- '']))
      else Ok (rs, pos))"
  by pat_completeness auto
termination
  by (relation "measure (\<lambda>(lines, pos, rs). length lines - pos)") auto

declare read_resources.simps [simp del]

lemma read_resources_ge: "read_resources lines pos rs = Ok (rs', pos') \<Longrightarrow> pos \<le> pos'"
proof (induction lines pos rs rule: read_resources.induct)
  case (1 lines pos rs)
  then show ?case
    by (subst (asm) (2) read_resources.simps) (auto simp: res_simps index_eq_Ok split: if_splits)
qed

text \<open>
  The optional fields, in strict order and each at most once: \<open>stage\<close> is the rank of the
  last field seen.
\<close>

function trailer_loop :: "bytes list \<Rightarrow> nat \<Rightarrow> nat \<Rightarrow> Message \<Rightarrow> Message res" where
  "trailer_loop lines pos stage m =
     (if pos < length lines
      then bind_res (index lines pos) (\<lambda>line.
        if has_prefix line ''Expiration Time: '' then
          (if stage \<ge> 1 then malformed ''parse: Expiration Time out of order or duplicated: %w''
           else (case parseTimestamp (trim_prefix line ''Expiration Time: '') of
               None \<Rightarrow> malformed ''parse: invalid Expiration Time: %w''
             | Some t \<Rightarrow> trailer_loop lines (pos + 1) 1 (m\<lparr>mExpirationTime := Some t\<rparr>)))
        else if has_prefix line ''Not Before: '' then
          (if stage \<ge> 2 then malformed ''parse: Not Before out of order or duplicated: %w''
           else (case parseTimestamp (trim_prefix line ''Not Before: '') of
               None \<Rightarrow> malformed ''parse: invalid Not Before: %w''
             | Some t \<Rightarrow> trailer_loop lines (pos + 1) 2 (m\<lparr>mNotBefore := Some t\<rparr>)))
        else if has_prefix line ''Request ID: '' then
          (if stage \<ge> 3 then malformed ''parse: Request ID out of order or duplicated: %w''
           else trailer_loop lines (pos + 1) 3 (m\<lparr>mRequestID := trim_prefix line ''Request ID: ''\<rparr>))
        else if line = ''Resources:'' then
          (if stage \<ge> 4 then malformed ''parse: Resources out of order or duplicated: %w''
           else bind_res (read_resources lines (pos + 1) (mResources m)) (\<lambda>(rs, pos').
             trailer_loop lines pos' 4 (m\<lparr>mResources := rs\<rparr>)))
        else malformed ''parse: unexpected line: %w'')
      else Ok m)"
  by pat_completeness auto
termination
  by (relation "measure (\<lambda>(lines, pos, stage, m). length lines - pos)")
     (auto dest: read_resources_ge)

declare trailer_loop.simps [simp del]

text \<open>\<open>ParseMessage\<close>: the checks on the whole input, then the stages in order.\<close>

definition parse_lines :: "bytes list \<Rightarrow> Message res" where
  "parse_lines lines =
     bind_res (parse_domain lines 0 zero_message) (\<lambda>(m, pos).
     bind_res (parse_address lines pos m) (\<lambda>(m, pos).
     bind_res (parse_blank lines pos m) (\<lambda>(m, pos).
     bind_res (parse_statement lines pos m) (\<lambda>(m, pos).
     bind_res (parse_uri lines pos m) (\<lambda>(m, pos).
     bind_res (parse_version lines pos m) (\<lambda>(m, pos).
     bind_res (parse_chain lines pos m) (\<lambda>(m, pos).
     bind_res (parse_nonce lines pos m) (\<lambda>(m, pos).
     bind_res (parse_issued lines pos m) (\<lambda>(m, pos).
       trailer_loop lines pos 0 m)))))))))"

definition ParseMessage :: "bytes \<Rightarrow> Message res" where
  "ParseMessage b =
     (if length b > maxMessageBytes then malformed ''parse: message too large: %w''
      else if cr \<in> set b then malformed ''parse: CRLF line endings not allowed: %w''
      else let lines = split_byte nl (trim_right_byte nl b) in
        if length lines < 6 then malformed ''parse: too few lines: %w''
        else parse_lines lines)"

end
