(* ===== verification/SiwsGrammar.thy ===== *)
theory SiwsGrammar
  imports SiwsParse
begin

text \<open>
  The language \<open>ParseMessage\<close> accepts, stated as a grammar, and the proof that the parser
  implements it: \<open>parse_lines_iff\<close> and \<open>ParseMessage_iff\<close>. The grammar is the abstract
  specification of the parser; the stages of the parser refine it one by one.
\<close>

section \<open>The grammar\<close>

text \<open>The texts of the fields of one message; \<open>None\<close> where an optional line is absent.\<close>

record parts =
  gDomain :: bytes
  gAddress :: bytes
  gStatement :: "bytes option"
  gURI :: bytes
  gChain :: "bytes option"
  gNonce :: bytes
  gIssued :: bytes
  gExpiration :: "bytes option"
  gNotBefore :: "bytes option"
  gRequestID :: "bytes option"
  gResources :: "bytes list option"

definition opt_line :: "bytes \<Rightarrow> bytes option \<Rightarrow> bytes list" where
  "opt_line label v = (case v of None \<Rightarrow> [] | Some s \<Rightarrow> [label @ s])"

definition statement_lines :: "bytes option \<Rightarrow> bytes list" where
  "statement_lines v = (case v of None \<Rightarrow> [] | Some s \<Rightarrow> [s, []])"

definition item_line :: "bytes \<Rightarrow> bytes" where
  "item_line r = ''- '' @ r"

definition resource_lines :: "bytes list option \<Rightarrow> bytes list" where
  "resource_lines v = (case v of None \<Rightarrow> [] | Some rs \<Rightarrow> ''Resources:'' # map item_line rs)"

definition trailer_lines ::
  "bytes option \<Rightarrow> bytes option \<Rightarrow> bytes option \<Rightarrow> bytes list option \<Rightarrow> bytes list" where
  "trailer_lines e n r rs =
     opt_line ''Expiration Time: '' e @ opt_line ''Not Before: '' n
     @ opt_line ''Request ID: '' r @ resource_lines rs"

definition grammar_lines :: "parts \<Rightarrow> bytes list" where
  "grammar_lines g =
     [gDomain g @ headerSuffix, gAddress g, []]
     @ statement_lines (gStatement g)
     @ [''URI: '' @ gURI g, ''Version: 1'']
     @ opt_line ''Chain ID: '' (gChain g)
     @ [''Nonce: '' @ gNonce g, ''Issued At: '' @ gIssued g]
     @ trailer_lines (gExpiration g) (gNotBefore g) (gRequestID g) (gResources g)"

definition solana_address :: "bytes \<Rightarrow> bool" where
  "solana_address a = (case DecodeBase58 a of Ok k \<Rightarrow> length k = 32 | _ \<Rightarrow> False)"

definition statement_ok :: "bytes \<Rightarrow> bool" where
  "statement_ok s \<longleftrightarrow> s \<noteq> [] \<and> \<not> isFieldPrefix s"

definition issued_time :: "bytes \<Rightarrow> instant option" where
  "issued_time s = first_layout [RFC3339, layout_ms_zone] s"

definition opt_ok :: "('a \<Rightarrow> bool) \<Rightarrow> 'a option \<Rightarrow> bool" where
  "opt_ok P v = (case v of None \<Rightarrow> True | Some x \<Rightarrow> P x)"

definition wf_parts :: "parts \<Rightarrow> bool" where
  "wf_parts g \<longleftrightarrow>
     gDomain g \<noteq> [] \<and> solana_address (gAddress g) \<and> opt_ok statement_ok (gStatement g)
     \<and> gURI g \<noteq> [] \<and> validNonce (gNonce g) \<and> issued_time (gIssued g) \<noteq> None
     \<and> opt_ok (\<lambda>s. parseTimestamp s \<noteq> None) (gExpiration g)
     \<and> opt_ok (\<lambda>s. parseTimestamp s \<noteq> None) (gNotBefore g)"

definition chain_of :: "bytes option \<Rightarrow> bytes" where
  "chain_of v = (case v of None \<Rightarrow> ''mainnet'' | Some c \<Rightarrow> if c = [] then ''mainnet'' else c)"

definition text_of :: "bytes option \<Rightarrow> bytes" where
  "text_of v = (case v of None \<Rightarrow> [] | Some s \<Rightarrow> s)"

definition message_of :: "parts \<Rightarrow> Message" where
  "message_of g =
     \<lparr>mDomain = gDomain g, mAddress = gAddress g, mStatement = text_of (gStatement g),
      mURI = gURI g, mVersion = ''1'', mChainID = chain_of (gChain g), mNonce = gNonce g,
      mIssuedAt = the (issued_time (gIssued g)),
      mExpirationTime = Option.bind (gExpiration g) parseTimestamp,
      mNotBefore = Option.bind (gNotBefore g) parseTimestamp,
      mRequestID = text_of (gRequestID g),
      mResources = (case gResources g of None \<Rightarrow> [] | Some rs \<Rightarrow> rs)\<rparr>"

section \<open>Consuming lines\<close>

primrec consume :: "'a list \<Rightarrow> nat \<Rightarrow> 'a list \<Rightarrow> nat \<Rightarrow> bool" where
  "consume ls pos [] r \<longleftrightarrow> r = pos"
| "consume ls pos (x # xs) r \<longleftrightarrow> pos < length ls \<and> ls ! pos = x \<and> consume ls (Suc pos) xs r"

lemma consume_append:
  "consume ls pos (xs @ ys) r \<longleftrightarrow> (\<exists>q. consume ls pos xs q \<and> consume ls q ys r)"
  by (induction xs arbitrary: pos) auto

lemma consume_appI: "consume ls pos xs q \<Longrightarrow> consume ls q ys r \<Longrightarrow> consume ls pos (xs @ ys) r"
  by (auto simp: consume_append)

lemma consume_drop:
  "consume ls pos xs r \<Longrightarrow> drop pos ls = xs @ drop r ls \<and> r = pos + length xs"
proof (induction xs arbitrary: pos)
  case (Cons x xs)
  then show ?case using Cons.IH [of "Suc pos"] Cons_nth_drop_Suc [of pos ls] by simp
qed simp

lemma consume_self: "consume (ys @ xs) (length ys) xs (length ys + length xs)"
proof (induction xs arbitrary: ys)
  case (Cons x xs)
  from Cons.IH [of "ys @ [x]"] show ?case by (simp add: nth_append)
qed simp

lemma consume_all: "consume ls 0 xs (length ls) \<longleftrightarrow> ls = xs"
  using consume_drop [of ls 0 xs "length ls"] consume_self [of "[]" ls] by auto

lemma index_bind_Ok:
  "bind_res (index ls pos) f = Ok y \<longleftrightarrow> pos < length ls \<and> f (ls ! pos) = Ok y"
  by (auto simp: index_def)

lemma malformed_not_Ok [simp]: "malformed f \<noteq> Ok x" "malformed f \<noteq> Panic"
  by (simp_all add: malformed_def)

text \<open>A line with a known label, as the label and the rest of the line.\<close>

lemma prefix_line_iff:
  "has_prefix l p \<and> Q (trim_prefix l p) \<longleftrightarrow> (\<exists>v. l = p @ v \<and> Q v)"
  by (auto simp: has_prefix_iff)

section \<open>Each stage refines its part of the grammar\<close>

lemma expectField_Ok:
  "expectField ls pos p = Ok (v, pos') \<longleftrightarrow> consume ls pos [p @ v] pos'"
  using has_prefix_split [of "ls ! pos" p]
  by (auto simp: expectField_def index_bind_Ok)

lemma parse_domain_Ok:
  "parse_domain ls pos m = Ok (m', pos') \<longleftrightarrow>
     (\<exists>d. d \<noteq> [] \<and> consume ls pos [d @ headerSuffix] pos' \<and> m' = m\<lparr>mDomain := d\<rparr>)"
  using has_suffix_split [of "ls ! pos" headerSuffix]
  by (auto simp: parse_domain_def index_bind_Ok Let_def)

lemma parse_address_Ok:
  "parse_address ls pos m = Ok (m', pos') \<longleftrightarrow>
     (\<exists>a. solana_address a \<and> consume ls pos [a] pos' \<and> m' = m\<lparr>mAddress := a\<rparr>)"
proof -
  have "DecodeBase58 [] = Ok []" by (simp add: DecodeBase58_eq big_Bytes_def)
  then show ?thesis
    by (auto simp: parse_address_def index_bind_Ok solana_address_def split: res.splits)
qed

lemma parse_blank_Ok:
  "parse_blank ls pos m = Ok (m', pos') \<longleftrightarrow> consume ls pos [[]] pos' \<and> m' = m"
  by (auto simp: parse_blank_def index_bind_Ok)

text \<open>
  An optional part is followed by something that cannot be mistaken for it: the lookahead
  of the statement and of the chain id.
\<close>

lemma parse_statement_Ok:
  "parse_statement ls pos m = Ok (m', pos') \<longleftrightarrow>
     (\<exists>s. statement_ok s \<and> consume ls pos [s, []] pos' \<and> m' = m\<lparr>mStatement := s\<rparr>)
     \<or> (pos < length ls \<longrightarrow> \<not> statement_ok (ls ! pos)) \<and> m' = m \<and> pos' = pos"
  by (auto simp: parse_statement_def index_bind_Ok statement_ok_def)

lemma parse_uri_Ok:
  "parse_uri ls pos m = Ok (m', pos') \<longleftrightarrow>
     (\<exists>v. v \<noteq> [] \<and> consume ls pos [''URI: '' @ v] pos' \<and> m' = m\<lparr>mURI := v\<rparr>)"
  by (auto simp: parse_uri_def res_simps expectField_Ok split: if_splits)

lemma parse_version_Ok:
  "parse_version ls pos m = Ok (m', pos') \<longleftrightarrow>
     consume ls pos [''Version: 1''] pos' \<and> m' = m\<lparr>mVersion := ''1''\<rparr>"
  by (auto simp: parse_version_def res_simps expectField_Ok split: if_splits)

lemma parse_nonce_Ok:
  "parse_nonce ls pos m = Ok (m', pos') \<longleftrightarrow>
     (\<exists>v. validNonce v \<and> consume ls pos [''Nonce: '' @ v] pos' \<and> m' = m\<lparr>mNonce := v\<rparr>)"
  by (auto simp: parse_nonce_def res_simps expectField_Ok split: if_splits)

lemma parse_issued_eq:
  "parse_issued ls pos m =
     bind_res (expectField ls pos ''Issued At: '') (\<lambda>(v, pos).
       case issued_time v of
         Some t \<Rightarrow> Ok (m\<lparr>mIssuedAt := t\<rparr>, pos)
       | None \<Rightarrow> malformed ''parse: invalid Issued At: %w'')"
  unfolding parse_issued_def
  by (intro arg_cong2 [where f = bind_res] refl ext)
     (auto simp: issued_time_def split: option.split)

lemma parse_issued_Ok:
  "parse_issued ls pos m = Ok (m', pos') \<longleftrightarrow>
     (\<exists>v t. issued_time v = Some t \<and> consume ls pos [''Issued At: '' @ v] pos'
        \<and> m' = m\<lparr>mIssuedAt := t\<rparr>)"
  unfolding parse_issued_eq
  by (fastforce simp: res_simps expectField_Ok split: option.splits)

text \<open>The chain id: the line may be absent, and an absent or empty value means mainnet.\<close>

lemma parse_chain_Ok:
  assumes "mChainID m = []"
  shows "parse_chain ls pos m = Ok (m', pos') \<longleftrightarrow>
     (\<exists>v. consume ls pos (opt_line ''Chain ID: '' v) pos' \<and> m' = m\<lparr>mChainID := chain_of v\<rparr>
        \<and> (v = None \<longrightarrow> pos < length ls \<longrightarrow> \<not> has_prefix (ls ! pos) ''Chain ID: ''))"
    (is "?L \<longleftrightarrow> ?R")
proof (cases "pos < length ls \<and> has_prefix (ls ! pos) ''Chain ID: ''")
  case True
  then obtain c where c: "ls ! pos = ''Chain ID: '' @ c" and pos: "pos < length ls"
    by (auto simp: has_prefix_iff)
  have "?L \<longleftrightarrow> m' = m\<lparr>mChainID := chain_of (Some c)\<rparr> \<and> pos' = Suc pos"
    using pos unfolding parse_chain_def c by (auto simp: c chain_of_def)
  moreover have "?R \<longleftrightarrow> m' = m\<lparr>mChainID := chain_of (Some c)\<rparr> \<and> pos' = Suc pos"
    using pos c by (auto simp: opt_line_def split: option.splits intro: exI [of _ "Some c"])
  ultimately show ?thesis by blast
next
  case False
  then have "?L \<longleftrightarrow> m' = m\<lparr>mChainID := chain_of None\<rparr> \<and> pos' = pos"
    using assms by (auto simp: parse_chain_def chain_of_def)
  moreover have "?R \<longleftrightarrow> m' = m\<lparr>mChainID := chain_of None\<rparr> \<and> pos' = pos"
    using False by (auto simp: opt_line_def split: option.splits intro: exI [of _ None])
  ultimately show ?thesis by blast
qed

section \<open>The trailer\<close>

lemma item_line_simps [simp]:
  "has_prefix (item_line r) ''- ''" "trim_prefix (item_line r) ''- '' = r"
  by (simp_all add: item_line_def)

lemma item_line_split: "has_prefix l ''- '' \<Longrightarrow> l = item_line (trim_prefix l ''- '')"
  unfolding item_line_def by (rule has_prefix_split)

lemma read_resources_step:
  "pos < length ls \<Longrightarrow> read_resources ls pos rs =
     (if has_prefix (ls ! pos) ''- ''
      then read_resources ls (Suc pos) (rs @ [trim_prefix (ls ! pos) ''- ''])
      else Ok (rs, pos))"
  by (subst read_resources.simps) simp

lemma read_resources_end: "length ls \<le> pos \<Longrightarrow> read_resources ls pos rs = Ok (rs, pos)"
  by (subst read_resources.simps) simp

lemma read_resources_sound:
  "read_resources ls pos rs = Ok (rs', pos') \<Longrightarrow>
     \<exists>items. rs' = rs @ items \<and> consume ls pos (map item_line items) pos'"
proof (induction ls pos rs rule: read_resources.induct)
  case (1 ls pos rs)
  show ?case
  proof (cases "pos < length ls \<and> has_prefix (ls ! pos) ''- ''")
    case True
    let ?v = "trim_prefix (ls ! pos) ''- ''"
    from True have "ls ! pos = item_line ?v" by (intro item_line_split) blast
    moreover have "read_resources ls (pos + 1) (rs @ [?v]) = Ok (rs', pos')"
      using "1.prems" True by (simp add: read_resources_step)
    from "1.IH" [OF _ _ _ this] True obtain items where "rs' = (rs @ [?v]) @ items"
      and "consume ls (Suc pos) (map item_line items) pos'" by auto
    ultimately show ?thesis using True by (intro exI [of _ "?v # items"]) simp
  next
    case False
    then have "rs' = rs \<and> pos' = pos"
      using "1.prems" by (cases "pos < length ls") (auto simp: read_resources_step read_resources_end)
    then show ?thesis by simp
  qed
qed

lemma read_resources_complete:
  "consume ls pos (map item_line items) (length ls) \<Longrightarrow>
     read_resources ls pos rs = Ok (rs @ items, length ls)"
  by (induction items arbitrary: pos rs) (auto simp: read_resources_step read_resources_end)

text \<open>One step of the outer loop, line by line.\<close>

lemma trailer_end: "length ls \<le> pos \<Longrightarrow> trailer_loop ls pos stage m = Ok m"
  by (subst trailer_loop.simps) simp

lemma trailer_after_resources:
  "trailer_loop ls pos 4 m = Ok m' \<longleftrightarrow> length ls \<le> pos \<and> m' = m"
  by (subst trailer_loop.simps) auto

lemma trailer_expiration:
  "pos < length ls \<Longrightarrow> ls ! pos = ''Expiration Time: '' @ v \<Longrightarrow> stage < 1 \<Longrightarrow>
     parseTimestamp v = Some t \<Longrightarrow>
     trailer_loop ls pos stage m = trailer_loop ls (Suc pos) 1 (m\<lparr>mExpirationTime := Some t\<rparr>)"
  by (subst trailer_loop.simps) simp

lemma trailer_not_before:
  "pos < length ls \<Longrightarrow> ls ! pos = ''Not Before: '' @ v \<Longrightarrow> stage < 2 \<Longrightarrow>
     parseTimestamp v = Some t \<Longrightarrow>
     trailer_loop ls pos stage m = trailer_loop ls (Suc pos) 2 (m\<lparr>mNotBefore := Some t\<rparr>)"
  by (subst trailer_loop.simps) simp

lemma trailer_request_id:
  "pos < length ls \<Longrightarrow> ls ! pos = ''Request ID: '' @ v \<Longrightarrow> stage < 3 \<Longrightarrow>
     trailer_loop ls pos stage m = trailer_loop ls (Suc pos) 3 (m\<lparr>mRequestID := v\<rparr>)"
  by (subst trailer_loop.simps) simp

lemma trailer_resources:
  "pos < length ls \<Longrightarrow> ls ! pos = ''Resources:'' \<Longrightarrow> stage < 4 \<Longrightarrow>
     trailer_loop ls pos stage m =
       bind_res (read_resources ls (Suc pos) (mResources m)) (\<lambda>(rs, pos').
         trailer_loop ls pos' 4 (m\<lparr>mResources := rs\<rparr>))"
  by (subst trailer_loop.simps) simp

text \<open>Every accepting run of the loop reads one of the four kinds of line first.\<close>

lemma trailer_cases:
  assumes "trailer_loop ls pos stage m = Ok m'" and "pos < length ls"
  obtains
    (expiration) v t where "stage < 1" "ls ! pos = ''Expiration Time: '' @ v"
      "parseTimestamp v = Some t"
      "trailer_loop ls (Suc pos) 1 (m\<lparr>mExpirationTime := Some t\<rparr>) = Ok m'"
  | (not_before) v t where "stage < 2" "ls ! pos = ''Not Before: '' @ v"
      "parseTimestamp v = Some t"
      "trailer_loop ls (Suc pos) 2 (m\<lparr>mNotBefore := Some t\<rparr>) = Ok m'"
  | (request_id) v where "stage < 3" "ls ! pos = ''Request ID: '' @ v"
      "trailer_loop ls (Suc pos) 3 (m\<lparr>mRequestID := v\<rparr>) = Ok m'"
  | (resources) items where "stage < 4" "ls ! pos = ''Resources:''"
      "consume ls (Suc pos) (map item_line items) (length ls)"
      "m' = m\<lparr>mResources := mResources m @ items\<rparr>"
proof -
  let ?l = "ls ! pos"
  note run = assms(1) [unfolded trailer_loop.simps [of ls pos stage m]]
  consider (e) "has_prefix ?l ''Expiration Time: ''" | (n) "has_prefix ?l ''Not Before: ''"
    | (r) "has_prefix ?l ''Request ID: ''" | (s) "?l = ''Resources:''"
    using run assms(2) by (auto split: if_splits)
  then show thesis
  proof cases
    case e
    then show ?thesis using run assms(2) expiration has_prefix_split [OF e]
      by (auto split: if_splits option.splits)
  next
    case n
    then have "\<not> has_prefix ?l ''Expiration Time: ''" by (auto simp: has_prefix_iff)
    then show ?thesis using n run assms(2) not_before has_prefix_split [OF n]
      by (auto split: if_splits option.splits)
  next
    case r
    then have "\<not> has_prefix ?l ''Expiration Time: ''" "\<not> has_prefix ?l ''Not Before: ''"
      by (auto simp: has_prefix_iff)
    then show ?thesis using r run assms(2) request_id has_prefix_split [OF r]
      by (auto split: if_splits)
  next
    case s
    then have st: "stage < 4"
      using run assms(2) by (auto split: if_splits)
    then obtain rs pos' where rr: "read_resources ls (Suc pos) (mResources m) = Ok (rs, pos')"
      and fin: "trailer_loop ls pos' 4 (m\<lparr>mResources := rs\<rparr>) = Ok m'"
      using assms s by (auto simp: trailer_resources res_simps)
    from read_resources_sound [OF rr] obtain items where
      items: "rs = mResources m @ items" "consume ls (Suc pos) (map item_line items) pos'"
      by blast
    from fin have "length ls \<le> pos'" "m' = m\<lparr>mResources := rs\<rparr>"
      by (simp_all add: trailer_after_resources)
    moreover have "pos' \<le> length ls"
      using consume_drop [OF items(2)] assms(2) by (cases "items = []") (auto dest!: arg_cong [where f = length])
    ultimately show ?thesis using resources st s items by (metis le_antisym)
  qed
qed

text \<open>What a well-formed trailer does to the message parsed so far.\<close>

definition set_trailer ::
  "bytes option \<Rightarrow> bytes option \<Rightarrow> bytes option \<Rightarrow> bytes list option \<Rightarrow> Message \<Rightarrow> Message" where
  "set_trailer e n r rs m = m\<lparr>
     mExpirationTime := (case e of None \<Rightarrow> mExpirationTime m | Some s \<Rightarrow> parseTimestamp s),
     mNotBefore := (case n of None \<Rightarrow> mNotBefore m | Some s \<Rightarrow> parseTimestamp s),
     mRequestID := (case r of None \<Rightarrow> mRequestID m | Some s \<Rightarrow> s),
     mResources := (case rs of None \<Rightarrow> mResources m | Some l \<Rightarrow> mResources m @ l)\<rparr>"

abbreviation timestamp_ok :: "bytes option \<Rightarrow> bool" where
  "timestamp_ok \<equiv> opt_ok (\<lambda>s. parseTimestamp s \<noteq> None)"

definition trailer_ok ::
  "nat \<Rightarrow> bytes option \<Rightarrow> bytes option \<Rightarrow> bytes option \<Rightarrow> bytes list option \<Rightarrow> bool" where
  "trailer_ok stage e n r rs \<longleftrightarrow> timestamp_ok e \<and> timestamp_ok n
     \<and> (stage \<ge> 1 \<longrightarrow> e = None) \<and> (stage \<ge> 2 \<longrightarrow> n = None)
     \<and> (stage \<ge> 3 \<longrightarrow> r = None) \<and> (stage \<ge> 4 \<longrightarrow> rs = None)"

lemma set_trailer_simps:
  "set_trailer None None None None m = m"
  "set_trailer None None None (Some l) m = m\<lparr>mResources := mResources m @ l\<rparr>"
  "set_trailer None None (Some s) rs m = set_trailer None None None rs (m\<lparr>mRequestID := s\<rparr>)"
  "set_trailer None (Some s) r rs m
     = set_trailer None None r rs (m\<lparr>mNotBefore := parseTimestamp s\<rparr>)"
  "set_trailer (Some s) n r rs m
     = set_trailer None n r rs (m\<lparr>mExpirationTime := parseTimestamp s\<rparr>)"
  by (simp_all add: set_trailer_def split: option.split)

lemmas trailer_defs = trailer_ok_def set_trailer_simps trailer_lines_def opt_line_def
  resource_lines_def opt_ok_def

lemma consume_opt_line:
  "consume ls pos (opt_line p v @ xs) r \<longleftrightarrow>
     (case v of None \<Rightarrow> consume ls pos xs r
      | Some s \<Rightarrow> pos < length ls \<and> ls ! pos = p @ s \<and> consume ls (Suc pos) xs r)"
  by (simp add: opt_line_def split: option.split)

lemma trailer_sound:
  "trailer_loop ls pos stage m = Ok m' \<Longrightarrow> pos \<le> length ls \<Longrightarrow>
     \<exists>e n r rs. trailer_ok stage e n r rs \<and> m' = set_trailer e n r rs m
       \<and> consume ls pos (trailer_lines e n r rs) (length ls)"
proof (induction "length ls - pos" arbitrary: pos stage m rule: less_induct)
  case less
  show ?case
  proof (cases "pos < length ls")
    case False
    then have "trailer_ok stage None None None None" "m' = set_trailer None None None None m"
      "consume ls pos (trailer_lines None None None None) (length ls)"
      using less.prems by (auto simp: trailer_end trailer_defs)
    then show ?thesis by blast
  next
    case True
    then have step: "length ls - Suc pos < length ls - pos" "Suc pos \<le> length ls" by auto
    from less.prems(1) True show ?thesis
    proof (cases rule: trailer_cases)
      case (expiration v t)
      from less.hyps [OF step(1) expiration(4) step(2)] obtain e n r rs where
        "trailer_ok 1 e n r rs" "m' = set_trailer e n r rs (m\<lparr>mExpirationTime := Some t\<rparr>)"
        "consume ls (Suc pos) (trailer_lines e n r rs) (length ls)" by blast
      then have "trailer_ok stage (Some v) n r rs" "m' = set_trailer (Some v) n r rs m"
        "consume ls pos (trailer_lines (Some v) n r rs) (length ls)"
        using expiration(1-3) True by (auto simp: trailer_defs)
      then show ?thesis by blast
    next
      case (not_before v t)
      from less.hyps [OF step(1) not_before(4) step(2)] obtain e n r rs where
        "trailer_ok 2 e n r rs" "m' = set_trailer e n r rs (m\<lparr>mNotBefore := Some t\<rparr>)"
        "consume ls (Suc pos) (trailer_lines e n r rs) (length ls)" by blast
      then have "trailer_ok stage None (Some v) r rs" "m' = set_trailer None (Some v) r rs m"
        "consume ls pos (trailer_lines None (Some v) r rs) (length ls)"
        using not_before(1-3) True by (auto simp: trailer_defs)
      then show ?thesis by blast
    next
      case (request_id v)
      from less.hyps [OF step(1) request_id(3) step(2)] obtain e n r rs where
        "trailer_ok 3 e n r rs" "m' = set_trailer e n r rs (m\<lparr>mRequestID := v\<rparr>)"
        "consume ls (Suc pos) (trailer_lines e n r rs) (length ls)" by blast
      then have "trailer_ok stage None None (Some v) rs" "m' = set_trailer None None (Some v) rs m"
        "consume ls pos (trailer_lines None None (Some v) rs) (length ls)"
        using request_id(1,2) True by (auto simp: trailer_defs)
      then show ?thesis by blast
    next
      case (resources items)
      then have "trailer_ok stage None None None (Some items)"
        "m' = set_trailer None None None (Some items) m"
        "consume ls pos (trailer_lines None None None (Some items)) (length ls)"
        using True by (auto simp: trailer_defs)
      then show ?thesis by blast
    qed
  qed
qed

text \<open>Conversely, from the last optional part to the first.\<close>

lemma complete_resources:
  assumes "consume ls pos (resource_lines rs) (length ls)" and "rs = None \<or> stage < 4"
  shows "trailer_loop ls pos stage m = Ok (set_trailer None None None rs m)"
  using assms
  by (cases rs)
     (auto simp: trailer_defs trailer_end trailer_resources read_resources_complete)

lemma complete_request_id:
  assumes "consume ls pos (opt_line ''Request ID: '' r @ resource_lines rs) (length ls)"
    and "r = None \<or> stage < 3" and "rs = None \<or> stage < 4"
  shows "trailer_loop ls pos stage m = Ok (set_trailer None None r rs m)"
proof (cases r)
  case None
  then show ?thesis using assms complete_resources by (simp add: consume_opt_line)
next
  case (Some v)
  then have "pos < length ls" "ls ! pos = ''Request ID: '' @ v"
    and "consume ls (Suc pos) (resource_lines rs) (length ls)"
    using assms(1) by (simp_all add: consume_opt_line)
  then show ?thesis
    using assms(2) Some complete_resources [of ls "Suc pos" rs 3]
    by (simp add: trailer_request_id [of pos ls v] set_trailer_simps)
qed

lemma complete_not_before:
  assumes "consume ls pos (opt_line ''Not Before: '' n @ opt_line ''Request ID: '' r
      @ resource_lines rs) (length ls)"
    and "n = None \<or> stage < 2" and "r = None \<or> stage < 3" and "rs = None \<or> stage < 4"
    and "timestamp_ok n"
  shows "trailer_loop ls pos stage m = Ok (set_trailer None n r rs m)"
proof (cases n)
  case None
  with assms(1) have "consume ls pos (opt_line ''Request ID: '' r @ resource_lines rs) (length ls)"
    by (simp add: opt_line_def)
  from complete_request_id [OF this assms(3,4)] None show ?thesis by simp
next
  case (Some v)
  then obtain t where t: "parseTimestamp v = Some t" using assms(5) by (auto simp: opt_ok_def)
  from Some assms(1) have "pos < length ls" "ls ! pos = ''Not Before: '' @ v"
    and "consume ls (Suc pos) (opt_line ''Request ID: '' r @ resource_lines rs) (length ls)"
    by (simp_all add: consume_opt_line)
  then show ?thesis
    using assms(2) Some t complete_request_id [of ls "Suc pos" r rs 2]
    by (simp add: trailer_not_before [of pos ls v] set_trailer_simps)
qed

lemma complete_trailer:
  assumes "consume ls pos (trailer_lines e n r rs) (length ls)" and "trailer_ok stage e n r rs"
  shows "trailer_loop ls pos stage m = Ok (set_trailer e n r rs m)"
proof (cases e)
  case None
  with assms(1) have "consume ls pos (opt_line ''Not Before: '' n @ opt_line ''Request ID: '' r
      @ resource_lines rs) (length ls)"
    by (simp add: trailer_lines_def opt_line_def)
  moreover have "n = None \<or> stage < 2" "r = None \<or> stage < 3" "rs = None \<or> stage < 4"
    "timestamp_ok n" using assms(2) by (auto simp: trailer_ok_def not_le)
  ultimately show ?thesis using complete_not_before None by blast
next
  case (Some v)
  then obtain t where t: "parseTimestamp v = Some t"
    using assms(2) by (auto simp: opt_ok_def trailer_ok_def)
  from Some assms(1) have "pos < length ls" "ls ! pos = ''Expiration Time: '' @ v"
    and "consume ls (Suc pos) (opt_line ''Not Before: '' n @ opt_line ''Request ID: '' r
      @ resource_lines rs) (length ls)"
    by (simp_all add: trailer_lines_def consume_opt_line)
  then show ?thesis
    using assms(2) Some t complete_not_before [of ls "Suc pos" n r rs 1]
    by (simp add: trailer_expiration [of pos ls v] set_trailer_simps trailer_ok_def)
qed

lemma trailer_loop_iff:
  assumes "pos \<le> length ls"
  shows "trailer_loop ls pos stage m = Ok m' \<longleftrightarrow>
     (\<exists>e n r rs. trailer_ok stage e n r rs \<and> m' = set_trailer e n r rs m
        \<and> consume ls pos (trailer_lines e n r rs) (length ls))"
  using assms trailer_sound complete_trailer by blast

section \<open>The parser implements the grammar\<close>

lemma grammar_lines_stages:
  "grammar_lines g = [gDomain g @ headerSuffix] @ [gAddress g] @ [[]]
     @ statement_lines (gStatement g) @ [''URI: '' @ gURI g] @ [''Version: 1'']
     @ opt_line ''Chain ID: '' (gChain g) @ [''Nonce: '' @ gNonce g] @ [''Issued At: '' @ gIssued g]
     @ trailer_lines (gExpiration g) (gNotBefore g) (gRequestID g) (gResources g)"
  by (simp add: grammar_lines_def)

lemma parse_lines_sound:
  assumes "parse_lines ls = Ok m"
  shows "\<exists>g. wf_parts g \<and> ls = grammar_lines g \<and> m = message_of g"
proof -
  from assms obtain m1 p1 m2 p2 m3 p3 m4 p4 m5 p5 m6 p6 m7 p7 m8 p8 m9 p9 where
    s1: "parse_domain ls 0 zero_message = Ok (m1, p1)" and s2: "parse_address ls p1 m1 = Ok (m2, p2)"
    and s3: "parse_blank ls p2 m2 = Ok (m3, p3)" and s4: "parse_statement ls p3 m3 = Ok (m4, p4)"
    and s5: "parse_uri ls p4 m4 = Ok (m5, p5)" and s6: "parse_version ls p5 m5 = Ok (m6, p6)"
    and s7: "parse_chain ls p6 m6 = Ok (m7, p7)" and s8: "parse_nonce ls p7 m7 = Ok (m8, p8)"
    and s9: "parse_issued ls p8 m8 = Ok (m9, p9)" and s10: "trailer_loop ls p9 0 m9 = Ok m"
    by (auto simp: parse_lines_def res_simps)
  from s1 obtain d where d: "d \<noteq> []" "consume ls 0 [d @ headerSuffix] p1"
    and m1: "m1 = zero_message\<lparr>mDomain := d\<rparr>" by (auto simp: parse_domain_Ok)
  from s2 obtain a where a: "solana_address a" "consume ls p1 [a] p2"
    and m2: "m2 = m1\<lparr>mAddress := a\<rparr>" by (auto simp: parse_address_Ok)
  from s3 have b: "consume ls p2 [[]] p3" and m3: "m3 = m2" by (simp_all add: parse_blank_Ok)
  have st0: "mStatement m3 = []" by (simp add: m3 m2 m1 zero_message_def)
  from s4 obtain st where st: "opt_ok statement_ok st" "consume ls p3 (statement_lines st) p4"
    and m4: "m4 = m3\<lparr>mStatement := text_of st\<rparr>"
  proof (rule parse_statement_Ok [THEN iffD1, THEN disjE], goal_cases)
    case 1
    then show ?case using that [of "Some _"]
      by (auto simp: opt_ok_def statement_lines_def text_of_def)
  next
    case 2
    then show ?case using that [of None] st0
      by (simp add: opt_ok_def statement_lines_def text_of_def)
  qed
  from s5 obtain u where u: "u \<noteq> []" "consume ls p4 [''URI: '' @ u] p5"
    and m5: "m5 = m4\<lparr>mURI := u\<rparr>" unfolding parse_uri_Ok by blast
  from s6 have v: "consume ls p5 [''Version: 1''] p6" and m6: "m6 = m5\<lparr>mVersion := ''1''\<rparr>"
    unfolding parse_version_Ok by blast+
  have "mChainID m6 = []" by (simp add: m6 m5 m4 m3 m2 m1 zero_message_def)
  from s7 [unfolded parse_chain_Ok [OF this]] obtain c where
    c: "consume ls p6 (opt_line ''Chain ID: '' c) p7" and m7: "m7 = m6\<lparr>mChainID := chain_of c\<rparr>"
    by blast
  from s8 obtain n where n: "validNonce n" "consume ls p7 [''Nonce: '' @ n] p8"
    and m8: "m8 = m7\<lparr>mNonce := n\<rparr>" unfolding parse_nonce_Ok by blast
  from s9 obtain i t where i: "issued_time i = Some t" "consume ls p8 [''Issued At: '' @ i] p9"
    and m9: "m9 = m8\<lparr>mIssuedAt := t\<rparr>" unfolding parse_issued_Ok by blast
  have "p9 \<le> length ls" using i(2) by auto
  from s10 [unfolded trailer_loop_iff [OF this]] obtain e nb r rs where
    tr: "trailer_ok 0 e nb r rs" "m = set_trailer e nb r rs m9"
    "consume ls p9 (trailer_lines e nb r rs) (length ls)" by blast
  define g where "g = \<lparr>gDomain = d, gAddress = a, gStatement = st, gURI = u, gChain = c,
    gNonce = n, gIssued = i, gExpiration = e, gNotBefore = nb, gRequestID = r, gResources = rs\<rparr>"
  have "wf_parts g" using d a st u n i tr(1) by (simp add: wf_parts_def g_def trailer_ok_def)
  moreover have "consume ls 0 (grammar_lines g) (length ls)"
    unfolding grammar_lines_stages g_def parts.select_convs
    by (fact | rule consume_appI)+
  moreover have "m = message_of g"
    using i(1) unfolding tr(2) m9 m8 m7 m6 m5 m4 m3 m2 m1 g_def message_of_def set_trailer_def
      zero_message_def
    by (simp add: text_of_def split: option.split)
  ultimately show ?thesis unfolding consume_all by blast
qed

text \<open>The lookahead of an absent optional line is settled by the line that follows.\<close>

lemma label_not_statement: "\<not> statement_ok (''URI: '' @ v)"
  by (simp add: statement_ok_def isFieldPrefix_def fieldLabels_def)

lemma parse_lines_complete:
  assumes wf: "wf_parts g" and ls: "ls = grammar_lines g"
  shows "parse_lines ls = Ok (message_of g)"
proof -
  have "consume ls 0 (grammar_lines g) (length ls)" by (simp only: consume_all ls)
  then obtain p1 p2 p3 p4 p5 p6 p7 p8 p9 where
    c1: "consume ls 0 [gDomain g @ headerSuffix] p1" and c2: "consume ls p1 [gAddress g] p2"
    and c3: "consume ls p2 [[]] p3" and c4: "consume ls p3 (statement_lines (gStatement g)) p4"
    and c5: "consume ls p4 [''URI: '' @ gURI g] p5" and c6: "consume ls p5 [''Version: 1''] p6"
    and c7: "consume ls p6 (opt_line ''Chain ID: '' (gChain g)) p7"
    and c8: "consume ls p7 [''Nonce: '' @ gNonce g] p8"
    and c9: "consume ls p8 [''Issued At: '' @ gIssued g] p9"
    and c10: "consume ls p9
      (trailer_lines (gExpiration g) (gNotBefore g) (gRequestID g) (gResources g)) (length ls)"
    unfolding grammar_lines_stages consume_append by blast
  define m1 where "m1 = zero_message\<lparr>mDomain := gDomain g\<rparr>"
  define m2 where "m2 = m1\<lparr>mAddress := gAddress g\<rparr>"
  define m4 where "m4 = m2\<lparr>mStatement := text_of (gStatement g)\<rparr>"
  define m5 where "m5 = m4\<lparr>mURI := gURI g\<rparr>"
  define m6 where "m6 = m5\<lparr>mVersion := ''1''\<rparr>"
  define m7 where "m7 = m6\<lparr>mChainID := chain_of (gChain g)\<rparr>"
  define m8 where "m8 = m7\<lparr>mNonce := gNonce g\<rparr>"
  define m9 where "m9 = m8\<lparr>mIssuedAt := the (issued_time (gIssued g))\<rparr>"
  note ms = m1_def m2_def m4_def m5_def m6_def m7_def m8_def m9_def
  note wfs = wf [unfolded wf_parts_def]
  have "parse_domain ls 0 zero_message = Ok (m1, p1)"
    unfolding parse_domain_Ok m1_def using c1 wfs by blast
  moreover have "parse_address ls p1 m1 = Ok (m2, p2)"
    unfolding parse_address_Ok m2_def using c2 wfs by blast
  moreover have "parse_blank ls p2 m2 = Ok (m2, p3)"
    unfolding parse_blank_Ok using c3 by blast
  moreover have "parse_statement ls p3 m2 = Ok (m4, p4)"
  proof (cases "gStatement g")
    case None
    then have "p4 = p3" "m4 = m2" using c4
      by (simp_all add: statement_lines_def m4_def text_of_def m2_def m1_def zero_message_def)
    moreover have "\<not> statement_ok (ls ! p3)"
      using c5 None label_not_statement \<open>p4 = p3\<close> by simp
    ultimately show ?thesis unfolding parse_statement_Ok by blast
  next
    case (Some s)
    then show ?thesis using c4 wfs unfolding parse_statement_Ok
      by (simp add: statement_lines_def m4_def text_of_def opt_ok_def)
  qed
  moreover have "parse_uri ls p4 m4 = Ok (m5, p5)"
    unfolding parse_uri_Ok m5_def using c5 wfs by blast
  moreover have "parse_version ls p5 m5 = Ok (m6, p6)"
    unfolding parse_version_Ok m6_def using c6 by blast
  moreover have "mChainID m6 = []" by (simp add: ms zero_message_def)
  then have "parse_chain ls p6 m6 = Ok (m7, p7)"
    unfolding m7_def using c7 c8 by (subst parse_chain_Ok) (auto simp: opt_line_def)
  moreover have "parse_nonce ls p7 m7 = Ok (m8, p8)"
    unfolding parse_nonce_Ok m8_def using c8 wfs by blast
  moreover have "parse_issued ls p8 m8 = Ok (m9, p9)"
    unfolding parse_issued_Ok m9_def using c9 wfs by force
  moreover have "trailer_ok 0 (gExpiration g) (gNotBefore g) (gRequestID g) (gResources g)"
    using wfs by (simp add: trailer_ok_def)
  from complete_trailer [OF c10 this] have "trailer_loop ls p9 0 m9 = Ok (message_of g)"
    by (auto simp: ms set_trailer_def message_of_def zero_message_def text_of_def
        split: option.splits)
  ultimately show ?thesis by (simp add: parse_lines_def)
qed

lemma parse_lines_iff:
  "parse_lines ls = Ok m \<longleftrightarrow> (\<exists>g. wf_parts g \<and> ls = grammar_lines g \<and> m = message_of g)"
  using parse_lines_sound parse_lines_complete by blast

lemma grammar_lines_length: "length (grammar_lines g) \<ge> 6"
  by (simp add: grammar_lines_def)

lemma ParseMessage_accepts:
  "ParseMessage b = Ok m \<longleftrightarrow>
     length b \<le> maxMessageBytes \<and> cr \<notin> set b
     \<and> (\<exists>g. wf_parts g \<and> split_byte nl (trim_right_byte nl b) = grammar_lines g
            \<and> m = message_of g)"
  using grammar_lines_length
  by (auto simp: ParseMessage_def Let_def parse_lines_iff)
     (metis leD)+

end
