(* ===== verification/SiwsRoundtrip.thy ===== *)
theory SiwsRoundtrip
  imports SiwsGrammar
begin

text \<open>
  \<open>Message.String\<close> against \<open>ParseMessage\<close>: the canonical text of a well-formed message
  parses back to the same message, and what the parser accepts is well-formed. Further what
  the parser does with every input: it never panics, each error is \<open>ErrMalformed\<close>, and no
  error carries text of the message.
\<close>

section \<open>The canonical text as lines\<close>

definition unlines :: "bytes list \<Rightarrow> bytes" where
  "unlines ls = concat (map (\<lambda>l. l @ [nl]) ls)"

lemma unlines_simps [simp]:
  "unlines [] = []" "unlines (l # ls) = l @ [nl] @ unlines ls"
  "unlines (ls @ ls') = unlines ls @ unlines ls'"
  by (simp_all add: unlines_def)

lemma unlines_join: "ls \<noteq> [] \<Longrightarrow> unlines ls = join_byte nl ls @ [nl]"
  by (induction nl ls rule: join_byte.induct) simp_all

lemma join_byte_last:
  "ls \<noteq> [] \<Longrightarrow> last ls \<noteq> [] \<Longrightarrow>
     join_byte c ls \<noteq> [] \<and> last (join_byte c ls) = last (last ls)"
  by (induction c ls rule: join_byte.induct) auto

lemma split_unlines:
  assumes "ls \<noteq> []" "last ls \<noteq> []" and no_nl: "\<forall>l \<in> set ls. nl \<notin> set l"
  shows "split_byte nl (trim_right_byte nl (unlines ls)) = ls"
proof -
  have "last (last ls) \<noteq> nl" using assms last_in_set [of ls] last_in_set [of "last ls"] by metis
  with join_byte_last [OF assms(1,2), of nl]
  have "trim_right_byte nl (join_byte nl ls) = join_byte nl ls"
    by (intro trim_right_byte_last) auto
  then show ?thesis
    using unlines_join [OF assms(1)] split_byte_join [OF assms(1) no_nl] by simp
qed

definition parts_of :: "Message \<Rightarrow> parts" where
  "parts_of m =
     \<lparr>gDomain = mDomain m, gAddress = mAddress m,
      gStatement = (if mStatement m = [] then None else Some (mStatement m)),
      gURI = mURI m, gChain = Some (mChainID m), gNonce = mNonce m,
      gIssued = format_timestamp (mIssuedAt m),
      gExpiration = map_option format_timestamp (mExpirationTime m),
      gNotBefore = map_option format_timestamp (mNotBefore m),
      gRequestID = (if mRequestID m = [] then None else Some (mRequestID m)),
      gResources = (if mResources m = [] then None else Some (mResources m))\<rparr>"

lemma unlines_items:
  "unlines (map item_line rs) = concat (map (\<lambda>r. ''- '' @ r @ [nl]) rs)"
  by (induction rs) (simp_all add: item_line_def)

lemma unlines_opt_line:
  "unlines (opt_line p v) = (case v of None \<Rightarrow> [] | Some s \<Rightarrow> p @ s @ [nl])"
  by (simp add: opt_line_def split: option.split)

lemma Message_String_lines:
  assumes "mVersion m = ''1''"
  shows "Message_String m = unlines (grammar_lines (parts_of m))"
proof -
  have "unlines (opt_line p (map_option format_timestamp t)) = optional_time p t" for p t
    by (simp add: unlines_opt_line optional_time_def split: option.split)
  then show ?thesis
    unfolding Message_String_def grammar_lines_def trailer_lines_def
    by (simp add: assms parts_of_def statement_lines_def resource_lines_def unlines_items
        unlines_opt_line headerSuffix_def)
qed

section \<open>Characters of a timestamp\<close>

definition stamp_char :: "byte \<Rightarrow> bool" where
  "stamp_char c \<longleftrightarrow> is_digit c \<or> c \<in> set ''-T:.Z''"

lemma append_int_chars: "c \<in> set (append_int x w) \<Longrightarrow> stamp_char c"
proof -
  let ?ds = "digits 10 (nat \<bar>x\<bar>)"
  have "is_digit c" if "c \<in> set (map digit_char ?ds)"
    using that digits_less [of 10 _ "nat \<bar>x\<bar>"] by auto
  moreover have "is_digit (CHR ''0'')" by (simp add: is_digit_def)
  moreover assume "c \<in> set (append_int x w)"
  then have "c = CHR ''-'' \<or> c = CHR ''0'' \<or> c \<in> set (map digit_char ?ds)"
    by (simp only: append_int_def Let_def set_append) (auto split: if_splits)
  ultimately show ?thesis by (auto simp: stamp_char_def)
qed

lemma format_timestamp_chars:
  "c \<in> set (format_timestamp t) \<Longrightarrow> stamp_char c"
proof -
  have lits: "stamp_char (CHR ''-'')" "stamp_char (CHR ''T'')" "stamp_char (CHR '':'')"
    "stamp_char (CHR ''.'')" "stamp_char (CHR ''Z'')" by (simp_all add: stamp_char_def)
  assume "c \<in> set (format_timestamp t)"
  then show ?thesis
    by (auto simp: format_timestamp_def Let_def lits split: prod.splits dest!: append_int_chars)
qed

lemma format_timestamp_no_break [simp]:
  "nl \<notin> set (format_timestamp t)" "cr \<notin> set (format_timestamp t)"
  using format_timestamp_chars [of nl t] format_timestamp_chars [of cr t]
  by (auto simp: stamp_char_def is_digit_def)

section \<open>The round trip\<close>

text \<open>
  A message the wire format can hold: what the parser would demand of each field, no line
  break inside a field, and timestamps that the layout of \<open>String\<close> keeps.
\<close>

definition one_line :: "bytes \<Rightarrow> bool" where
  "one_line s \<longleftrightarrow> nl \<notin> set s \<and> cr \<notin> set s"

definition wf_fields :: "Message \<Rightarrow> bool" where
  "wf_fields m \<longleftrightarrow>
     mDomain m \<noteq> [] \<and> one_line (mDomain m)
     \<and> solana_address (mAddress m)
     \<and> (mStatement m \<noteq> [] \<longrightarrow> statement_ok (mStatement m)) \<and> one_line (mStatement m)
     \<and> mURI m \<noteq> [] \<and> one_line (mURI m)
     \<and> mVersion m = ''1''
     \<and> mChainID m \<noteq> [] \<and> one_line (mChainID m)
     \<and> validNonce (mNonce m)
     \<and> one_line (mRequestID m) \<and> list_all one_line (mResources m)"

definition canonical_times :: "Message \<Rightarrow> bool" where
  "canonical_times m \<longleftrightarrow> canonical_ts (mIssuedAt m)
     \<and> opt_ok canonical_ts (mExpirationTime m) \<and> opt_ok canonical_ts (mNotBefore m)"

lemma solana_address_one_line: "solana_address a \<Longrightarrow> one_line a"
proof -
  assume "solana_address a"
  then obtain k where "DecodeBase58 a = Ok k" by (auto simp: solana_address_def split: res.splits)
  from DecodeBase58_Ok_alphabet [OF this] show ?thesis
    by (auto simp: one_line_def alphabet_def)
qed

lemma first_layout_RFC3339:
  "canonical_ts t \<Longrightarrow> first_layout (RFC3339 # ls) (format_timestamp t) = Some t"
  using parse_format_timestamp [of t RFC3339] by simp

lemma parse_canonical:
  assumes "canonical_ts t"
  shows "issued_time (format_timestamp t) = Some t" "parseTimestamp (format_timestamp t) = Some t"
  using assms parse_format_timestamp [of t RFC3339] parse_format_timestamp [of t layout_ms_Z]
  by (simp_all add: issued_time_def parseTimestamp_def)

lemma parse_optional:
  assumes "opt_ok canonical_ts v"
  shows "timestamp_ok (map_option format_timestamp v)"
    and "Option.bind (map_option format_timestamp v) parseTimestamp = v"
  using assms by (cases v; simp add: opt_ok_def parse_canonical)+

lemma wf_parts_of:
  assumes "wf_fields m" and "canonical_times m"
  shows "wf_parts (parts_of m)" and "message_of (parts_of m) = m"
  using assms parse_optional parse_canonical
  by (simp_all add: wf_parts_def parts_of_def wf_fields_def canonical_times_def opt_ok_def
      message_of_def text_of_def chain_of_def split: option.splits)

lemma validNonce_iff:
  "validNonce s \<longleftrightarrow> 8 \<le> length s \<and> list_all (\<lambda>c. alnum_rune (of_char c)) s"
proof -
  have "alnum_rune r \<Longrightarrow> r < 128" for r by (auto simp: alnum_rune_def)
  then show ?thesis by (simp add: validNonce_def list_all_runes not_less)
qed

lemma validNonce_one_line: "validNonce s \<Longrightarrow> one_line s"
  by (auto simp: validNonce_iff one_line_def list_all_iff alnum_rune_def)

text \<open>The lines of a well-formed message have no line break in them.\<close>

lemma one_line_append [simp]: "one_line (s @ t) \<longleftrightarrow> one_line s \<and> one_line t"
  by (auto simp: one_line_def)

lemma one_line_literals [simp]:
  "one_line []" "one_line (c # s) \<longleftrightarrow> c \<noteq> nl \<and> c \<noteq> cr \<and> one_line s"
  by (auto simp: one_line_def)

lemma one_line_timestamp [simp]: "one_line (format_timestamp t)"
  by (simp add: one_line_def)

lemma one_line_opt_line:
  "list_all one_line (opt_line p v) \<longleftrightarrow> (case v of None \<Rightarrow> True | Some s \<Rightarrow> one_line p \<and> one_line s)"
  by (simp add: opt_line_def split: option.split)

lemma one_line_items: "list_all one_line (map item_line rs) \<longleftrightarrow> list_all one_line rs"
  by (induction rs) (simp_all add: item_line_def)

lemma grammar_lines_of_message:
  assumes "wf_fields m"
  shows "list_all one_line (grammar_lines (parts_of m))"
  using assms validNonce_one_line [of "mNonce m"] solana_address_one_line [of "mAddress m"]
  unfolding grammar_lines_def trailer_lines_def wf_fields_def
  by (auto simp: parts_of_def one_line_opt_line statement_lines_def resource_lines_def
      one_line_items headerSuffix_def split: option.splits)

lemma grammar_lines_last: "last (grammar_lines g) \<noteq> []"
proof -
  let ?tail = "(''Issued At: '' @ gIssued g)
    # trailer_lines (gExpiration g) (gNotBefore g) (gRequestID g) (gResources g)"
  have "last ?tail \<in> set ?tail" by (rule last_in_set) simp
  moreover have "[] \<notin> set ?tail"
    by (auto simp: trailer_lines_def opt_line_def resource_lines_def item_line_def
        split: option.splits)
  moreover have "last (grammar_lines g) = last ?tail" by (simp add: grammar_lines_def)
  ultimately show ?thesis by metis
qed

lemma ParseMessage_String:
  assumes wf: "wf_fields m" "canonical_times m"
    and size: "length (Message_String m) \<le> maxMessageBytes"
  shows "ParseMessage (Message_String m) = Ok m"
proof -
  let ?ls = "grammar_lines (parts_of m)"
  have "mVersion m = ''1''" using wf by (simp add: wf_fields_def)
  note str = Message_String_lines [OF this]
  have "list_all one_line ?ls" by (rule grammar_lines_of_message [OF wf(1)])
  then have "\<forall>l \<in> set ?ls. nl \<notin> set l" and "cr \<notin> set (unlines ?ls)"
    by (auto simp: list_all_iff one_line_def unlines_def)
  moreover from this(1) have "split_byte nl (trim_right_byte nl (unlines ?ls)) = ?ls"
    by (intro split_unlines grammar_lines_last) (simp_all add: grammar_lines_def)
  ultimately show ?thesis
    using size wf_parts_of [OF wf] unfolding str ParseMessage_accepts by metis
qed

section \<open>What the parser accepts is well-formed\<close>

lemma concat_lines_subset:
  "l \<in> set (split_byte nl (trim_right_byte nl b)) \<Longrightarrow> set l \<subseteq> set b"
  using split_byte_subset set_trim_right_byte by fast

lemma list_all_one_line_split:
  assumes "cr \<notin> set b"
  shows "list_all one_line (split_byte nl (trim_right_byte nl b))"
  using assms concat_lines_subset split_byte_pieces
  by (fastforce simp: list_all_iff one_line_def)

lemma wf_message_of:
  assumes "wf_parts g" and "list_all one_line (grammar_lines g)"
  shows "wf_fields (message_of g)"
  using assms
  by (auto simp: wf_fields_def wf_parts_def message_of_def grammar_lines_def trailer_lines_def
      one_line_opt_line statement_lines_def resource_lines_def one_line_items text_of_def
      chain_of_def opt_ok_def statement_ok_def split: option.splits)

lemma ParseMessage_wf: "ParseMessage b = Ok m \<Longrightarrow> wf_fields m"
  using list_all_one_line_split wf_message_of unfolding ParseMessage_accepts by metis

text \<open>
  The messages the format can hold, as a subset of the texts, are a round trip of their own:
  \<open>String\<close> and \<open>ParseMessage\<close> satisfy the interface \<open>codec\<close>.
\<close>

definition printable :: "Message \<Rightarrow> bool" where
  "printable m \<longleftrightarrow> wf_fields m \<and> canonical_times m
     \<and> length (Message_String m) \<le> maxMessageBytes"

interpretation message_text: codec Message_String ParseMessage printable
  by unfold_locales (auto simp: printable_def ParseMessage_String)

section \<open>Failures\<close>

text \<open>
  A clean outcome: no panic, and an error is \<open>ErrMalformed\<close> whose text is made of the
  parser's own formats and field labels only.
\<close>

definition field_names :: "string set" where
  "field_names = {''URI'', ''Version'', ''Nonce'', ''Issued At''}"

definition parse_formats :: "string set" where
  "parse_formats = {
     ''parse: CRLF line endings not allowed: %w'',
     ''parse: Expiration Time out of order or duplicated: %w'',
     ''parse: Not Before out of order or duplicated: %w'',
     ''parse: Request ID out of order or duplicated: %w'',
     ''parse: Resources out of order or duplicated: %w'',
     ''parse: address must decode to 32 bytes: %w'',
     ''parse: empty URI: %w'',
     ''parse: expected blank line after address: %w'',
     ''parse: expected blank line after statement: %w'',
     ''parse: expected field %q: %w'',
     ''parse: invalid Expiration Time: %w'',
     ''parse: invalid Issued At: %w'',
     ''parse: invalid Not Before: %w'',
     ''parse: invalid address encoding: %w'',
     ''parse: invalid header line: %w'',
     ''parse: invalid nonce: %w'',
     ''parse: message too large: %w'',
     ''parse: missing address: %w'',
     ''parse: missing domain: %w'',
     ''parse: missing field %q: %w'',
     ''parse: too few lines: %w'',
     ''parse: unexpected line: %w'',
     ''parse: unsupported version: %w''}"

fun clean :: "'a res \<Rightarrow> bool" where
  "clean (Ok x) \<longleftrightarrow> True"
| "clean (Err e) \<longleftrightarrow> (\<forall>s. errors_Is e s \<longleftrightarrow> s = SiwsErrMalformed) \<and> err_args e \<subseteq> field_names
     \<and> err_formats e \<subseteq> parse_formats"
| "clean Panic \<longleftrightarrow> False"

lemma clean_malformed [simp]: "clean (malformed f) \<longleftrightarrow> f \<in> parse_formats"
  by (auto simp: malformed_def siws_err_def)

lemma clean_bind [intro]:
  "clean r \<Longrightarrow> (\<And>x. r = Ok x \<Longrightarrow> clean (f x)) \<Longrightarrow> clean (bind_res r f)"
  by (cases r) auto

lemma clean_bind_pair:
  "clean r \<Longrightarrow> (\<And>m p. r = Ok (m, p) \<Longrightarrow> clean (f m p)) \<Longrightarrow> clean (bind_res r (\<lambda>(m, p). f m p))"
  by (cases r) auto

lemma clean_index: "pos < length ls \<Longrightarrow> clean (index ls pos)"
  by simp

lemma clean_expectField:
  "trim_suffix p '': '' \<in> field_names \<Longrightarrow> clean (expectField ls pos p)"
  by (auto simp: expectField_def parse_formats_def)

lemma field_names_labels:
  "trim_suffix ''URI: '' '': '' \<in> field_names" "trim_suffix ''Version: '' '': '' \<in> field_names"
  "trim_suffix ''Nonce: '' '': '' \<in> field_names" "trim_suffix ''Issued At: '' '': '' \<in> field_names"
  by (simp_all add: trim_suffix_def has_suffix_def field_names_def)

lemma clean_stages:
  "pos < length ls \<Longrightarrow> clean (parse_domain ls pos m)"
  "pos < length ls \<Longrightarrow> clean (parse_address ls pos m)"
  "pos < length ls \<Longrightarrow> clean (parse_blank ls pos m)"
  "clean (parse_statement ls pos m)" "clean (parse_chain ls pos m)"
  "clean (parse_uri ls pos m)" "clean (parse_version ls pos m)"
  "clean (parse_nonce ls pos m)" "clean (parse_issued ls pos m)"
  using DecodeBase58_no_panic clean_expectField [OF field_names_labels(1)]
    clean_expectField [OF field_names_labels(2)] clean_expectField [OF field_names_labels(3)]
    clean_expectField [OF field_names_labels(4)]
  by (auto simp: parse_domain_def parse_address_def parse_blank_def parse_statement_def
      parse_chain_def parse_uri_def parse_version_def parse_nonce_def parse_issued_eq Let_def
      parse_formats_def split: res.split option.split)

lemma clean_read_resources: "clean (read_resources ls pos rs)"
proof (induction ls pos rs rule: read_resources.induct)
  case (1 ls pos rs)
  then show ?case by (subst read_resources.simps) auto
qed

lemma clean_trailer: "clean (trailer_loop ls pos stage m)"
proof (induction ls pos stage m rule: trailer_loop.induct)
  case (1 ls pos stage m)
  then show ?case
    by (subst trailer_loop.simps) (auto simp: clean_read_resources parse_formats_def split: option.split)
qed

lemma clean_parse_lines: "6 \<le> length ls \<Longrightarrow> clean (parse_lines ls)"
  unfolding parse_lines_def
  by (intro clean_bind_pair clean_stages clean_trailer)
     (auto simp: parse_domain_Ok parse_address_Ok)

lemma clean_ParseMessage: "clean (ParseMessage b)"
  by (simp add: ParseMessage_def Let_def clean_parse_lines parse_formats_def not_less)

section \<open>Properties\<close>


text \<open>C11. On every input whatsoever the parser returns: a message whose fields are well-formed,
  or an error that is \<open>ErrMalformed\<close> and no other sentinel, and whose text is made of the parser's own formats and
  the names of required fields, never of the message; it never panics.\<close>

theorem ParseMessage_total:
  "case ParseMessage b of
     Ok m \<Rightarrow> wf_fields m
   | Err e \<Rightarrow> (\<forall>s. errors_Is e s \<longleftrightarrow> s = SiwsErrMalformed) \<and> err_formats e \<subseteq> parse_formats
       \<and> err_args e \<subseteq> field_names
   | Panic \<Rightarrow> False"
  using clean_ParseMessage [of b] ParseMessage_wf [of b] by (auto split: res.split)

text \<open>C12. A message with well-formed fields and canonical timestamps (whole milliseconds, years
  0 to 9999) whose canonical text is within the size bound is read back from that text.\<close>

theorem String_ParseMessage_roundtrip:
  assumes "wf_fields m" and "canonical_times m" and "length (Message_String m) \<le> maxMessageBytes"
  shows "ParseMessage (Message_String m) = Ok m"
  using assms by (rule ParseMessage_String)

definition sample_message :: Message where
  "sample_message =
     \<lparr>mDomain = ''example.com'', mAddress = replicate 32 (CHR ''1''), mStatement = ''Hello'',
      mURI = ''https://example.com'', mVersion = ''1'', mChainID = ''mainnet'',
      mNonce = ''abcd1234'', mIssuedAt = 0, mExpirationTime = Some 60000000000, mNotBefore = None,
      mRequestID = [], mResources = [''a'', ''b'']\<rparr>"

lemma sample_key: "DecodeBase58 (replicate 32 (CHR ''1'')) = Ok (replicate 32 (CHR 0x00))"
proof -
  have "value_of 58 (replicate 32 0 @ []) = value_of 58 []" by (rule value_of_leading_zeros)
  then show ?thesis by (simp add: DecodeBase58_eq big_Bytes_def)
qed

lemma sample_address: "solana_address (replicate 32 (CHR ''1''))"
  by (simp add: solana_address_def sample_key)

lemma sample_message_ok:
  "wf_fields sample_message" "canonical_times sample_message"
  "length (Message_String sample_message) \<le> maxMessageBytes"
proof -
  have "validNonce ''abcd1234''" "statement_ok ''Hello''" by code_simp+
  with sample_address show "wf_fields sample_message"
    by (simp add: sample_message_def wf_fields_def)
  show "canonical_times sample_message" by code_simp
  show "length (Message_String sample_message) \<le> maxMessageBytes" by code_simp
qed

theorem String_ParseMessage_roundtrip_witness:
  "ParseMessage (Message_String sample_message) = Ok sample_message"
  using String_ParseMessage_roundtrip [of sample_message] sample_message_ok by simp

text \<open>Any number of trailing newlines within the size bound is ignored.\<close>

theorem ParseMessage_trailing_newlines:
  assumes "length b + n \<le> maxMessageBytes"
  shows "ParseMessage (b @ replicate n nl) = ParseMessage b"
  using assms by (auto simp: ParseMessage_def trim_right_byte_replicate)

theorem ParseMessage_trailing_newlines_witness:
  "length ''ab'' + 2 \<le> maxMessageBytes \<and> ParseMessage (''ab'' @ replicate 2 nl) = ParseMessage ''ab''"
  using ParseMessage_trailing_newlines [of "''ab''" 2] by (simp add: maxMessageBytes_def)

text \<open>Two well-formed messages with one canonical text are the same message: no field can
  be moved into another by choosing its text.\<close>

theorem Message_String_injective:
  assumes "printable m" and "printable m'"
  shows "Message_String m = Message_String m' \<longleftrightarrow> m = m'"
  using assms by (rule message_text.enc_eq_iff)

lemma other_sample_printable: "printable (sample_message\<lparr>mNonce := ''zzzz9999''\<rparr>)"
proof -
  have "validNonce ''zzzz9999''" by code_simp
  then have "wf_fields (sample_message\<lparr>mNonce := ''zzzz9999''\<rparr>)"
    using sample_message_ok(1) by (simp add: wf_fields_def)
  moreover have "length (Message_String (sample_message\<lparr>mNonce := ''zzzz9999''\<rparr>)) \<le> maxMessageBytes"
    by code_simp
  ultimately show ?thesis
    using sample_message_ok(2) by (simp add: printable_def canonical_times_def)
qed

theorem Message_String_injective_witness:
  "Message_String sample_message \<noteq> Message_String (sample_message\<lparr>mNonce := ''zzzz9999''\<rparr>)"
proof -
  have "mNonce sample_message \<noteq> ''zzzz9999''" by (simp add: sample_message_def)
  then have "sample_message \<noteq> sample_message\<lparr>mNonce := ''zzzz9999''\<rparr>"
    by (metis Message.select_convs(7) Message.surjective Message.update_convs(7))
  then show ?thesis
    using Message_String_injective [of sample_message "sample_message\<lparr>mNonce := ''zzzz9999''\<rparr>"]
      sample_message_ok other_sample_printable by (simp add: printable_def)
qed

text \<open>
  The size bound of the round trip is needed: a message without a chain id is within the
  bound, its canonical text, which names the default chain, is not.
\<close>

definition wide_parts :: "nat \<Rightarrow> parts" where
  "wide_parts k =
     \<lparr>gDomain = ''d'', gAddress = replicate 32 (CHR ''1''), gStatement = Some (replicate (Suc k) (CHR ''a'')),
      gURI = ''u'', gChain = None, gNonce = ''abcd1234'', gIssued = format_timestamp 0,
      gExpiration = None, gNotBefore = None, gRequestID = None, gResources = None\<rparr>"

lemma format_epoch: "format_timestamp 0 = ''1970-01-01T00:00:00.000Z''"
  by code_simp

lemma canonical_epoch: "canonical_ts 0"
  by code_simp

lemma wide_parts_ok:
  "wf_parts (wide_parts k)" "list_all one_line (grammar_lines (wide_parts k))"
  "length (unlines (grammar_lines (wide_parts k))) = 156 + k"
  "length (Message_String (message_of (wide_parts k))) = 174 + k"
proof -
  have "validNonce ''abcd1234''" by code_simp
  then show "wf_parts (wide_parts k)"
    using sample_address parse_canonical(1) [OF canonical_epoch]
    by (simp add: wf_parts_def wide_parts_def opt_ok_def statement_ok_def isFieldPrefix_def
        fieldLabels_def)
  show "list_all one_line (grammar_lines (wide_parts k))"
    by (simp add: grammar_lines_def wide_parts_def statement_lines_def trailer_lines_def
        resource_lines_def opt_line_def headerSuffix_def one_line_def)
  show "length (unlines (grammar_lines (wide_parts k))) = 156 + k"
    by (simp add: grammar_lines_def wide_parts_def statement_lines_def trailer_lines_def
        resource_lines_def opt_line_def headerSuffix_def format_epoch)
  show "length (Message_String (message_of (wide_parts k))) = 174 + k"
    using parse_canonical(1) [OF canonical_epoch]
    by (simp add: Message_String_def message_of_def wide_parts_def text_of_def chain_of_def
        optional_time_def format_epoch)
qed

text \<open>The round trip that the specification (S10) and the fuzz test demand of every accepted
  input fails near the size bound: some accepted text has a canonical text that is refused.\<close>

theorem S10_roundtrip_fails:
  "\<exists>b m. ParseMessage b = Ok m \<and>
     ParseMessage (Message_String m) = malformed ''parse: message too large: %w''"
proof -
  let ?g = "wide_parts 8030"
  let ?ls = "grammar_lines ?g"
  have "split_byte nl (trim_right_byte nl (unlines ?ls)) = ?ls"
    using wide_parts_ok(2) [of 8030]
    by (intro split_unlines grammar_lines_last) (auto simp: grammar_lines_def list_all_iff one_line_def)
  moreover have "cr \<notin> set (unlines ?ls)"
    using wide_parts_ok(2) [of 8030] by (auto simp: list_all_iff one_line_def unlines_def)
  ultimately have "ParseMessage (unlines ?ls) = Ok (message_of ?g)"
    using wide_parts_ok(1) unfolding ParseMessage_accepts
    by (auto simp: wide_parts_ok(3) maxMessageBytes_def)
  moreover have "ParseMessage (Message_String (message_of ?g)) = malformed ''parse: message too large: %w''"
    by (simp add: ParseMessage_def wide_parts_ok(4) maxMessageBytes_def)
  ultimately show ?thesis by blast
qed

end
