(* ===== verification/SiwsVerify.thy ===== *)
theory SiwsVerify
  imports SiwsRoundtrip
begin

text \<open>
  \<open>siws/verify.go\<close>: the checks of a sign-in message against what the relying party expects.

  \<open>ed25519.Verify\<close> is a parameter \<open>ed key msg sig\<close>; it panics on a key that is not 32 bytes,
  which is written out. \<open>opts.Now\<close> is called at most once per verification, so the record
  holds the time that call returns, \<open>None\<close> where the function is nil; \<open>wall\<close> is what
  \<open>time.Now\<close> returns then.
\<close>

type_synonym ed_verify = "bytes \<Rightarrow> bytes \<Rightarrow> bytes \<Rightarrow> bool"

record SiwsOpts =
  soExpectedDomain :: bytes
  soExpectedNonce :: bytes
  soNow :: "instant option"

definition opts_now :: "instant \<Rightarrow> SiwsOpts \<Rightarrow> instant" where
  "opts_now wall opts = (case soNow opts of Some t \<Rightarrow> t | None \<Rightarrow> wall)"

definition SignatureSize :: nat where "SignatureSize = 64"
definition PublicKeySize :: nat where "PublicKeySize = 32"

definition ed25519_Verify :: "ed_verify \<Rightarrow> bytes \<Rightarrow> bytes \<Rightarrow> bytes \<Rightarrow> bool res" where
  "ed25519_Verify ed key msg sig =
     (if length key \<noteq> PublicKeySize then Panic else Ok (ed key msg sig))"

text \<open>\<open>subtle.ConstantTimeCompare\<close>: 1 for equal contents, else 0.\<close>

definition ConstantTimeCompare :: "bytes \<Rightarrow> bytes \<Rightarrow> int" where
  "ConstantTimeCompare x y = (if x = y then 1 else 0)"

definition checkDomain :: "Message \<Rightarrow> bytes \<Rightarrow> unit res" where
  "checkDomain m expected =
     (if expected = [] \<or> mDomain m \<noteq> expected
      then Err (siws_err ''verify: domain mismatch: %w'' SiwsErrDomainMismatch) else Ok ())"

definition checkNotBefore :: "Message \<Rightarrow> instant \<Rightarrow> unit res" where
  "checkNotBefore m now =
     (case mNotBefore m of
        Some nb \<Rightarrow> if Before now nb
          then Err (siws_err ''verify: message not yet valid: %w'' SiwsErrNotYetValid) else Ok ()
      | None \<Rightarrow> Ok ())"

definition checkExpiry :: "Message \<Rightarrow> instant \<Rightarrow> unit res" where
  "checkExpiry m now =
     (case mExpirationTime m of
        Some e \<Rightarrow> if \<not> Before now e
          then Err (siws_err ''verify: message expired: %w'' SiwsErrExpired) else Ok ()
      | None \<Rightarrow> Ok ())"

definition checkNonce :: "Message \<Rightarrow> bytes \<Rightarrow> unit res" where
  "checkNonce m expected =
     (if ConstantTimeCompare (mNonce m) expected \<noteq> 1
      then Err (siws_err ''verify: nonce mismatch: %w'' SiwsErrNonceMismatch) else Ok ())"

definition checkSig :: "ed_verify \<Rightarrow> bytes \<Rightarrow> bytes \<Rightarrow> bytes \<Rightarrow> unit res" where
  "checkSig ed addressBase58 msg sig =
     (if length sig \<noteq> SignatureSize
      then Err (Errorf ''verify: signature must be %d bytes: %w'' [''64'']
                  [Sentinel SiwsErrBadSignature])
      else (case DecodeBase58 addressBase58 of
          Panic \<Rightarrow> Panic
        | Err _ \<Rightarrow> Err (siws_err ''verify: invalid public key: %w'' SiwsErrBadSignature)
        | Ok key \<Rightarrow>
            if length key \<noteq> PublicKeySize
            then Err (siws_err ''verify: invalid public key: %w'' SiwsErrBadSignature)
            else bind_res (ed25519_Verify ed key msg sig) (\<lambda>ok.
              if \<not> ok then Err (siws_err ''verify: signature invalid: %w'' SiwsErrBadSignature)
              else Ok ())))"

definition required_err :: gerror where
  "required_err =
     siws_err ''verify: ExpectedDomain and ExpectedNonce are required: %w'' SiwsErrMalformed"

definition VerifyRaw ::
  "ed_verify \<Rightarrow> instant \<Rightarrow> bytes \<Rightarrow> bytes \<Rightarrow> SiwsOpts \<Rightarrow> Message res" where
  "VerifyRaw ed wall msg sig opts =
     (if soExpectedDomain opts = [] \<or> soExpectedNonce opts = [] then Err required_err
      else bind_res (ParseMessage msg) (\<lambda>m.
           bind_res (checkDomain m (soExpectedDomain opts)) (\<lambda>_.
           let now = opts_now wall opts in
           bind_res (checkNotBefore m now) (\<lambda>_.
           bind_res (checkExpiry m now) (\<lambda>_.
           bind_res (checkNonce m (soExpectedNonce opts)) (\<lambda>_.
           bind_res (checkSig ed (mAddress m) msg sig) (\<lambda>_. Ok m)))))))"

definition Message_Verify ::
  "ed_verify \<Rightarrow> instant \<Rightarrow> Message \<Rightarrow> bytes \<Rightarrow> SiwsOpts \<Rightarrow> unit res" where
  "Message_Verify ed wall m sig opts =
     (if soExpectedDomain opts = [] \<or> soExpectedNonce opts = [] then Err required_err
      else bind_res (checkDomain m (soExpectedDomain opts)) (\<lambda>_.
           let now = opts_now wall opts in
           bind_res (checkNotBefore m now) (\<lambda>_.
           bind_res (checkExpiry m now) (\<lambda>_.
           bind_res (checkNonce m (soExpectedNonce opts)) (\<lambda>_.
           checkSig ed (mAddress m) (Message_String m) sig)))))"

section \<open>The checks, one by one\<close>

text \<open>The validity window: from Not Before on, up to and without the expiration time.\<close>

definition in_window :: "Message \<Rightarrow> instant \<Rightarrow> bool" where
  "in_window m now \<longleftrightarrow> opt_ok (\<lambda>nb. nb \<le> now) (mNotBefore m)
     \<and> opt_ok (\<lambda>e. now < e) (mExpirationTime m)"

definition too_early :: "Message \<Rightarrow> instant \<Rightarrow> bool" where
  "too_early m now \<longleftrightarrow> (case mNotBefore m of None \<Rightarrow> False | Some nb \<Rightarrow> now < nb)"

definition expired :: "Message \<Rightarrow> instant \<Rightarrow> bool" where
  "expired m now \<longleftrightarrow> (case mExpirationTime m of None \<Rightarrow> False | Some e \<Rightarrow> e \<le> now)"

definition signed_by :: "ed_verify \<Rightarrow> bytes \<Rightarrow> bytes \<Rightarrow> bytes \<Rightarrow> bool" where
  "signed_by ed addr msg sig \<longleftrightarrow> length sig = 64
     \<and> (\<exists>key. DecodeBase58 addr = Ok key \<and> length key = 32 \<and> ed key msg sig)"

lemma in_window_iff: "in_window m now \<longleftrightarrow> \<not> too_early m now \<and> \<not> expired m now"
  by (auto simp: in_window_def too_early_def expired_def opt_ok_def split: option.splits)

lemma check_eqs:
  "expected \<noteq> [] \<Longrightarrow> checkDomain m expected =
     (if mDomain m = expected then Ok ()
      else Err (siws_err ''verify: domain mismatch: %w'' SiwsErrDomainMismatch))"
  "checkNotBefore m now =
     (if too_early m now
      then Err (siws_err ''verify: message not yet valid: %w'' SiwsErrNotYetValid) else Ok ())"
  "checkExpiry m now =
     (if expired m now then Err (siws_err ''verify: message expired: %w'' SiwsErrExpired)
      else Ok ())"
  "checkNonce m nonce =
     (if mNonce m = nonce then Ok ()
      else Err (siws_err ''verify: nonce mismatch: %w'' SiwsErrNonceMismatch))"
  by (auto simp: checkDomain_def checkNotBefore_def checkExpiry_def checkNonce_def too_early_def
      expired_def Before_def ConstantTimeCompare_def split: option.split)

lemma siws_err_only: "(\<forall>t. errors_Is (siws_err f s) t \<longleftrightarrow> t = s)"
  by auto

lemma checkSig_cases:
  "checkSig ed addr msg sig = Ok () \<and> signed_by ed addr msg sig
   \<or> (\<exists>e. checkSig ed addr msg sig = Err e \<and> (\<forall>s. errors_Is e s \<longleftrightarrow> s = SiwsErrBadSignature))
     \<and> \<not> signed_by ed addr msg sig"
proof (cases "length sig = 64")
  case False
  then show ?thesis by (auto simp: checkSig_def SignatureSize_def signed_by_def)
next
  case len: True
  show ?thesis
  proof (cases "DecodeBase58 addr")
    case (Ok key)
    consider "length key \<noteq> 32" | "length key = 32" "ed key msg sig"
      | "length key = 32" "\<not> ed key msg sig" by blast
    then show ?thesis
      using len Ok siws_err_only [where s = SiwsErrBadSignature]
      by cases (simp_all add: checkSig_def signed_by_def SignatureSize_def PublicKeySize_def
          ed25519_Verify_def del: siws_err_Is)
  next
    case (Err e)
    then show ?thesis using len siws_err_only [where s = SiwsErrBadSignature]
      by (simp add: checkSig_def signed_by_def SignatureSize_def del: siws_err_Is)
  qed (use DecodeBase58_no_panic in blast)
qed

section \<open>The specification of verification\<close>

text \<open>
  What a verification reports: nothing wrong, or the one sentinel of the first check that
  fails, in the order domain, not-before, expiry, nonce, signature.
\<close>

definition verdict ::
  "ed_verify \<Rightarrow> instant \<Rightarrow> Message \<Rightarrow> bytes \<Rightarrow> bytes \<Rightarrow> SiwsOpts \<Rightarrow> sentinel option" where
  "verdict ed now m msg sig opts =
     (if mDomain m \<noteq> soExpectedDomain opts then Some SiwsErrDomainMismatch
      else if too_early m now then Some SiwsErrNotYetValid
      else if expired m now then Some SiwsErrExpired
      else if mNonce m \<noteq> soExpectedNonce opts then Some SiwsErrNonceMismatch
      else if \<not> signed_by ed (mAddress m) msg sig then Some SiwsErrBadSignature
      else None)"

definition raw_verdict ::
  "ed_verify \<Rightarrow> instant \<Rightarrow> bytes \<Rightarrow> bytes \<Rightarrow> SiwsOpts \<Rightarrow> sentinel option" where
  "raw_verdict ed now msg sig opts =
     (if soExpectedDomain opts = [] \<or> soExpectedNonce opts = [] then Some SiwsErrMalformed
      else case ParseMessage msg of
          Ok m \<Rightarrow> verdict ed now m msg sig opts
        | _ \<Rightarrow> Some SiwsErrMalformed)"

fun reports :: "'a res \<Rightarrow> sentinel option \<Rightarrow> bool" where
  "reports (Ok x) v \<longleftrightarrow> v = None"
| "reports (Err e) v \<longleftrightarrow> (\<exists>s. v = Some s \<and> (\<forall>t. errors_Is e t \<longleftrightarrow> t = s))"
| "reports Panic v \<longleftrightarrow> False"

lemma reports_siws_err: "reports (Err (siws_err f s)) v \<longleftrightarrow> v = Some s"
  by auto

lemma reports_checkSig:
  "reports (checkSig ed addr msg sig)
     (if \<not> signed_by ed addr msg sig then Some SiwsErrBadSignature else None)"
  using checkSig_cases [of ed addr msg sig] by (elim disjE exE conjE) simp_all

text \<open>A guard in the code against a case of the specification.\<close>

lemma reports_guards:
  "reports (bind_res (if c then Ok () else Err (siws_err f s)) g) (if \<not> c then Some s else v)
     \<longleftrightarrow> (c \<longrightarrow> reports (g ()) v)"
  "reports (bind_res (if c then Err (siws_err f s) else Ok ()) g) (if c then Some s else v)
     \<longleftrightarrow> (\<not> c \<longrightarrow> reports (g ()) v)"
  by (cases c; simp add: reports_siws_err del: reports.simps(2))+

lemma reports_None: "reports r None \<longleftrightarrow> (\<exists>x. r = Ok x)"
  by (cases r) auto

text \<open>The tail both entry points share: the checks on a message that is at hand.\<close>

definition run_checks ::
  "ed_verify \<Rightarrow> instant \<Rightarrow> Message \<Rightarrow> bytes \<Rightarrow> bytes \<Rightarrow> SiwsOpts \<Rightarrow> unit res" where
  "run_checks ed now m msg sig opts =
     bind_res (checkDomain m (soExpectedDomain opts)) (\<lambda>_.
     bind_res (checkNotBefore m now) (\<lambda>_.
     bind_res (checkExpiry m now) (\<lambda>_.
     bind_res (checkNonce m (soExpectedNonce opts)) (\<lambda>_.
     checkSig ed (mAddress m) msg sig))))"

lemma reports_run_checks:
  "soExpectedDomain opts \<noteq> [] \<Longrightarrow>
     reports (run_checks ed now m msg sig opts) (verdict ed now m msg sig opts)"
  unfolding run_checks_def verdict_def check_eqs
  by (simp add: reports_guards reports_checkSig del: reports.simps)

lemma VerifyRaw_checks:
  "soExpectedDomain opts \<noteq> [] \<Longrightarrow> soExpectedNonce opts \<noteq> [] \<Longrightarrow>
     VerifyRaw ed wall msg sig opts =
       bind_res (ParseMessage msg) (\<lambda>m.
         bind_res (run_checks ed (opts_now wall opts) m msg sig opts) (\<lambda>_. Ok m))"
  by (simp add: VerifyRaw_def run_checks_def Let_def bind_res_assoc)

lemma Message_Verify_checks:
  "soExpectedDomain opts \<noteq> [] \<Longrightarrow> soExpectedNonce opts \<noteq> [] \<Longrightarrow>
     Message_Verify ed wall m sig opts =
       run_checks ed (opts_now wall opts) m (Message_String m) sig opts"
  by (simp add: Message_Verify_def run_checks_def Let_def)

lemma reports_bind_Ok: "reports (bind_res r (\<lambda>_. Ok x)) v \<longleftrightarrow> reports r v"
  by (cases r) auto

lemma ParseMessage_reports:
  "(\<exists>m. ParseMessage b = Ok m) \<or>
   (\<exists>e. ParseMessage b = Err e \<and> (\<forall>t. errors_Is e t \<longleftrightarrow> t = SiwsErrMalformed))"
  using clean_ParseMessage [of b] by (cases "ParseMessage b") auto

lemma VerifyRaw_reports:
  "reports (VerifyRaw ed wall msg sig opts) (raw_verdict ed (opts_now wall opts) msg sig opts)"
proof (cases "soExpectedDomain opts = [] \<or> soExpectedNonce opts = []")
  case True
  then show ?thesis
    by (simp add: VerifyRaw_def raw_verdict_def required_err_def reports_siws_err
        del: reports.simps(2))
next
  case False
  from ParseMessage_reports [of msg] show ?thesis
  proof (elim disjE exE conjE)
    fix m assume "ParseMessage msg = Ok m"
    with False show ?thesis
      by (simp add: VerifyRaw_checks raw_verdict_def reports_bind_Ok reports_run_checks)
  next
    fix e assume "ParseMessage msg = Err e" "\<forall>t. errors_Is e t \<longleftrightarrow> t = SiwsErrMalformed"
    with False show ?thesis by (simp add: VerifyRaw_checks raw_verdict_def)
  qed
qed

lemma VerifyRaw_Ok:
  "VerifyRaw ed wall msg sig opts = Ok m \<longleftrightarrow>
     soExpectedDomain opts \<noteq> [] \<and> soExpectedNonce opts \<noteq> [] \<and> ParseMessage msg = Ok m
     \<and> mDomain m = soExpectedDomain opts \<and> in_window m (opts_now wall opts)
     \<and> mNonce m = soExpectedNonce opts \<and> signed_by ed (mAddress m) msg sig"
proof (cases "soExpectedDomain opts = [] \<or> soExpectedNonce opts = []")
  case True
  then show ?thesis by (auto simp: VerifyRaw_def)
next
  case False
  then have "run_checks ed now m msg sig opts = Ok () \<longleftrightarrow> verdict ed now m msg sig opts = None"
    for now m
    using reports_run_checks [of opts ed now m msg sig]
    by (cases "run_checks ed now m msg sig opts") auto
  moreover have "verdict ed now m msg sig opts = None \<longleftrightarrow> mDomain m = soExpectedDomain opts
      \<and> in_window m now \<and> mNonce m = soExpectedNonce opts \<and> signed_by ed (mAddress m) msg sig"
    for now m
    by (simp add: verdict_def in_window_iff)
  ultimately show ?thesis using False by (auto simp: VerifyRaw_checks res_simps)
qed

section \<open>Properties\<close>

text \<open>C2. What \<open>VerifyRaw\<close> accepts: it returns the message \<open>m\<close> exactly when the relying
  party gave a domain and a nonce, the bytes parse to \<open>m\<close>, the domain and the nonce are the
  expected ones, the clock is inside the validity window, and the signature verifies over the
  very bytes received under the key the message's address decodes to.\<close>

theorem VerifyRaw_accepts_iff:
  "VerifyRaw ed wall msg sig opts = Ok m \<longleftrightarrow>
     soExpectedDomain opts \<noteq> [] \<and> soExpectedNonce opts \<noteq> [] \<and> ParseMessage msg = Ok m
     \<and> mDomain m = soExpectedDomain opts \<and> in_window m (opts_now wall opts)
     \<and> mNonce m = soExpectedNonce opts \<and> signed_by ed (mAddress m) msg sig"
  by (rule VerifyRaw_Ok)

text \<open>C8. \<open>VerifyRaw\<close> refines its specification: it never panics, and it fails with exactly one
  sentinel, that of the first check to fail in the order malformed, domain, not-before,
  expiry, nonce, signature (S3).\<close>

theorem VerifyRaw_refines_verdict:
  "reports (VerifyRaw ed wall msg sig opts) (raw_verdict ed (opts_now wall opts) msg sig opts)"
  by (rule VerifyRaw_reports)

text \<open>On the canonical text of a message, the deprecated \<open>Message.Verify\<close> and \<open>VerifyRaw\<close>
  agree: same acceptance, same error.\<close>

theorem Message_Verify_agrees:
  assumes "printable m"
  shows "bind_res (VerifyRaw ed wall (Message_String m) sig opts) (\<lambda>_. Ok ())
     = Message_Verify ed wall m sig opts"
proof (cases "soExpectedDomain opts = [] \<or> soExpectedNonce opts = []")
  case True
  then show ?thesis by (auto simp: VerifyRaw_def Message_Verify_def)
next
  case False
  have "bind_res r (\<lambda>_. Ok ()) = r" for r :: "unit res" by (cases r) auto
  then show ?thesis
    using False message_text.dec_enc [OF assms]
    by (simp add: VerifyRaw_checks Message_Verify_checks bind_res_assoc)
qed

definition sample_opts :: SiwsOpts where
  "sample_opts = \<lparr>soExpectedDomain = ''example.com'', soExpectedNonce = ''abcd1234'', soNow = None\<rparr>"

definition sample_sig :: bytes where
  "sample_sig = replicate 64 (CHR ''s'')"

definition sample_ed :: ed_verify where
  "sample_ed key msg sig \<longleftrightarrow> key = replicate 32 (CHR 0x00) \<and> sig = sample_sig"

theorem Message_Verify_agrees_witness:
  "bind_res (VerifyRaw sample_ed 5 (Message_String sample_message) sample_sig sample_opts)
     (\<lambda>_. Ok ()) = Message_Verify sample_ed 5 sample_message sample_sig sample_opts"
  using sample_message_ok by (intro Message_Verify_agrees) (simp add: printable_def)

lemma sample_accepted:
  assumes "t < 60000000000"
  shows "VerifyRaw sample_ed t (Message_String sample_message) sample_sig sample_opts
     = Ok sample_message"
proof -
  have "ParseMessage (Message_String sample_message) = Ok sample_message"
    using sample_message_ok by (intro message_text.dec_enc) (simp add: printable_def)
  moreover have "in_window sample_message t"
    using assms by (simp add: in_window_def opt_ok_def sample_message_def)
  moreover have "signed_by sample_ed (mAddress sample_message) msg sample_sig" for msg
    by (simp add: signed_by_def sample_message_def sample_key sample_ed_def sample_sig_def)
  ultimately show ?thesis
    by (simp add: VerifyRaw_Ok sample_opts_def opts_now_def) (simp add: sample_message_def)
qed

text \<open>A message that \<open>VerifyRaw\<close> accepts at two instants it accepts at every instant
  between them, and it is refused from its expiration time on.\<close>

theorem VerifyRaw_window_convex:
  assumes "VerifyRaw ed t1 msg sig (opts\<lparr>soNow := None\<rparr>) = Ok m"
    and "VerifyRaw ed t2 msg sig (opts\<lparr>soNow := None\<rparr>) = Ok m" and "t1 \<le> t" and "t \<le> t2"
  shows "VerifyRaw ed t msg sig (opts\<lparr>soNow := None\<rparr>) = Ok m
     \<and> (\<forall>e. mExpirationTime m = Some e \<longrightarrow> t < e)"
  using assms
  by (auto simp: VerifyRaw_Ok opts_now_def in_window_def opt_ok_def split: option.splits)

theorem VerifyRaw_window_convex_witness:
  "VerifyRaw sample_ed 2 (Message_String sample_message) sample_sig (sample_opts\<lparr>soNow := None\<rparr>)
     = Ok sample_message"
proof -
  have "sample_opts\<lparr>soNow := None\<rparr> = sample_opts" by (simp add: sample_opts_def)
  then show ?thesis
    using VerifyRaw_window_convex [of sample_ed 1 "Message_String sample_message" sample_sig
        sample_opts sample_message 3 2] sample_accepted
    by simp
qed

end
