(* ===== verification/Caip.thy ===== *)
theory Caip
  imports GoUtf8 Codec
begin

text \<open>
  \<open>siwx/caip.go\<close>: CAIP-2 chain ids and CAIP-10 account ids, their printed forms and their
  parsers. The three regular expressions are a character class repeated within bounds and
  anchored at both ends; Go matches them rune by rune.
\<close>

record CAIP2 =
  cNamespace :: bytes
  cReference :: bytes

record CAIP10 =
  cChainID :: CAIP2
  cAddress :: bytes

text \<open>\<open>^[class]{lo,hi}$\<close>.\<close>

definition match_class :: "(nat \<Rightarrow> bool) \<Rightarrow> nat \<Rightarrow> nat \<Rightarrow> bytes \<Rightarrow> bool" where
  "match_class P lo hi s =
     (let rs = runes s in lo \<le> length rs \<and> length rs \<le> hi \<and> list_all P rs)"

definition between :: "char \<Rightarrow> char \<Rightarrow> nat \<Rightarrow> bool" where
  "between a z r \<longleftrightarrow> of_char a \<le> r \<and> r \<le> of_char z"

definition lower_digit :: "nat \<Rightarrow> bool" where
  "lower_digit r \<longleftrightarrow> between (CHR ''a'') (CHR ''z'') r \<or> between (CHR ''0'') (CHR ''9'') r"

definition reNamespace :: "bytes \<Rightarrow> bool" where
  "reNamespace = match_class (\<lambda>r. r = of_char (CHR ''-'') \<or> lower_digit r) 3 8"

definition reReference :: "bytes \<Rightarrow> bool" where
  "reReference = match_class (\<lambda>r. r = of_char (CHR ''-'') \<or> r = of_char (CHR ''_'')
     \<or> lower_digit r \<or> between (CHR ''A'') (CHR ''Z'') r) 1 32"

definition reAddress :: "bytes \<Rightarrow> bool" where
  "reAddress = match_class (\<lambda>r. r = of_char (CHR ''-'') \<or> r = of_char (CHR ''.'')
     \<or> r = of_char (CHR ''%'') \<or> lower_digit r \<or> between (CHR ''A'') (CHR ''Z'') r) 1 128"

abbreviation colon :: byte where
  "colon \<equiv> CHR '':''"

definition CAIP2_String :: "CAIP2 \<Rightarrow> bytes" where
  "CAIP2_String c = cNamespace c @ '':'' @ cReference c"

definition CAIP10_String :: "CAIP10 \<Rightarrow> bytes" where
  "CAIP10_String c = CAIP2_String (cChainID c) @ '':'' @ cAddress c"

text \<open>\<open>strings.SplitN(s, ":", 2)\<close> and \<open>strings.Index(s, ":")\<close>, -1 when absent.\<close>

fun split_n2 :: "byte \<Rightarrow> bytes \<Rightarrow> bytes list" where
  "split_n2 c [] = [[]]"
| "split_n2 c (x # xs) =
     (if x = c then [[], xs]
      else (case split_n2 c xs of [] \<Rightarrow> [[x]] | l # ls \<Rightarrow> (x # l) # ls))"

fun index_byte :: "bytes \<Rightarrow> byte \<Rightarrow> int" where
  "index_byte [] c = -1"
| "index_byte (x # xs) c =
     (if x = c then 0 else let i = index_byte xs c in if i < 0 then -1 else i + 1)"

definition caip_err :: "string \<Rightarrow> 'a res" where
  "caip_err f = Err (Errorf f [] [Sentinel ErrMalformed])"

definition ParseCAIP2 :: "bytes \<Rightarrow> CAIP2 res" where
  "ParseCAIP2 s =
     (let parts = split_n2 colon s in
      if length parts \<noteq> 2 then caip_err ''caip2: missing colon separator: %w''
      else bind_res (index parts 0) (\<lambda>ns. bind_res (index parts 1) (\<lambda>ref.
        if \<not> reNamespace ns then caip_err ''caip2: invalid namespace: %w''
        else if \<not> reReference ref then caip_err ''caip2: invalid reference: %w''
        else Ok \<lparr>cNamespace = ns, cReference = ref\<rparr>)))"

text \<open>A slice expression with the bounds check of Go.\<close>

definition slice_from :: "bytes \<Rightarrow> int \<Rightarrow> bytes res" where
  "slice_from s i = (if 0 \<le> i \<and> i \<le> int (length s) then Ok (drop (nat i) s) else Panic)"

definition slice_to :: "bytes \<Rightarrow> int \<Rightarrow> bytes res" where
  "slice_to s i = (if 0 \<le> i \<and> i \<le> int (length s) then Ok (take (nat i) s) else Panic)"

definition ParseCAIP10 :: "bytes \<Rightarrow> CAIP10 res" where
  "ParseCAIP10 s =
     (let idx1 = index_byte s colon in
      if idx1 < 0 then caip_err ''caip10: missing first colon: %w''
      else bind_res (slice_from s (idx1 + 1)) (\<lambda>rest.
        let idx2 = index_byte rest colon in
        if idx2 < 0 then caip_err ''caip10: missing second colon: %w''
        else bind_res (slice_to s idx1) (\<lambda>ns.
             bind_res (slice_to rest idx2) (\<lambda>ref.
             bind_res (slice_from rest (idx2 + 1)) (\<lambda>addr.
          if \<not> reNamespace ns then caip_err ''caip10: invalid namespace: %w''
          else if \<not> reReference ref then caip_err ''caip10: invalid reference: %w''
          else if \<not> reAddress addr then caip_err ''caip10: invalid address: %w''
          else Ok \<lparr>cChainID = \<lparr>cNamespace = ns, cReference = ref\<rparr>, cAddress = addr\<rparr>)))))"

section \<open>Character classes\<close>

lemma match_class_bytes:
  assumes ascii: "\<And>r. P r \<Longrightarrow> r < 128"
  shows "match_class P lo hi s \<longleftrightarrow>
     lo \<le> length s \<and> length s \<le> hi \<and> list_all (\<lambda>c. P (of_char c)) s"
proof (cases "list_all (\<lambda>c. P (of_char c)) s")
  case True
  then have "runes s = map of_char s" by (intro runes_all_ascii) (auto simp: list_all_iff ascii)
  then show ?thesis using True by (simp add: match_class_def list_all_iff)
next
  case False
  then show ?thesis using list_all_runes [of P s, OF ascii] by (simp add: match_class_def Let_def)
qed

text \<open>The ids whose parts match.\<close>

definition valid_CAIP2 :: "CAIP2 \<Rightarrow> bool" where
  "valid_CAIP2 c \<longleftrightarrow> reNamespace (cNamespace c) \<and> reReference (cReference c)"

definition valid_CAIP10 :: "CAIP10 \<Rightarrow> bool" where
  "valid_CAIP10 c \<longleftrightarrow> valid_CAIP2 (cChainID c) \<and> reAddress (cAddress c)"

lemma namespace_no_colon: "reNamespace s \<Longrightarrow> colon \<notin> set s"
  unfolding reNamespace_def
  by (subst (asm) match_class_bytes)
     (auto simp: lower_digit_def between_def list_all_iff)

lemma reference_no_colon: "reReference s \<Longrightarrow> colon \<notin> set s"
  unfolding reReference_def
  by (subst (asm) match_class_bytes)
     (auto simp: lower_digit_def between_def list_all_iff)

section \<open>Splitting at a colon\<close>

lemma split_n2_append: "c \<notin> set l \<Longrightarrow> split_n2 c (l @ c # s) = [l, s]"
  by (induction l) auto

lemma split_n2_cases:
  "split_n2 c s = [s] \<and> c \<notin> set s \<or> (\<exists>l r. split_n2 c s = [l, r] \<and> s = l @ c # r \<and> c \<notin> set l)"
  by (induction s) (auto split: list.splits)

lemma index_byte_append: "c \<notin> set l \<Longrightarrow> index_byte (l @ c # s) c = int (length l)"
  by (induction l) (auto simp: Let_def)

lemma index_byte_absent: "c \<notin> set s \<Longrightarrow> index_byte s c = -1"
  by (induction s) auto

lemma slices_at:
  "slice_to (l @ c # r) (int (length l)) = Ok l"
  "slice_from (l @ c # r) (int (length l) + 1) = Ok r"
  by (simp_all add: slice_to_def slice_from_def nat_add_distrib)

lemma colon_split:
  obtains (absent) "colon \<notin> set s" | (at) l r where "s = l @ colon # r" "colon \<notin> set l"
  by (metis split_list_first)

lemma ParseCAIP2_split:
  "colon \<notin> set ns \<Longrightarrow> ParseCAIP2 (ns @ colon # ref) =
     (if \<not> reNamespace ns then caip_err ''caip2: invalid namespace: %w''
      else if \<not> reReference ref then caip_err ''caip2: invalid reference: %w''
      else Ok \<lparr>cNamespace = ns, cReference = ref\<rparr>)"
  by (simp add: ParseCAIP2_def split_n2_append)

lemma ParseCAIP2_absent:
  "colon \<notin> set s \<Longrightarrow> ParseCAIP2 s = caip_err ''caip2: missing colon separator: %w''"
  using split_n2_cases [of colon s] by (auto simp: ParseCAIP2_def Let_def)

lemma ParseCAIP10_split:
  "colon \<notin> set ns \<Longrightarrow> colon \<notin> set ref \<Longrightarrow> ParseCAIP10 (ns @ colon # ref @ colon # addr) =
     (if \<not> reNamespace ns then caip_err ''caip10: invalid namespace: %w''
      else if \<not> reReference ref then caip_err ''caip10: invalid reference: %w''
      else if \<not> reAddress addr then caip_err ''caip10: invalid address: %w''
      else Ok \<lparr>cChainID = \<lparr>cNamespace = ns, cReference = ref\<rparr>, cAddress = addr\<rparr>)"
  by (simp add: ParseCAIP10_def index_byte_append slices_at Let_def)

lemma ParseCAIP10_absent:
  "colon \<notin> set s \<Longrightarrow> ParseCAIP10 s = caip_err ''caip10: missing first colon: %w''"
  "colon \<notin> set l \<Longrightarrow> colon \<notin> set s \<Longrightarrow>
     ParseCAIP10 (l @ colon # s) = caip_err ''caip10: missing second colon: %w''"
  by (simp_all add: ParseCAIP10_def index_byte_absent index_byte_append slices_at)

section \<open>Both are canonical codecs\<close>

lemma caip_err_not_Ok [simp]: "caip_err f \<noteq> Ok x"
  by (simp add: caip_err_def)

lemma ParseCAIP2_String: "valid_CAIP2 c \<Longrightarrow> ParseCAIP2 (CAIP2_String c) = Ok c"
  by (simp add: valid_CAIP2_def CAIP2_String_def ParseCAIP2_split namespace_no_colon)

lemma ParseCAIP2_Ok: "ParseCAIP2 s = Ok c \<Longrightarrow> valid_CAIP2 c \<and> CAIP2_String c = s"
  by (cases s rule: colon_split)
     (auto simp: ParseCAIP2_absent ParseCAIP2_split valid_CAIP2_def CAIP2_String_def
        split: if_splits)

lemma ParseCAIP10_String: "valid_CAIP10 c \<Longrightarrow> ParseCAIP10 (CAIP10_String c) = Ok c"
  by (simp add: valid_CAIP10_def valid_CAIP2_def CAIP10_String_def CAIP2_String_def
      ParseCAIP10_split namespace_no_colon reference_no_colon)

lemma ParseCAIP10_Ok: "ParseCAIP10 s = Ok c \<Longrightarrow> valid_CAIP10 c \<and> CAIP10_String c = s"
proof (cases s rule: colon_split)
  case (at ns r)
  assume ok: "ParseCAIP10 s = Ok c"
  show ?thesis
  proof (cases r rule: colon_split)
    case absent
    then show ?thesis using ok at by (simp add: ParseCAIP10_absent)
  next
    case (at ref addr)
    then show ?thesis
      using ok \<open>s = ns @ colon # r\<close> \<open>colon \<notin> set ns\<close>
      by (auto simp: ParseCAIP10_split valid_CAIP10_def valid_CAIP2_def CAIP10_String_def
          CAIP2_String_def split: if_splits)
  qed
qed (simp add: ParseCAIP10_absent)

interpretation caip2: canonical_codec CAIP2_String ParseCAIP2 valid_CAIP2
  by unfold_locales (auto simp: ParseCAIP2_String dest: ParseCAIP2_Ok)

interpretation caip10: canonical_codec CAIP10_String ParseCAIP10 valid_CAIP10
  by unfold_locales (auto simp: ParseCAIP10_String dest: ParseCAIP10_Ok)

lemma ParseCAIP10_cases:
  "(\<exists>c. ParseCAIP10 s = Ok c) \<or> (\<exists>f. ParseCAIP10 s = caip_err f)"
proof (cases s rule: colon_split)
  case (at ns r)
  then show ?thesis
    by (cases r rule: colon_split) (auto simp: ParseCAIP10_absent ParseCAIP10_split)
qed (auto simp: ParseCAIP10_absent)

section \<open>Properties\<close>

text \<open>C27. A CAIP-10 text parses to an account exactly when it is the printed form of that
  account and the account's three parts match their regular expressions; every other text is
  refused with \<open>ErrMalformed\<close>, and no slice expression of the parser panics.\<close>

theorem ParseCAIP10_iff:
  "(ParseCAIP10 s = Ok c \<longleftrightarrow> valid_CAIP10 c \<and> CAIP10_String c = s)
   \<and> ((\<exists>c. ParseCAIP10 s = Ok c) \<or> (\<exists>f. ParseCAIP10 s = caip_err f))"
  using caip10.dec_iff ParseCAIP10_cases by blast

text \<open>The same for CAIP-2 chain ids.\<close>

theorem ParseCAIP2_iff:
  "ParseCAIP2 s = Ok c \<longleftrightarrow> valid_CAIP2 c \<and> CAIP2_String c = s"
  by (rule caip2.dec_iff)

text \<open>Printing valid accounts is injective: two wallets with one account text are one
  wallet, so the text can key an identity.\<close>

theorem CAIP10_String_injective: "inj_on CAIP10_String (Collect valid_CAIP10)"
  by (rule caip10.enc_inj_on)

end
