(* ===== verification/Observer.thy ===== *)
theory Observer
  imports Prelude
begin

text \<open>
  \<open>siwx/observer.go\<close>: the events of a verification and the observers that receive them, and
  the runs of the code that emits them.

  An observer is the one that discards all events, a fan-out, or an implementation outside
  the library, here a number. What happens at an event is the list of deliveries to outside
  observers, in order, and whether the call panicked; the parameter \<open>pan\<close> says which outside
  observers panic on which events. \<open>Duration\<close> fields hold time measurements and are left out
  of the events.
\<close>

datatype CheckName = CheckDomain | CheckNotBefore | CheckExpiry | CheckNonce | CheckSignature

datatype event =
    VerifyAttempt (attempt_id: bytes) bytes bytes bytes
  | ParseResult (attempt_id: bytes) bool "gerror option" nat
  | CheckResult (attempt_id: bytes) CheckName bool
  | VerifyResult (attempt_id: bytes) bool "gerror option" bytes

datatype observer = NopObserver | MultiObserver "observer list" | External nat

type_synonym delivery = "nat \<times> event"
type_synonym panics = "nat \<Rightarrow> event \<Rightarrow> bool"

text \<open>\<open>safeCall\<close> recovers the panic of one call; what was delivered before it stays.\<close>

definition safeCall :: "delivery list \<times> bool \<Rightarrow> delivery list \<times> bool" where
  "safeCall c = (fst c, False)"

fun deliver :: "panics \<Rightarrow> observer \<Rightarrow> event \<Rightarrow> delivery list \<times> bool" where
  "deliver pan NopObserver e = ([], False)"
| "deliver pan (MultiObserver obs) e =
     foldl (\<lambda>(ds, p) c. (ds @ fst c, p \<or> snd c)) ([], False)
       (map (\<lambda>ob. safeCall (deliver pan ob e)) obs)"
| "deliver pan (External n) e = ([(n, e)], pan n e)"

lemma foldl_calls:
  "foldl (\<lambda>(ds, p) c. (ds @ fst c, p \<or> snd c)) (ds, p) cs =
     (ds @ concat (map fst cs), p \<or> list_ex snd cs)"
  by (induction cs arbitrary: ds p) auto

lemma deliver_MultiObserver:
  "deliver pan (MultiObserver obs) e = (concat (map (\<lambda>ob. fst (deliver pan ob e)) obs), False)"
  by (simp add: foldl_calls safeCall_def comp_def) (induction obs; simp)

declare deliver.simps(2) [simp del]
declare deliver_MultiObserver [simp]

text \<open>An observer whose calls always return.\<close>

definition quiet :: "panics \<Rightarrow> observer \<Rightarrow> bool" where
  "quiet pan ob \<longleftrightarrow> (\<forall>e. \<not> snd (deliver pan ob e))"

lemma quiet_simps [simp]:
  "quiet pan NopObserver" "quiet pan (MultiObserver obs)"
  "quiet pan (External n) \<longleftrightarrow> (\<forall>e. \<not> pan n e)"
  by (simp_all add: quiet_def)

section \<open>Runs\<close>

text \<open>A run of observed code: the deliveries it made and how it ended.\<close>

type_synonym 'a run = "delivery list \<times> 'a res"

definition bind_run :: "'a run \<Rightarrow> ('a \<Rightarrow> 'b run) \<Rightarrow> 'b run" where
  "bind_run r f = (case snd r of
       Ok x \<Rightarrow> (fst r @ fst (f x), snd (f x))
     | Err e \<Rightarrow> (fst r, Err e)
     | Panic \<Rightarrow> (fst r, Panic))"

definition lift_run :: "'a res \<Rightarrow> 'a run" where
  "lift_run r = ([], r)"

text \<open>Calling a method of \<open>opts.Observer\<close>: a nil interface panics.\<close>

definition notify :: "panics \<Rightarrow> observer option \<Rightarrow> event \<Rightarrow> unit run" where
  "notify pan ob e = (case ob of
       None \<Rightarrow> ([], Panic)
     | Some obs \<Rightarrow> (case deliver pan obs e of (ds, p) \<Rightarrow> (ds, if p then Panic else Ok ())))"

text \<open>Running a call to its end and keeping its error as a value, as \<open>x, err := f()\<close> does.\<close>

definition catch_err :: "'a run \<Rightarrow> ('a res) run" where
  "catch_err r = (fst r, case snd r of Panic \<Rightarrow> Panic | v \<Rightarrow> Ok v)"

lemma snd_bind_run [simp]: "snd (bind_run r f) = bind_res (snd r) (\<lambda>x. snd (f x))"
  by (cases "snd r") (simp_all add: bind_run_def)

lemma bind_run_lift [simp]: "bind_run (lift_run (Ok x)) f = f x"
  "bind_run (lift_run (Err e)) f = lift_run (Err e)" "bind_run (lift_run Panic) f = lift_run Panic"
  by (simp_all add: bind_run_def lift_run_def)

lemma snd_lift [simp]: "snd (lift_run r) = r"
  and fst_lift [simp]: "fst (lift_run r) = []"
  by (simp_all add: lift_run_def)

lemma snd_catch_err [simp]:
  "snd (catch_err r) = (case snd r of Panic \<Rightarrow> Panic | v \<Rightarrow> Ok v)"
  and fst_catch_err [simp]: "fst (catch_err r) = fst r"
  by (simp_all add: catch_err_def)

lemma catch_err_lift [simp]:
  "catch_err (lift_run (Ok x)) = lift_run (Ok (Ok x))"
  "catch_err (lift_run (Err e)) = lift_run (Ok (Err e))"
  "catch_err (lift_run Panic) = lift_run Panic"
  by (simp_all add: catch_err_def lift_run_def)

lemma bind_run_snd:
  "snd r = Ok x \<Longrightarrow> bind_run r f = (fst r @ fst (f x), snd (f x))"
  "snd r = Err e \<Longrightarrow> bind_run r f = (fst r, Err e)"
  by (simp_all add: bind_run_def)

lemma notify_quiet [simp]:
  "quiet pan ob \<Longrightarrow> notify pan (Some ob) e = (fst (deliver pan ob e), Ok ())"
  by (cases "deliver pan ob e") (auto simp: notify_def quiet_def dest: spec [of _ e])

lemma bind_run_Ok [simp]: "bind_run (ds, Ok x) f = (ds @ fst (f x), snd (f x))"
  by (simp add: bind_run_def)

text \<open>The events a run delivers to one outside observer that listens directly.\<close>

definition events_of :: "delivery list \<Rightarrow> event list" where
  "events_of ds = map snd ds"

lemma events_of_simps [simp]:
  "events_of [] = []" "events_of (d # ds) = snd d # events_of ds"
  "events_of (ds @ ds') = events_of ds @ events_of ds'"
  by (simp_all add: events_of_def)

section \<open>Properties\<close>

text \<open>A fan-out never panics, whichever of its observers do (S5), and it delivers each
  event to all of them, in order and exactly once: its deliveries are those of its observers
  one after the other, and for outside observers one per observer.\<close>

theorem MultiObserver_delivers_all:
  "deliver pan (MultiObserver obs) e = (concat (map (\<lambda>ob. fst (deliver pan ob e)) obs), False)
   \<and> deliver pan (MultiObserver (map External ns)) e = (map (\<lambda>n. (n, e)) ns, False)"
proof
  show "deliver pan (MultiObserver obs) e = (concat (map (\<lambda>ob. fst (deliver pan ob e)) obs), False)"
    by simp
  show "deliver pan (MultiObserver (map External ns)) e = (map (\<lambda>n. (n, e)) ns, False)"
    by (induction ns) simp_all
qed

end
