(* ===== verification/Verifier.thy ===== *)
theory Verifier
  imports GoTime Caip Observer
begin

text \<open>
  \<open>siwx/verifier.go\<close> and \<open>siwx/errors.go\<close>: what a relying party asks for, the verified
  identity, and the interface \<open>Verifier\<close> with the contract that the registry and the
  callers rely on, as a locale.

  A \<open>Clock\<close> is the sequence of times its successive calls return during one verification.
\<close>

type_synonym clock = "nat \<Rightarrow> instant"

record VerifyOpts =
  voExpectedDomain :: bytes
  voExpectedNonce :: bytes
  voObserver :: "observer option"
  voClock :: "clock option"
  voAttemptID :: bytes

record Identity =
  idAccount :: CAIP10
  idDomain :: bytes
  idNonce :: bytes
  idIssuedAt :: instant
  idExpiresAt :: "instant option"

text \<open>The sentinels of \<open>siwx\<close>, in the order \<open>sentinelFor\<close> of the registry tries them.\<close>

definition siwx_sentinels :: "sentinel list" where
  "siwx_sentinels =
     [ErrMalformed, ErrBadSignature, ErrExpired, ErrNotYetValid, ErrDomainMismatch,
      ErrNonceMismatch, ErrUnsupportedNamespace, ErrContractValidationFailed,
      ErrContractWalletUnsupported, ErrRPC]"

text \<open>Reading \<open>opts.Clock.Now()\<close> for the \<open>n\<close>-th time; a nil clock panics.\<close>

definition read_clock :: "VerifyOpts \<Rightarrow> nat \<Rightarrow> instant res" where
  "read_clock opts n = (case voClock opts of None \<Rightarrow> Panic | Some c \<Rightarrow> Ok (c n))"

record Verifier =
  vNamespace :: bytes
  vVerify :: "bytes \<Rightarrow> bytes \<Rightarrow> VerifyOpts \<Rightarrow> Identity run"

text \<open>Events an adapter emits: those between the registry's first and last event.\<close>

fun inner_event :: "event \<Rightarrow> bool" where
  "inner_event (ParseResult i b e n) \<longleftrightarrow> True"
| "inner_event (CheckResult i c b) \<longleftrightarrow> True"
| "inner_event e \<longleftrightarrow> False"

text \<open>Options as the registry hands them over: nothing nil, no panicking observer.\<close>

definition ready :: "panics \<Rightarrow> VerifyOpts \<Rightarrow> bool" where
  "ready pan opts \<longleftrightarrow> (\<exists>ob. voObserver opts = Some ob \<and> quiet pan ob) \<and> voClock opts \<noteq> None"

section \<open>The loop over the checks\<close>

text \<open>
  Both adapters run a list of named checks, report each to the observer, and stop at the first
  that fails. A check is given by its outcome; a panic of the check itself is not reported.
\<close>

primrec check_loop ::
  "panics \<Rightarrow> VerifyOpts \<Rightarrow> (CheckName \<times> unit res) list \<Rightarrow> unit run" where
  "check_loop pan opts [] = lift_run (Ok ())"
| "check_loop pan opts (c # cs) =
     bind_run (catch_err (lift_run (snd c))) (\<lambda>cerr.
     bind_run (notify pan (voObserver opts)
         (CheckResult (voAttemptID opts) (fst c) (error_of cerr = None))) (\<lambda>_.
     if error_of cerr \<noteq> None then lift_run cerr else check_loop pan opts cs))"

primrec first_failure :: "(CheckName \<times> unit res) list \<Rightarrow> unit res" where
  "first_failure [] = Ok ()"
| "first_failure (c # cs) = bind_res (snd c) (\<lambda>_. first_failure cs)"

text \<open>The events of the loop: each check passed, up to and with the first that failed.\<close>

primrec check_events :: "bytes \<Rightarrow> (CheckName \<times> unit res) list \<Rightarrow> event list" where
  "check_events i [] = []"
| "check_events i (c # cs) = (case snd c of
       Ok _ \<Rightarrow> CheckResult i (fst c) True # check_events i cs
     | Err _ \<Rightarrow> [CheckResult i (fst c) False]
     | Panic \<Rightarrow> [])"

lemma notify_outcome: "snd (notify pan ob e) = Ok () \<or> snd (notify pan ob e) = Panic"
  by (auto simp: notify_def split: option.splits prod.splits)

lemma notify_not_Err [simp]: "snd (notify pan ob e) \<noteq> Err er"
  using notify_outcome [of pan ob e] by auto

lemma snd_check_loop:
  "snd (check_loop pan opts cs) = Panic \<or> snd (check_loop pan opts cs) = first_failure cs"
proof (induction cs)
  case (Cons c cs)
  then show ?case
    using notify_outcome [of pan "voObserver opts"
        "CheckResult (voAttemptID opts) (fst c) (error_of (snd c) = None)"]
    by (cases "snd c") auto
qed simp

lemma snd_check_loop_ready:
  "ready pan opts \<Longrightarrow> snd (check_loop pan opts cs) = first_failure cs"
proof (induction cs)
  case (Cons c cs)
  then show ?case by (cases "snd c") (auto simp: ready_def)
qed simp

lemma events_check_loop:
  assumes "voObserver opts = Some (External n)" and "\<forall>e. \<not> pan n e"
  shows "fst (check_loop pan opts cs) = map (Pair n) (check_events (voAttemptID opts) cs)"
proof (induction cs)
  case (Cons c cs)
  then show ?case using assms by (cases "snd c") (simp_all add: bind_run_def)
qed simp

lemma set_notify:
  "(n, ev) \<in> set (fst (notify pan ob e)) \<Longrightarrow> ev = e"
proof -
  have "(n, ev) \<in> set (fst (deliver pan obs e)) \<Longrightarrow> ev = e" for obs
    by (induction pan obs e rule: deliver.induct) auto
  then show "(n, ev) \<in> set (fst (notify pan ob e)) \<Longrightarrow> ev = e"
    by (auto simp: notify_def split: option.splits prod.splits) (metis fst_conv)
qed

lemma set_bind_run:
  "d \<in> set (fst (bind_run r f)) \<Longrightarrow>
     d \<in> set (fst r) \<or> (\<exists>x. snd r = Ok x \<and> d \<in> set (fst (f x)))"
  by (auto simp: bind_run_def split: res.splits)

lemma set_check_loop:
  "(n, ev) \<in> set (fst (check_loop pan opts cs)) \<Longrightarrow>
     inner_event ev \<and> attempt_id ev = voAttemptID opts"
  by (induction cs) (auto dest!: set_bind_run set_notify split: if_splits)

text \<open>A run whose events all belong to one attempt and none of which frames it.\<close>

definition inner_run :: "bytes \<Rightarrow> 'a run \<Rightarrow> bool" where
  "inner_run i r \<longleftrightarrow> (\<forall>d \<in> set (fst r). inner_event (snd d) \<and> attempt_id (snd d) = i)"

lemma inner_run_intros [intro]:
  "inner_run i (lift_run x)"
  "inner_run i r \<Longrightarrow> inner_run i (catch_err r)"
  "inner_run i s \<Longrightarrow> (\<And>x. inner_run i (f x)) \<Longrightarrow> inner_run i (bind_run s f)"
proof -
  show "inner_run i (lift_run x)" "inner_run i r \<Longrightarrow> inner_run i (catch_err r)"
    by (simp_all add: inner_run_def)
  show "inner_run i s \<Longrightarrow> (\<And>x. inner_run i (f x)) \<Longrightarrow> inner_run i (bind_run s f)"
    unfolding inner_run_def by (blast dest: set_bind_run)
qed

lemma inner_run_notify [intro]:
  "inner_run i (notify pan ob (ParseResult i b e k))"
  "inner_run i (notify pan ob (CheckResult i c b))"
  unfolding inner_run_def by (auto dest: set_notify)

lemma inner_run_check_loop [intro]:
  "voAttemptID opts = i \<Longrightarrow> inner_run i (check_loop pan opts cs)"
  unfolding inner_run_def by (auto dest: set_check_loop)

lemma inner_runD: "inner_run i r \<Longrightarrow> (n, ev) \<in> set (fst r) \<Longrightarrow> inner_event ev \<and> attempt_id ev = i"
  by (force simp: inner_run_def)

section \<open>The order of the checks\<close>

definition check_order :: "CheckName list" where
  "check_order = [CheckDomain, CheckNotBefore, CheckExpiry, CheckNonce, CheckSignature]"

lemma take_check_order:
  "take 0 check_order = []" "take 1 check_order = [CheckDomain]"
  "take 2 check_order = [CheckDomain, CheckNotBefore]"
  "take 3 check_order = [CheckDomain, CheckNotBefore, CheckExpiry]"
  "take 4 check_order = [CheckDomain, CheckNotBefore, CheckExpiry, CheckNonce]"
  "take 5 check_order = check_order"
  "check_order ! 0 = CheckDomain" "check_order ! 1 = CheckNotBefore"
  "check_order ! 2 = CheckExpiry" "check_order ! 3 = CheckNonce" "check_order ! 4 = CheckSignature"
  by (simp_all add: check_order_def eval_nat_numeral)

definition passed :: "bytes \<Rightarrow> nat \<Rightarrow> event list" where
  "passed i k = map (\<lambda>c. CheckResult i c True) (take k check_order)"

text \<open>Four checks with outcomes that are not panics: how far the loop gets.\<close>

lemma four_checks:
  assumes "\<forall>r \<in> {r0, r1, r2, r3}. r \<noteq> Panic"
  defines "cs \<equiv> [(CheckDomain, r0), (CheckNotBefore, r1), (CheckExpiry, r2), (CheckNonce, r3)]"
  shows "first_failure cs = Ok () \<and> check_events i cs = passed i 4
    \<or> (\<exists>k < 4. \<exists>e. first_failure cs = Err e
         \<and> check_events i cs = passed i k @ [CheckResult i (check_order ! k) False])"
proof -
  consider "\<exists>e. r0 = Err e" | "r0 = Ok ()" "\<exists>e. r1 = Err e"
    | "r0 = Ok ()" "r1 = Ok ()" "\<exists>e. r2 = Err e"
    | "r0 = Ok ()" "r1 = Ok ()" "r2 = Ok ()" "\<exists>e. r3 = Err e"
    | "r0 = Ok ()" "r1 = Ok ()" "r2 = Ok ()" "r3 = Ok ()"
  proof -
    have two: "r = Ok () \<or> (\<exists>e. r = Err e)" if "r \<in> {r0, r1, r2, r3}" for r
      using that assms(1) by (cases r) auto
    show thesis using that two [of r0] two [of r1] two [of r2] two [of r3] by blast
  qed
  then show ?thesis
  proof cases
    case 1
    then show ?thesis unfolding cs_def passed_def
      by (intro disjI2 exI [of _ 0]) (auto simp: take_check_order)
  next
    case 2
    then show ?thesis unfolding cs_def passed_def
      by (intro disjI2 exI [of _ 1]) (auto simp: take_check_order [unfolded One_nat_def])
  next
    case 3
    then show ?thesis unfolding cs_def passed_def
      by (intro disjI2 exI [of _ 2]) (auto simp: take_check_order)
  next
    case 4
    then show ?thesis unfolding cs_def passed_def
      by (intro disjI2 exI [of _ 3]) (auto simp: take_check_order)
  next
    case 5
    then show ?thesis unfolding cs_def passed_def by (simp add: take_check_order)
  qed
qed

text \<open>The trace of one verification, as a direct listener sees it.\<close>

definition trace_ok :: "bytes \<Rightarrow> nat \<Rightarrow> event list \<Rightarrow> 'a res \<Rightarrow> bool" where
  "trace_ok i len tr r \<longleftrightarrow>
     (case r of
        Ok _ \<Rightarrow> tr = ParseResult i True None len # passed i 5
      | Err e \<Rightarrow> errors_Is e ErrMalformed \<and> tr = [ParseResult i False (Some (Sentinel ErrMalformed)) len]
          \<or> (\<exists>k < 5. tr = ParseResult i True None len # passed i k
                @ [CheckResult i (check_order ! k) False])
      | Panic \<Rightarrow> False)"

lemma passed_5: "passed i 4 @ [CheckResult i CheckSignature True] = passed i 5"
  by (simp add: passed_def take_check_order) (simp add: check_order_def)

text \<open>\<open>fmt.Errorf("%w", s)\<close>.\<close>

definition wrap :: "sentinel \<Rightarrow> gerror" where
  "wrap s = Errorf ''%w'' [] [Sentinel s]"

lemma wrap_Is [simp]: "errors_Is (wrap s) t \<longleftrightarrow> s = t"
  by (simp add: wrap_def)

section \<open>The contract of a verifier\<close>

locale verifier =
  fixes pan :: panics and V :: Verifier
  assumes total: "ready pan opts \<Longrightarrow> snd (vVerify V msg sig opts) \<noteq> Panic"
    and observer_free:
      "ready pan opts \<Longrightarrow> quiet pan ob \<Longrightarrow>
         snd (vVerify V msg sig (opts\<lparr>voObserver := Some ob\<rparr>)) = snd (vVerify V msg sig opts)"
    and known_error:
      "snd (vVerify V msg sig opts) = Err er \<Longrightarrow> \<exists>s \<in> set siwx_sentinels. errors_Is er s"
    and bound:
      "snd (vVerify V msg sig opts) = Ok i \<Longrightarrow>
         voExpectedDomain opts \<noteq> [] \<and> idDomain i = voExpectedDomain opts
         \<and> idNonce i = voExpectedNonce opts \<and> cNamespace (cChainID (idAccount i)) = vNamespace V"
    and inner:
      "(n, ev) \<in> set (fst (vVerify V msg sig opts)) \<Longrightarrow>
         inner_event ev \<and> attempt_id ev = voAttemptID opts"
begin

lemma quiet_observers_agree:
  assumes "ready pan opts" and "quiet pan a" and "quiet pan b"
  shows "snd (vVerify V msg sig (opts\<lparr>voObserver := Some a\<rparr>))
     = snd (vVerify V msg sig (opts\<lparr>voObserver := Some b\<rparr>))"
  using observer_free [OF assms(1,2)] observer_free [OF assms(1,3)] by simp

lemma outcome:
  assumes "ready pan opts"
  obtains (accepted) i where "snd (vVerify V msg sig opts) = Ok i"
    | (refused) e where "snd (vVerify V msg sig opts) = Err e"
  using total [OF assms] by (cases "snd (vVerify V msg sig opts)") auto

end

end
