(* ===== verification/Registry.thy ===== *)
theory Registry
  imports Verifier GoHex
begin

text \<open>
  \<open>siwx/registry.go\<close>: the registry of verifiers by namespace, and the dispatch of one
  verification with its first and last event. \<open>rnd\<close> is what \<open>crypto/rand\<close> gives
  \<open>newAttemptID\<close> (\<open>None\<close> when it fails) and \<open>wall\<close> the clock behind \<open>RealClock\<close>. The
  read-write lock makes each access to the map atomic, so an operation is one step.
\<close>

record registry =
  rVerifiers :: "bytes \<rightharpoonup> Verifier"

type_synonym RegistryOption = "registry \<Rightarrow> registry"

definition NewRegistry :: "RegistryOption list \<Rightarrow> registry" where
  "NewRegistry opts = foldl (\<lambda>r opt. opt r) \<lparr>rVerifiers = Map.empty\<rparr> opts"

definition Register :: "registry \<Rightarrow> Verifier \<Rightarrow> registry" where
  "Register r v = r\<lparr>rVerifiers := (rVerifiers r)(vNamespace v \<mapsto> v)\<rparr>"

definition newAttemptID :: "bytes option \<Rightarrow> bytes res" where
  "newAttemptID rnd = (case rnd of None \<Rightarrow> Panic | Some b \<Rightarrow> Ok (hex_EncodeToString b))"

definition sentinelFor :: "gerror option \<Rightarrow> gerror option" where
  "sentinelFor err = (case err of
       None \<Rightarrow> None
     | Some e \<Rightarrow> (case find (errors_Is e) siwx_sentinels of
           Some s \<Rightarrow> Some (Sentinel s)
         | None \<Rightarrow> Some e))"

definition default_observer :: "VerifyOpts \<Rightarrow> VerifyOpts" where
  "default_observer opts =
     (if voObserver opts = None then opts\<lparr>voObserver := Some NopObserver\<rparr> else opts)"

definition default_clock :: "clock \<Rightarrow> VerifyOpts \<Rightarrow> VerifyOpts" where
  "default_clock wall opts =
     (if voClock opts = None then opts\<lparr>voClock := Some wall\<rparr> else opts)"

definition default_attempt :: "bytes option \<Rightarrow> VerifyOpts \<Rightarrow> VerifyOpts res" where
  "default_attempt rnd opts =
     (if voAttemptID opts = []
      then bind_res (newAttemptID rnd) (\<lambda>i. Ok (opts\<lparr>voAttemptID := i\<rparr>)) else Ok opts)"

definition unsupported_err :: "bytes \<Rightarrow> gerror" where
  "unsupported_err ns =
     Errorf ''registry: namespace %q not registered: %w'' [ns] [Sentinel ErrUnsupportedNamespace]"

definition Registry_Verify ::
  "panics \<Rightarrow> clock \<Rightarrow> bytes option \<Rightarrow> registry \<Rightarrow> CAIP2 \<Rightarrow> bytes \<Rightarrow> bytes \<Rightarrow> VerifyOpts
     \<Rightarrow> Identity run" where
  "Registry_Verify pan wall rnd r chainID msg sig opts =
     bind_run (lift_run (default_attempt rnd (default_clock wall (default_observer opts))))
       (\<lambda>opts.
     let obs = voObserver opts; ns = cNamespace chainID in
     bind_run (notify pan obs (VerifyAttempt (voAttemptID opts) ns (voExpectedDomain opts) []))
       (\<lambda>_.
     case rVerifiers r ns of
       None \<Rightarrow>
         bind_run (notify pan obs (VerifyResult (voAttemptID opts) False
             (Some (Sentinel ErrUnsupportedNamespace)) ns)) (\<lambda>_.
         lift_run (Err (unsupported_err ns)))
     | Some v \<Rightarrow>
         bind_run (catch_err (vVerify v msg sig opts)) (\<lambda>res.
         bind_run (notify pan obs (VerifyResult (voAttemptID opts) (error_of res = None)
             (sentinelFor (error_of res)) ns)) (\<lambda>_.
         lift_run res))))"

section \<open>Registration\<close>

lemma Register_lookup:
  "rVerifiers (Register r v) ns = (if ns = vNamespace v then Some v else rVerifiers r ns)"
  by (simp add: Register_def)

lemma foldl_Register:
  "rVerifiers (foldl Register r vs) ns =
     (case find (\<lambda>v. vNamespace v = ns) (rev vs) of Some v \<Rightarrow> Some v | None \<Rightarrow> rVerifiers r ns)"
  by (induction vs rule: rev_induct) (auto simp: Register_lookup)

section \<open>Dispatch\<close>

text \<open>The options the verifier gets, when the random source works.\<close>

definition prepared :: "clock \<Rightarrow> bytes \<Rightarrow> VerifyOpts \<Rightarrow> VerifyOpts" where
  "prepared wall b opts = opts\<lparr>
     voObserver := Some (case voObserver opts of None \<Rightarrow> NopObserver | Some ob \<Rightarrow> ob),
     voClock := Some (case voClock opts of None \<Rightarrow> wall | Some c \<Rightarrow> c),
     voAttemptID := (if voAttemptID opts = [] then hex_EncodeToString b else voAttemptID opts)\<rparr>"

text \<open>An observer that cannot stop the call: none, or one that does not panic.\<close>

definition harmless :: "panics \<Rightarrow> VerifyOpts \<Rightarrow> bool" where
  "harmless pan opts \<longleftrightarrow> (case voObserver opts of None \<Rightarrow> True | Some ob \<Rightarrow> quiet pan ob)"

lemma default_attempt_prepared:
  "default_attempt (Some b) (default_clock wall (default_observer opts)) = Ok (prepared wall b opts)"
  by (auto simp: default_attempt_def default_clock_def default_observer_def prepared_def
      newAttemptID_def split: option.split)

lemma ready_prepared: "harmless pan opts \<Longrightarrow> ready pan (prepared wall b opts)"
  by (auto simp: ready_def prepared_def harmless_def split: option.splits)

lemma prepared_simps [simp]:
  "voExpectedDomain (prepared wall b opts) = voExpectedDomain opts"
  "voExpectedNonce (prepared wall b opts) = voExpectedNonce opts"
  by (simp_all add: prepared_def)

lemma sentinelFor_simps [simp]:
  "sentinelFor None = None" "sentinelFor (Some e) \<noteq> None"
  by (auto simp: sentinelFor_def split: option.split)

lemma sentinelFor_known:
  assumes "\<exists>s \<in> set siwx_sentinels. errors_Is e s"
  shows "\<exists>s \<in> set siwx_sentinels. sentinelFor (Some e) = Some (Sentinel s) \<and> errors_Is e s"
proof -
  have "find (errors_Is e) siwx_sentinels \<noteq> None" using assms by (auto simp: find_None_iff)
  then obtain s where s: "find (errors_Is e) siwx_sentinels = Some s" by blast
  then have "s \<in> set siwx_sentinels" "errors_Is e s" by (auto simp: find_Some_iff in_set_conv_nth)
  with s show ?thesis by (auto simp: sentinelFor_def)
qed

lemma Registry_unsupported:
  assumes "harmless pan opts" and "rVerifiers r (cNamespace c) = None"
  shows "snd (Registry_Verify pan wall (Some b) r c msg sig opts)
     = Err (unsupported_err (cNamespace c))"
  using ready_prepared [OF assms(1), of wall b] assms(2)
  by (auto simp: Registry_Verify_def default_attempt_prepared ready_def Let_def)

context verifier
begin

lemma dispatch:
  fixes wall b opts msg sig
  assumes reg: "rVerifiers r (cNamespace c) = Some V" and obs: "harmless pan opts"
  defines "o' \<equiv> prepared wall b opts"
  defines "res \<equiv> snd (vVerify V msg sig o')"
  shows "Registry_Verify pan wall (Some b) r c msg sig opts =
     (fst (deliver pan (the (voObserver o'))
         (VerifyAttempt (voAttemptID o') (cNamespace c) (voExpectedDomain opts) []))
       @ fst (vVerify V msg sig o')
       @ fst (deliver pan (the (voObserver o'))
         (VerifyResult (voAttemptID o') (error_of res = None) (sentinelFor (error_of res))
            (cNamespace c))),
      res)"
proof -
  have r: "ready pan o'" unfolding o'_def by (rule ready_prepared [OF obs])
  then obtain ob where ob: "voObserver o' = Some ob" "quiet pan ob" by (auto simp: ready_def)
  have "res \<noteq> Panic" unfolding res_def by (rule total [OF r])
  then have "catch_err (vVerify V msg sig o') = (fst (vVerify V msg sig o'), Ok res)"
    by (auto simp: catch_err_def res_def split: res.splits)
  then show ?thesis
    by (simp add: Registry_Verify_def default_attempt_prepared o'_def [symmetric] ob Let_def reg)
       (simp add: o'_def)
qed

lemma dispatch_external:
  fixes wall b opts msg sig
  assumes reg: "rVerifiers r (cNamespace c) = Some V" and ob: "voObserver opts = Some (External n)"
    and "\<forall>e. \<not> pan n e"
  defines "o' \<equiv> prepared wall b opts"
  defines "res \<equiv> snd (vVerify V msg sig o')"
  shows "Registry_Verify pan wall (Some b) r c msg sig opts =
     ((n, VerifyAttempt (voAttemptID o') (cNamespace c) (voExpectedDomain opts) [])
       # fst (vVerify V msg sig o')
       @ [(n, VerifyResult (voAttemptID o') (error_of res = None) (sentinelFor (error_of res)) (cNamespace c))],
      res)"
proof -
  have "harmless pan opts" using ob assms(3) by (simp add: harmless_def)
  moreover have "voObserver o' = Some (External n)" by (simp add: prepared_def ob o'_def)
  ultimately show ?thesis
    using dispatch [OF reg, of opts wall b msg sig] by (simp add: o'_def [symmetric] res_def [symmetric])
qed

lemma dispatch_events:
  assumes reg: "rVerifiers r (cNamespace c) = Some V" and opts: "voObserver opts = Some (External n)"
    and "\<forall>e. \<not> pan n e"
  shows "\<exists>att res inner. events_of (fst (Registry_Verify pan wall (Some b) r c msg sig opts))
       = att # inner @ [res]
     \<and> (\<exists>i. att = VerifyAttempt i (cNamespace c) (voExpectedDomain opts) []
         \<and> (\<forall>e \<in> set inner. inner_event e \<and> attempt_id e = i)
         \<and> (\<exists>ok s. res = VerifyResult i ok s (cNamespace c)
             \<and> (ok \<longleftrightarrow> (\<exists>x. snd (Registry_Verify pan wall (Some b) r c msg sig opts) = Ok x))
             \<and> (s = None \<longleftrightarrow> ok)
             \<and> (\<forall>e. snd (Registry_Verify pan wall (Some b) r c msg sig opts) = Err e \<longrightarrow>
                  (\<exists>t \<in> set siwx_sentinels. s = Some (Sentinel t) \<and> errors_Is e t))))"
proof -
  let ?o = "prepared wall b opts"
  let ?i = "voAttemptID ?o"
  let ?run = "Registry_Verify pan wall (Some b) r c msg sig opts"
  let ?res = "snd (vVerify V msg sig ?o)"
  have harmless: "harmless pan opts" using assms(2,3) by (simp add: harmless_def)
  have run: "?run = ((n, VerifyAttempt ?i (cNamespace c) (voExpectedDomain opts) [])
      # fst (vVerify V msg sig ?o)
      @ [(n, VerifyResult ?i (error_of ?res = None) (sentinelFor (error_of ?res)) (cNamespace c))],
      ?res)"
    by (rule dispatch_external [OF assms])
  have inn: "inner_event e \<and> attempt_id e = ?i"
    if "e \<in> set (events_of (fst (vVerify V msg sig ?o)))" for e
    using that inner by (auto simp: events_of_def)
  have known: "\<exists>t \<in> set siwx_sentinels. sentinelFor (error_of ?res) = Some (Sentinel t) \<and> errors_Is e t"
    if "?res = Err e" for e
    using sentinelFor_known [OF known_error [OF that]] that by (simp add: error_of_def)
  have ok: "error_of ?res = None \<longleftrightarrow> (\<exists>x. ?res = Ok x)"
    using total [OF ready_prepared [OF harmless]] by (auto simp: error_of_def split: res.splits)
  have none: "sentinelFor (error_of ?res) = None \<longleftrightarrow> error_of ?res = None"
    by (cases "error_of ?res") simp_all
  show ?thesis
    unfolding run using inn known ok none by (fastforce simp: events_of_def)
qed

end

end
