(* ===== verification/SolanaAdapter.thy ===== *)
theory SolanaAdapter
  imports SiwsVerify Registry
begin

text \<open>
  \<open>siwx/solana/adapter.go\<close>: the verifier for the namespace \<open>solana\<close>. It parses the message,
  runs the four checks with an event each, and delegates the signature to \<open>siws.VerifyRaw\<close>,
  which parses and checks again. The clock is read up to three times: by the not-before
  check, by the expiry check, and inside \<open>VerifyRaw\<close>.
\<close>

section \<open>Translating errors\<close>

text \<open>
  \<open>mapErr\<close> ranges over a map literal, in an order the runtime picks: some enumeration of the
  keys, here given by \<open>pick\<close>, and every enumeration arises from some \<open>pick\<close>.
\<close>

definition mapErr_table :: "(sentinel \<times> sentinel) list" where
  "mapErr_table =
     [(SiwsErrMalformed, ErrMalformed), (SiwsErrBadSignature, ErrBadSignature),
      (SiwsErrExpired, ErrExpired), (SiwsErrNotYetValid, ErrNotYetValid),
      (SiwsErrDomainMismatch, ErrDomainMismatch), (SiwsErrNonceMismatch, ErrNonceMismatch)]"

definition map_range :: "'k list \<Rightarrow> ('k \<times> 'v) list \<Rightarrow> ('k \<times> 'v) list" where
  "map_range pick tbl =
     (let keys = map fst tbl in
      map (\<lambda>k. (k, the (map_of tbl k))) (rev (remdups (rev (filter (\<lambda>k. k \<in> set keys) pick @ keys)))))"

definition mapErr :: "sentinel list \<Rightarrow> gerror option \<Rightarrow> gerror option" where
  "mapErr pick err = (case err of
       None \<Rightarrow> None
     | Some e \<Rightarrow> (case find (\<lambda>kv. errors_Is e (fst kv)) (map_range pick mapErr_table) of
           Some kv \<Rightarrow> Some (wrap (snd kv))
         | None \<Rightarrow> Some (Errorf ''%w: %w'' [] [Sentinel ErrMalformed, e])))"

definition solana_sentinelFor :: "gerror option \<Rightarrow> gerror option" where
  "solana_sentinelFor err = (case err of
       None \<Rightarrow> None
     | Some e \<Rightarrow> if errors_Is e SiwsErrMalformed then Some (Sentinel ErrMalformed)
                 else Some (Sentinel ErrMalformed))"

text \<open>\<open>return nil, err\<close>; with a nil error the caller would dereference a nil identity.\<close>

definition return_err :: "gerror option \<Rightarrow> 'a res" where
  "return_err err = (case err of Some e \<Rightarrow> Err e | None \<Rightarrow> Panic)"

section \<open>The adapter\<close>

definition solana_domain :: "VerifyOpts \<Rightarrow> Message \<Rightarrow> unit res" where
  "solana_domain opts m =
     (if voExpectedDomain opts = [] \<or> mDomain m \<noteq> voExpectedDomain opts
      then Err (wrap ErrDomainMismatch) else Ok ())"

definition solana_not_before :: "VerifyOpts \<Rightarrow> Message \<Rightarrow> unit res" where
  "solana_not_before opts m = bind_res (read_clock opts 0) (\<lambda>now.
     case mNotBefore m of
       Some nb \<Rightarrow> if Before now nb then Err (wrap ErrNotYetValid) else Ok ()
     | None \<Rightarrow> Ok ())"

definition solana_expiry :: "VerifyOpts \<Rightarrow> Message \<Rightarrow> unit res" where
  "solana_expiry opts m = bind_res (read_clock opts 1) (\<lambda>now.
     case mExpirationTime m of
       Some e \<Rightarrow> if \<not> Before now e then Err (wrap ErrExpired) else Ok ()
     | None \<Rightarrow> Ok ())"

definition solana_nonce :: "VerifyOpts \<Rightarrow> Message \<Rightarrow> unit res" where
  "solana_nonce opts m =
     (if mNonce m \<noteq> voExpectedNonce opts then Err (wrap ErrNonceMismatch) else Ok ())"

definition solana_checks :: "VerifyOpts \<Rightarrow> Message \<Rightarrow> (CheckName \<times> unit res) list" where
  "solana_checks opts m =
     [(CheckDomain, solana_domain opts m), (CheckNotBefore, solana_not_before opts m),
      (CheckExpiry, solana_expiry opts m), (CheckNonce, solana_nonce opts m)]"

text \<open>The call of \<open>siws.VerifyRaw\<close>, whose clock is the third reading of ours.\<close>

definition solana_signature ::
  "ed_verify \<Rightarrow> bytes \<Rightarrow> bytes \<Rightarrow> VerifyOpts \<Rightarrow> Message res" where
  "solana_signature ed msg sig opts = bind_res (read_clock opts 2) (\<lambda>now.
     VerifyRaw ed now msg sig
       \<lparr>soExpectedDomain = voExpectedDomain opts, soExpectedNonce = voExpectedNonce opts,
        soNow = Some now\<rparr>)"

definition solana_identity :: "Message \<Rightarrow> Identity" where
  "solana_identity m =
     \<lparr>idAccount = \<lparr>cChainID = \<lparr>cNamespace = ''solana'', cReference = mChainID m\<rparr>,
                   cAddress = mAddress m\<rparr>,
      idDomain = mDomain m, idNonce = mNonce m, idIssuedAt = mIssuedAt m,
      idExpiresAt = mExpirationTime m\<rparr>"

definition solana_Verify ::
  "panics \<Rightarrow> sentinel list \<Rightarrow> ed_verify \<Rightarrow> bytes \<Rightarrow> bytes \<Rightarrow> VerifyOpts \<Rightarrow> Identity run" where
  "solana_Verify pan pick ed msg sig opts =
     (let obs = voObserver opts; i = voAttemptID opts in
      bind_run (catch_err (lift_run (ParseMessage msg))) (\<lambda>parsed.
      bind_run (notify pan obs (ParseResult i (error_of parsed = None)
          (solana_sentinelFor (error_of parsed)) (length msg))) (\<lambda>_.
      case parsed of
        Err e \<Rightarrow> lift_run (return_err (mapErr pick (Some e)))
      | Panic \<Rightarrow> lift_run Panic
      | Ok m \<Rightarrow>
          bind_run (check_loop pan opts (solana_checks opts m)) (\<lambda>_.
          bind_run (catch_err (lift_run (solana_signature ed msg sig opts))) (\<lambda>sigres.
          bind_run (notify pan obs (CheckResult i CheckSignature (error_of sigres = None))) (\<lambda>_.
          case sigres of
            Err e \<Rightarrow> lift_run (return_err (mapErr pick (Some e)))
          | Panic \<Rightarrow> lift_run Panic
          | Ok _ \<Rightarrow> lift_run (Ok (solana_identity m))))))))"

definition solana_New :: "panics \<Rightarrow> sentinel list \<Rightarrow> ed_verify \<Rightarrow> Verifier" where
  "solana_New pan pick ed =
     \<lparr>vNamespace = ''solana'', vVerify = solana_Verify pan pick ed\<rparr>"

section \<open>Errors\<close>

definition siwx_of :: "sentinel \<Rightarrow> sentinel" where
  "siwx_of s = the (map_of mapErr_table s)"

lemma map_range_spec:
  "kv \<in> set (map_range pick tbl) \<longleftrightarrow> fst kv \<in> set (map fst tbl) \<and> snd kv = the (map_of tbl (fst kv))"
  by (cases kv) (auto simp: map_range_def Let_def)

text \<open>An error that is exactly one sentinel is translated the same in every order.\<close>

lemma mapErr_single:
  assumes "\<forall>t. errors_Is e t \<longleftrightarrow> t = s" and "s \<in> set (map fst mapErr_table)"
  shows "mapErr pick (Some e) = Some (wrap (siwx_of s))"
proof (cases "find (\<lambda>kv. errors_Is e (fst kv)) (map_range pick mapErr_table)")
  case None
  have "\<not> errors_Is e (fst kv)" if "kv \<in> set (map_range pick mapErr_table)" for kv
    using that None [unfolded find_None_iff] by blast
  moreover have "(s, the (map_of mapErr_table s)) \<in> set (map_range pick mapErr_table)"
    using assms(2) by (simp add: map_range_spec)
  ultimately show ?thesis using assms(1) by fastforce
next
  case (Some kv)
  then have "errors_Is e (fst kv)" "kv \<in> set (map_range pick mapErr_table)"
    by (auto simp: find_Some_iff in_set_conv_nth)
  then have "fst kv = s" "snd kv = siwx_of s"
    using assms(1) by (auto simp: map_range_spec siwx_of_def)
  then show ?thesis using Some by (simp add: mapErr_def)
qed

lemma mapErr_known:
  "\<exists>s \<in> set siwx_sentinels. \<exists>e'. mapErr pick (Some e) = Some e' \<and> errors_Is e' s"
proof (cases "find (\<lambda>kv. errors_Is e (fst kv)) (map_range pick mapErr_table)")
  case None
  then show ?thesis by (auto simp: mapErr_def siwx_sentinels_def)
next
  case (Some kv)
  then have "kv \<in> set (map_range pick mapErr_table)"
    by (auto simp: find_Some_iff in_set_conv_nth)
  then have "snd kv \<in> set siwx_sentinels"
    by (auto simp: map_range_spec mapErr_table_def siwx_sentinels_def)
  then show ?thesis using Some by (auto simp: mapErr_def wrap_def)
qed

lemma return_err_simps [simp]: "return_err (Some e) = Err e" "return_err x \<noteq> Ok y"
  by (auto simp: return_err_def split: option.split)

section \<open>The adapter against \<open>siws.VerifyRaw\<close>\<close>

text \<open>The options \<open>VerifyRaw\<close> gets, and the outcome of a call with a running clock \<open>c\<close>.\<close>

definition siws_opts :: "VerifyOpts \<Rightarrow> instant \<Rightarrow> SiwsOpts" where
  "siws_opts opts now =
     \<lparr>soExpectedDomain = voExpectedDomain opts, soExpectedNonce = voExpectedNonce opts,
      soNow = Some now\<rparr>"

definition solana_spec ::
  "ed_verify \<Rightarrow> clock \<Rightarrow> bytes \<Rightarrow> bytes \<Rightarrow> VerifyOpts \<Rightarrow> Identity res" where
  "solana_spec ed c msg sig opts =
     (case ParseMessage msg of
        Ok m \<Rightarrow>
          if voExpectedDomain opts = [] \<or> mDomain m \<noteq> voExpectedDomain opts
          then Err (wrap ErrDomainMismatch)
          else if too_early m (c 0) then Err (wrap ErrNotYetValid)
          else if expired m (c 1) then Err (wrap ErrExpired)
          else if mNonce m \<noteq> voExpectedNonce opts then Err (wrap ErrNonceMismatch)
          else (case raw_verdict ed (c 2) msg sig (siws_opts opts (c 2)) of
              Some s \<Rightarrow> Err (wrap (siwx_of s))
            | None \<Rightarrow> Ok (solana_identity m))
      | _ \<Rightarrow> Err (wrap ErrMalformed))"

lemma solana_checks_eq:
  assumes "voClock opts = Some c"
  shows "first_failure (solana_checks opts m) =
     (if voExpectedDomain opts = [] \<or> mDomain m \<noteq> voExpectedDomain opts
      then Err (wrap ErrDomainMismatch)
      else if too_early m (c 0) then Err (wrap ErrNotYetValid)
      else if expired m (c 1) then Err (wrap ErrExpired)
      else if mNonce m \<noteq> voExpectedNonce opts then Err (wrap ErrNonceMismatch)
      else Ok ())"
  using assms
  by (auto simp: solana_checks_def solana_domain_def solana_not_before_def solana_expiry_def
      solana_nonce_def read_clock_def too_early_def expired_def Before_def split: option.split)

lemma raw_verdict_table: "raw_verdict ed now msg sig o' = Some s \<Longrightarrow> s \<in> set (map fst mapErr_table)"
  by (auto simp: raw_verdict_def verdict_def mapErr_table_def split: if_splits res.splits)

lemma mapErr_malformed:
  "ParseMessage msg = Err e \<Longrightarrow> mapErr pick (Some e) = Some (wrap ErrMalformed)"
  using mapErr_single [of e SiwsErrMalformed pick] clean_ParseMessage [of msg]
  by (simp add: mapErr_table_def siwx_of_def)

text \<open>The signature stage: which error \<open>mapErr\<close> makes of the one \<open>VerifyRaw\<close> reports.\<close>

lemma solana_signature_cases:
  assumes "voClock opts = Some c"
  shows "(case raw_verdict ed (c 2) msg sig (siws_opts opts (c 2)) of
       None \<Rightarrow> \<exists>m. solana_signature ed msg sig opts = Ok m
     | Some s \<Rightarrow> \<exists>e. solana_signature ed msg sig opts = Err e
         \<and> mapErr pick (Some e) = Some (wrap (siwx_of s)))"
proof -
  have eq: "solana_signature ed msg sig opts = VerifyRaw ed (c 2) msg sig (siws_opts opts (c 2))"
    using assms by (simp add: solana_signature_def read_clock_def siws_opts_def)
  have now: "opts_now (c 2) (siws_opts opts (c 2)) = c 2" by (simp add: opts_now_def siws_opts_def)
  note rep = VerifyRaw_reports [of ed "c 2" msg sig "siws_opts opts (c 2)", unfolded now]
  show ?thesis
  proof (cases "raw_verdict ed (c 2) msg sig (siws_opts opts (c 2))")
    case None
    then show ?thesis using rep eq by (simp add: reports_None)
  next
    case (Some s)
    with rep obtain e where e: "solana_signature ed msg sig opts = Err e"
      and only: "\<forall>t. errors_Is e t \<longleftrightarrow> t = s"
      unfolding eq by (cases "VerifyRaw ed (c 2) msg sig (siws_opts opts (c 2))") auto
    from mapErr_single [OF only raw_verdict_table [OF Some]] e Some show ?thesis by simp
  qed
qed

lemma solana_Verify_eq_spec:
  assumes r: "ready pan opts" and c: "voClock opts = Some c"
  shows "snd (solana_Verify pan pick ed msg sig opts) = solana_spec ed c msg sig opts"
proof -
  obtain ob where ob: "voObserver opts = Some ob" "quiet pan ob" using r by (auto simp: ready_def)
  show ?thesis
  proof (cases "ParseMessage msg")
    case (Err e)
    then show ?thesis using ob
      by (simp add: solana_Verify_def solana_spec_def Let_def mapErr_malformed)
  next
    case Panic
    then show ?thesis using clean_ParseMessage [of msg] by simp
  next
    case (Ok m)
    have "snd (solana_Verify pan pick ed msg sig opts) =
       bind_res (first_failure (solana_checks opts m)) (\<lambda>_.
         case solana_signature ed msg sig opts of
           Err e \<Rightarrow> return_err (mapErr pick (Some e)) | Panic \<Rightarrow> Panic
         | Ok _ \<Rightarrow> Ok (solana_identity m))"
      using ob snd_check_loop_ready [OF r]
      by (cases "solana_signature ed msg sig opts") (simp_all add: solana_Verify_def Ok Let_def)
    then show ?thesis
      using solana_signature_cases [OF c, of ed msg sig pick]
      by (auto simp: solana_checks_eq [OF c] solana_spec_def Ok split: option.splits)
  qed
qed

section \<open>The contract of a verifier\<close>

lemma solana_Ok_inv:
  assumes "snd (solana_Verify pan pick ed msg sig opts) = Ok i"
  obtains m where "ParseMessage msg = Ok m" "first_failure (solana_checks opts m) = Ok ()"
    "i = solana_identity m"
proof -
  from assms obtain m where m: "ParseMessage msg = Ok m"
    and "snd (check_loop pan opts (solana_checks opts m)) = Ok ()" and "i = solana_identity m"
    by (cases "ParseMessage msg")
       (auto simp: solana_Verify_def Let_def res_simps split: res.splits)
  moreover from this(2) have "first_failure (solana_checks opts m) = Ok ()"
    using snd_check_loop [of pan opts "solana_checks opts m"] by auto
  ultimately show ?thesis using that by blast
qed

lemma solana_checks_known:
  "first_failure (solana_checks opts m) = Err e \<Longrightarrow> \<exists>s \<in> set siwx_sentinels. errors_Is e s"
  by (auto simp: solana_checks_def solana_domain_def solana_not_before_def solana_expiry_def
      solana_nonce_def siwx_sentinels_def res_simps read_clock_def split: if_splits option.splits)

lemma return_mapErr_known:
  "return_err (mapErr pick (Some e)) = Err e' \<Longrightarrow> \<exists>s \<in> set siwx_sentinels. errors_Is e' s"
  using mapErr_known [of pick e] by auto

lemma solana_Err_known:
  assumes "snd (solana_Verify pan pick ed msg sig opts) = Err e"
  shows "\<exists>s \<in> set siwx_sentinels. errors_Is e s"
proof -
  consider (map) e' where "return_err (mapErr pick (Some e')) = (Err e :: Identity res)"
    | (check) m where "snd (check_loop pan opts (solana_checks opts m)) = Err e"
    using assms by (cases "ParseMessage msg")
       (auto simp: solana_Verify_def Let_def res_simps split: res.splits)
  then show ?thesis
  proof cases
    case check
    then show ?thesis
      using snd_check_loop [of pan opts "solana_checks opts m"] solana_checks_known by auto
  qed (rule return_mapErr_known)
qed

lemma solana_events: "inner_run (voAttemptID opts) (solana_Verify pan pick ed msg sig opts)"
  unfolding solana_Verify_def Let_def
  by (rule inner_run_intros inner_run_notify inner_run_check_loop refl
      | split res.split sum.split, intro conjI allI impI)+

interpretation solana: verifier pan "solana_New pan pick ed"
proof unfold_locales
  fix opts msg sig
  assume r: "ready pan opts"
  then obtain c where c: "voClock opts = Some c" by (auto simp: ready_def)
  show "snd (vVerify (solana_New pan pick ed) msg sig opts) \<noteq> Panic"
    using solana_Verify_eq_spec [OF r c]
    by (auto simp: solana_New_def solana_spec_def split: res.splits option.splits if_splits)
  fix ob assume "quiet pan ob"
  then have r': "ready pan (opts\<lparr>voObserver := Some ob\<rparr>)" using r by (simp add: ready_def)
  have "solana_spec ed c msg sig (opts\<lparr>voObserver := Some ob\<rparr>) = solana_spec ed c msg sig opts"
    by (cases "ParseMessage msg") (simp_all add: solana_spec_def siws_opts_def)
  then show "snd (vVerify (solana_New pan pick ed) msg sig (opts\<lparr>voObserver := Some ob\<rparr>))
      = snd (vVerify (solana_New pan pick ed) msg sig opts)"
    using solana_Verify_eq_spec [OF r c] solana_Verify_eq_spec [OF r'] c
    by (simp add: solana_New_def)
next
  fix msg sig opts i
  assume "snd (vVerify (solana_New pan pick ed) msg sig opts) = Ok i"
  then obtain m where "first_failure (solana_checks opts m) = Ok ()" "i = solana_identity m"
    by (auto simp: solana_New_def elim: solana_Ok_inv)
  then show "voExpectedDomain opts \<noteq> [] \<and> idDomain i = voExpectedDomain opts
      \<and> idNonce i = voExpectedNonce opts
      \<and> cNamespace (cChainID (idAccount i)) = vNamespace (solana_New pan pick ed)"
    by (auto simp: solana_checks_def solana_domain_def solana_nonce_def solana_identity_def
        solana_New_def res_simps split: if_splits)
qed (auto simp: solana_New_def intro: solana_Err_known dest: inner_runD [OF solana_events])

section \<open>The events of a verification\<close>

lemma solana_checks_no_panic:
  "voClock opts = Some c \<Longrightarrow> \<forall>r \<in> {solana_domain opts m, solana_not_before opts m,
     solana_expiry opts m, solana_nonce opts m}. r \<noteq> Panic"
  by (auto simp: solana_domain_def solana_not_before_def solana_expiry_def solana_nonce_def
      read_clock_def split: option.split)

lemma solana_trace:
  assumes ob: "voObserver opts = Some (External n)" "\<forall>e. \<not> pan n e" and c: "voClock opts = Some c"
  shows "trace_ok (voAttemptID opts) (length msg)
     (events_of (fst (solana_Verify pan pick ed msg sig opts)))
     (snd (solana_Verify pan pick ed msg sig opts))"
proof (cases "ParseMessage msg")
  case (Err e)
  then show ?thesis
    using ob by (simp add: solana_Verify_def Let_def trace_ok_def mapErr_malformed
        solana_sentinelFor_def)
next
  case Panic
  then show ?thesis using clean_ParseMessage [of msg] by simp
next
  case (Ok m)
  let ?i = "voAttemptID opts"
  let ?cs = "solana_checks opts m"
  have q: "quiet pan (External n)" using ob by simp
  then have r: "ready pan opts" using ob c by (auto simp: ready_def)
  have ce: "events_of (fst (check_loop pan opts ?cs)) = check_events ?i ?cs"
    using events_check_loop [of opts n pan ?cs] ob by (simp add: events_of_def comp_def)
  note snd_check_loop_ready [OF r, of ?cs, simp]
  have run: "solana_Verify pan pick ed msg sig opts = bind_run ([(n, ParseResult ?i True None (length msg))], Ok ())
     (\<lambda>_. bind_run (check_loop pan opts ?cs) (\<lambda>_.
        bind_run (catch_err (lift_run (solana_signature ed msg sig opts))) (\<lambda>sigres.
        bind_run ([(n, CheckResult ?i CheckSignature (error_of sigres = None))], Ok ()) (\<lambda>_.
        case sigres of
          Err e \<Rightarrow> lift_run (return_err (mapErr pick (Some e)))
        | Panic \<Rightarrow> lift_run Panic
        | Ok _ \<Rightarrow> lift_run (Ok (solana_identity m))))))"
    using q unfolding solana_Verify_def Let_def Ok by (simp add: ob solana_sentinelFor_def)
  consider (pass) "first_failure ?cs = Ok ()" "check_events ?i ?cs = passed ?i 4"
    | (stop) k e where "k < 4" "first_failure ?cs = Err e"
        "check_events ?i ?cs = passed ?i k @ [CheckResult ?i (check_order ! k) False]"
    using four_checks [OF solana_checks_no_panic [OF c], of m ?i] unfolding solana_checks_def by blast
  then show ?thesis
  proof cases
    case pass
    then have loop: "snd (check_loop pan opts ?cs) = Ok ()" by simp
    show ?thesis
    proof (cases "raw_verdict ed (c 2) msg sig (siws_opts opts (c 2))")
      case None
      with solana_signature_cases [OF c, of ed msg sig pick]
      obtain m' where "solana_signature ed msg sig opts = Ok m'" by auto
      then show ?thesis
        unfolding run using pass(2) ce
        by (simp add: bind_run_snd(1) [OF loop] trace_ok_def passed_5)
    next
      case (Some s)
      with solana_signature_cases [OF c, of ed msg sig pick] obtain e where
        "solana_signature ed msg sig opts = Err e" "mapErr pick (Some e) = Some (wrap (siwx_of s))"
        by auto
      then show ?thesis
        unfolding run using pass(2) ce
        by (auto simp: bind_run_snd(1) [OF loop] trace_ok_def take_check_order intro!: exI [of _ 4])
    qed
  next
    case stop
    then have loop: "snd (check_loop pan opts ?cs) = Err e" by simp
    show ?thesis
      unfolding run using stop ce
      by (auto simp: bind_run_snd(2) [OF loop] trace_ok_def intro!: exI [of _ k])
  qed
qed

lemma solana_Verify_Ok:
  assumes "ready pan opts" and "voClock opts = Some c"
  shows "snd (solana_Verify pan pick ed msg sig opts) = Ok i \<longleftrightarrow>
     (\<exists>m. ParseMessage msg = Ok m \<and> i = solana_identity m
        \<and> voExpectedDomain opts \<noteq> [] \<and> mDomain m = voExpectedDomain opts
        \<and> \<not> too_early m (c 0) \<and> \<not> expired m (c 1) \<and> in_window m (c 2)
        \<and> mNonce m = voExpectedNonce opts \<and> signed_by ed (mAddress m) msg sig)"
proof -
  have "mNonce m \<noteq> []" if "ParseMessage msg = Ok m" for m
    using ParseMessage_wf [OF that] by (auto simp: wf_fields_def validNonce_def)
  then show ?thesis
    unfolding solana_Verify_eq_spec [OF assms]
    by (auto simp: solana_spec_def raw_verdict_def verdict_def siws_opts_def in_window_iff
        split: res.split)
qed

section \<open>Properties\<close>

text \<open>C16. What the adapter accepts, with the clock readings it takes: an identity \<open>i\<close> exactly
  when the message parses to some \<open>m\<close> with the expected domain and nonce, not too early at
  the first reading, not expired at the second, inside its window at the third, signed over
  the received bytes under its address, and \<open>i\<close> is the identity of \<open>m\<close>.\<close>

theorem solana_accepts_iff:
  assumes "ready pan opts" and "voClock opts = Some c"
  shows "snd (solana_Verify pan pick ed msg sig opts) = Ok i \<longleftrightarrow>
     (\<exists>m. ParseMessage msg = Ok m \<and> i = solana_identity m
        \<and> voExpectedDomain opts \<noteq> [] \<and> mDomain m = voExpectedDomain opts
        \<and> \<not> too_early m (c 0) \<and> \<not> expired m (c 1) \<and> in_window m (c 2)
        \<and> mNonce m = voExpectedNonce opts \<and> signed_by ed (mAddress m) msg sig)"
  using assms by (rule solana_Verify_Ok)

definition sample_vopts :: "clock \<Rightarrow> VerifyOpts" where
  "sample_vopts c =
     \<lparr>voExpectedDomain = ''example.com'', voExpectedNonce = ''abcd1234'',
      voObserver = Some (External 0), voClock = Some c, voAttemptID = ''id''\<rparr>"

lemma sample_vopts_fields:
  "voObserver (sample_vopts c) = Some (External 0)" "voAttemptID (sample_vopts c) = ''id''"
  by (simp_all add: sample_vopts_def)

lemma sample_ready: "ready (\<lambda>_ _. False) (sample_vopts c)"
  by (simp add: ready_def sample_vopts_def)

lemma sample_facts:
  assumes "printable m" and "mAddress m = replicate 32 (CHR ''1'')" and "mDomain m = ''example.com''"
    and "mNonce m = ''abcd1234''" and "mNotBefore m = None" and "mExpirationTime m = Some 60000000000"
  shows "ParseMessage (Message_String m) = Ok m" "too_early m t = False"
    "expired m t \<longleftrightarrow> 60000000000 \<le> t" "in_window m t \<longleftrightarrow> t < 60000000000"
    "signed_by sample_ed (mAddress m) msg sample_sig"
  using assms message_text.dec_enc [OF assms(1)]
  by (auto simp: too_early_def expired_def in_window_def opt_ok_def signed_by_def sample_key
      sample_ed_def sample_sig_def)

lemma sample_message_fields:
  "mAddress sample_message = replicate 32 (CHR ''1'')" "mDomain sample_message = ''example.com''"
  "mNonce sample_message = ''abcd1234''" "mNotBefore sample_message = None"
  "mExpirationTime sample_message = Some 60000000000"
  by (simp_all add: sample_message_def)

lemma sample_message_printable: "printable sample_message"
  using sample_message_ok by (simp add: printable_def)

theorem solana_accepts_iff_witness:
  "snd (solana_Verify (\<lambda>_ _. False) [] sample_ed (Message_String sample_message) sample_sig
     (sample_vopts (\<lambda>n. int n))) = Ok (solana_identity sample_message)"
proof -
  note f = sample_facts [OF sample_message_printable] and m = sample_message_fields
  have "voClock (sample_vopts (\<lambda>n. int n)) = Some (\<lambda>n. int n)" by (simp add: sample_vopts_def)
  from solana_accepts_iff [OF sample_ready this] show ?thesis
    using f [OF m] m(2,3) by (auto simp: sample_vopts_def)
qed

text \<open>C17. Against a clock that does not move, the adapter refines \<open>siws.VerifyRaw\<close>: with a
  domain and a nonce given, it returns the identity of the message \<open>VerifyRaw\<close> returns, or
  the translation of its error, in whichever order \<open>mapErr\<close> happens to visit its map.\<close>

theorem solana_refines_VerifyRaw:
  assumes "ready pan opts" and "voClock opts = Some (\<lambda>_. t)"
    and "voExpectedDomain opts \<noteq> []" and "voExpectedNonce opts \<noteq> []"
  shows "snd (solana_Verify pan pick ed msg sig opts) =
     (case VerifyRaw ed t msg sig (siws_opts opts t) of
        Ok m \<Rightarrow> Ok (solana_identity m)
      | Err e \<Rightarrow> return_err (mapErr pick (Some e))
      | Panic \<Rightarrow> Panic)"
proof -
  let ?v = "raw_verdict ed t msg sig (siws_opts opts t)"
  have now: "opts_now t (siws_opts opts t) = t" by (simp add: opts_now_def siws_opts_def)
  note rep = VerifyRaw_reports [of ed t msg sig "siws_opts opts t", unfolded now]
  have spec: "solana_spec ed (\<lambda>_. t) msg sig opts =
      (case ?v of Some s \<Rightarrow> Err (wrap (siwx_of s)) | None \<Rightarrow>
         (case ParseMessage msg of Ok m \<Rightarrow> Ok (solana_identity m) | _ \<Rightarrow> Panic))"
    using assms(3,4)
    by (auto simp: solana_spec_def raw_verdict_def verdict_def siws_opts_def siwx_of_def
        mapErr_table_def split: res.split)
  show ?thesis
  proof (cases ?v)
    case None
    then obtain m where m: "VerifyRaw ed t msg sig (siws_opts opts t) = Ok m"
      using rep by (auto simp: reports_None)
    then have "ParseMessage msg = Ok m" by (simp add: VerifyRaw_Ok)
    then show ?thesis
      unfolding solana_Verify_eq_spec [OF assms(1,2)] spec using None m by simp
  next
    case (Some s)
    with rep obtain e where e: "VerifyRaw ed t msg sig (siws_opts opts t) = Err e"
      and only: "\<forall>u. errors_Is e u \<longleftrightarrow> u = s"
      by (cases "VerifyRaw ed t msg sig (siws_opts opts t)") auto
    show ?thesis
      unfolding solana_Verify_eq_spec [OF assms(1,2)] spec
      using Some e mapErr_single [OF only raw_verdict_table [OF Some]] by simp
  qed
qed

theorem solana_refines_VerifyRaw_witness:
  "snd (solana_Verify (\<lambda>_ _. False) [] sample_ed (Message_String sample_message) sample_sig
     (sample_vopts (\<lambda>_. 7))) =
   (case VerifyRaw sample_ed 7 (Message_String sample_message) sample_sig
       (siws_opts (sample_vopts (\<lambda>_. 7)) 7) of
      Ok m \<Rightarrow> Ok (solana_identity m) | Err e \<Rightarrow> return_err (mapErr [] (Some e)) | Panic \<Rightarrow> Panic)"
  using sample_ready [of "\<lambda>_. 7"] by (intro solana_refines_VerifyRaw) (simp_all add: sample_vopts_def)

text \<open>What a listening observer sees of one verification is determined by how it ends: the
  parse result first, then the checks in the fixed order domain, not-before, expiry, nonce,
  signature, all passed on success, and on failure all passed but the last one reported.\<close>

theorem solana_event_trace:
  assumes "voObserver opts = Some (External n)" and "\<forall>e. \<not> pan n e" and "voClock opts = Some c"
  shows "trace_ok (voAttemptID opts) (length msg)
     (events_of (fst (solana_Verify pan pick ed msg sig opts)))
     (snd (solana_Verify pan pick ed msg sig opts))"
  using assms by (rule solana_trace)

theorem solana_event_trace_witness:
  "trace_ok ''id'' 1
     (events_of (fst (solana_Verify (\<lambda>_ _. False) [] sample_ed ''m'' sample_sig (sample_vopts (\<lambda>_. 0)))))
     (snd (solana_Verify (\<lambda>_ _. False) [] sample_ed ''m'' sample_sig (sample_vopts (\<lambda>_. 0))))"
  using solana_event_trace [of "sample_vopts (\<lambda>_. 0)" 0 "\<lambda>_ _. False" "\<lambda>_. 0" "''m''"]
  by (simp add: sample_vopts_def)

text \<open>
  The clock moves between the expiry check and \<open>VerifyRaw\<close>: only the signature is said to be
  able to fail there, but a message that expires in between fails with the expiry error.
\<close>

definition late_clock :: clock where
  "late_clock n = (if n < 2 then 0 else 60000000000)"

text \<open>A validly signed message that expires between the adapter's expiry check and the call
  of \<open>VerifyRaw\<close> is reported to the observer as a failed signature check, while the error
  returned is the expiry error: at that point more than the signature can fail.\<close>

theorem expiry_reported_as_signature:
  "signed_by sample_ed (mAddress sample_message) (Message_String sample_message) sample_sig
   \<and> snd (solana_Verify (\<lambda>_ _. False) [] sample_ed (Message_String sample_message) sample_sig
       (sample_vopts late_clock)) = Err (wrap ErrExpired)
   \<and> CheckResult ''id'' CheckSignature False \<in> set (events_of (fst
       (solana_Verify (\<lambda>_ _. False) [] sample_ed (Message_String sample_message) sample_sig
          (sample_vopts late_clock))))"
    (is "?signed \<and> ?err \<and> ?ev")
proof -
  let ?o = "sample_vopts late_clock"
  let ?run = "solana_Verify (\<lambda>_ _. False) [] sample_ed (Message_String sample_message) sample_sig ?o"
  note m = sample_message_fields
  note f = sample_facts [OF sample_message_printable m]
  have c: "voClock ?o = Some late_clock" by (simp add: sample_vopts_def)
  have err: ?err
    unfolding solana_Verify_eq_spec [OF sample_ready c]
    using f m by (simp add: solana_spec_def raw_verdict_def verdict_def siws_opts_def
        sample_vopts_def late_clock_def siwx_of_def mapErr_table_def)
  have "first_failure (solana_checks ?o sample_message) = Ok ()"
    unfolding solana_checks_eq [OF c] using f m by (simp add: late_clock_def sample_vopts_def)
  then have loop: "snd (check_loop (\<lambda>_ _. False) ?o (solana_checks ?o sample_message)) = Ok ()"
    by (simp add: snd_check_loop_ready sample_ready)
  obtain e where sr: "solana_signature sample_ed (Message_String sample_message) sample_sig ?o = Err e"
    using solana_signature_cases [OF c, of sample_ed "Message_String sample_message" sample_sig "[]"] f m
    by (auto simp: raw_verdict_def verdict_def siws_opts_def sample_vopts_def late_clock_def)
  have ?ev
    by (simp add: solana_Verify_def Let_def f(1) sr sample_vopts_fields bind_run_snd(1) [OF loop]
        solana_sentinelFor_def)
  then show ?thesis using err f(5) by blast
qed

definition odd_chain_message :: Message where
  "odd_chain_message = sample_message\<lparr>mChainID := ''main net''\<rparr>"

lemma odd_chain_printable: "printable odd_chain_message"
proof -
  have "wf_fields odd_chain_message" "canonical_times odd_chain_message"
    using sample_message_ok(1,2) by (simp_all add: odd_chain_message_def wf_fields_def canonical_times_def)
  moreover have "length (Message_String odd_chain_message) \<le> maxMessageBytes" by code_simp
  ultimately show ?thesis by (simp add: printable_def)
qed

text \<open>The chain id of a message is not checked against the syntax of a CAIP-2 reference: a
  message that verifies can have an account whose printed form is not a CAIP-10 id.\<close>

theorem solana_account_unparsable:
  "\<exists>i. snd (solana_Verify (\<lambda>_ _. False) [] sample_ed (Message_String odd_chain_message) sample_sig
        (sample_vopts (\<lambda>_. 0))) = Ok i
     \<and> (\<forall>a. ParseCAIP10 (CAIP10_String (idAccount i)) \<noteq> Ok a)"
proof -
  have m: "mAddress odd_chain_message = replicate 32 (CHR ''1'')" "mDomain odd_chain_message = ''example.com''"
    "mNonce odd_chain_message = ''abcd1234''" "mNotBefore odd_chain_message = None"
    "mExpirationTime odd_chain_message = Some 60000000000"
    by (simp_all add: odd_chain_message_def sample_message_def)
  note f = sample_facts [OF odd_chain_printable m]
  have c: "voClock (sample_vopts (\<lambda>_. 0)) = Some (\<lambda>_. 0)" by (simp add: sample_vopts_def)
  have "snd (solana_Verify (\<lambda>_ _. False) [] sample_ed (Message_String odd_chain_message) sample_sig
        (sample_vopts (\<lambda>_. 0))) = Ok (solana_identity odd_chain_message)"
    unfolding solana_Verify_eq_spec [OF sample_ready c]
    using f m by (simp add: solana_spec_def raw_verdict_def verdict_def siws_opts_def sample_vopts_def)
  moreover have "\<not> reReference ''main net''" by code_simp
  then have "ParseCAIP10 (CAIP10_String (idAccount (solana_identity odd_chain_message)))
      \<noteq> Ok a" for a
    using ParseCAIP10_split [of "''solana''" "''main net''" "mAddress odd_chain_message"]
    by (simp add: CAIP10_String_def CAIP2_String_def solana_identity_def odd_chain_message_def)
  ultimately show ?thesis by blast
qed

end
