(* ===== verification/Erc1271.thy ===== *)
theory Erc1271
  imports Positional GoHex "HOL-Library.Word"
begin

text \<open>
  The byte layout of contract-wallet calls in \<open>siwx/evm/adapter.go\<close>: 32-byte words, the
  calldata of \<open>isValidSignature(bytes32,bytes)\<close>, and the suffix that marks an ERC-6492
  signature. A Go \<open>int\<close> is a 64-bit word; \<open>byte(n >> k)\<close> keeps the low eight bits.
\<close>

definition to_byte :: "64 word \<Rightarrow> byte" where
  "to_byte n = char_of (unat n mod 256)"

definition erc1271MagicValue :: bytes where
  "erc1271MagicValue = [CHR 0x16, CHR 0x26, CHR 0xba, CHR 0x7e]"

definition erc1271Selector :: bytes where
  "erc1271Selector = [CHR 0x16, CHR 0x26, CHR 0xba, CHR 0x7e]"

definition erc6492Magic :: bytes where
  "erc6492Magic = concat (replicate 16 [CHR 0x64, CHR 0x92])"

text \<open>\<open>copy(dst, src)\<close> into a fresh slice of 32 zero bytes.\<close>

definition rightSizedWord :: "bytes \<Rightarrow> bytes" where
  "rightSizedWord b = take 32 b @ replicate (32 - length b) (CHR 0x00)"

definition uint256Word :: "64 word \<Rightarrow> bytes" where
  "uint256Word n =
     (replicate 32 (CHR 0x00))
       [31 := to_byte n, 30 := to_byte (drop_bit 8 n), 29 := to_byte (drop_bit 16 n),
        28 := to_byte (drop_bit 24 n)]"

definition erc1271Calldata :: "bytes \<Rightarrow> bytes \<Rightarrow> bytes" where
  "erc1271Calldata hash sig =
     (let paddedSigLen = ((length sig + 31) div 32) * 32;
          data = erc1271Selector @ rightSizedWord hash @ uint256Word 64
            @ uint256Word (word_of_nat (length sig)) @ sig;
          pad = int paddedSigLen - int (length sig)
      in if 0 < pad then data @ replicate (nat pad) (CHR 0x00) else data)"

definition hasERC6492Suffix :: "bytes \<Rightarrow> bool" where
  "hasERC6492Suffix sig \<longleftrightarrow> length erc6492Magic \<le> length sig
     \<and> drop (length sig - length erc6492Magic) sig = erc6492Magic"

section \<open>Words\<close>

lemma length_erc6492Magic [simp]: "length erc6492Magic = 32"
  by code_simp

lemma hasERC6492Suffix_iff: "hasERC6492Suffix sig \<longleftrightarrow> has_suffix sig erc6492Magic"
  by (simp add: hasERC6492Suffix_def has_suffix_def)

lemma length_uint256Word [simp]: "length (uint256Word n) = 32"
  by (simp add: uint256Word_def)

lemma length_rightSizedWord [simp]: "length (rightSizedWord b) = 32"
  by (simp add: rightSizedWord_def)

lemma rightSizedWord_id: "length b = 32 \<Longrightarrow> rightSizedWord b = b"
  by (simp add: rightSizedWord_def)

text \<open>The value of a big-endian word.\<close>

definition word_value :: "bytes \<Rightarrow> nat" where
  "word_value b = value_of 256 (map of_char b)"

lemma uint256Word_bytes:
  "uint256Word n = replicate 28 (CHR 0x00)
     @ [char_of (unat n div 16777216 mod 256), char_of (unat n div 65536 mod 256),
        char_of (unat n div 256 mod 256), char_of (unat n mod 256)]"
proof -
  have split: "replicate 32 z = replicate 28 z @ [z, z, z, z]" for z :: byte
    by (simp add: eval_nat_numeral)
  have bytes: "unat (drop_bit k n) = unat n div 2 ^ k" for k
    by (subst unat_drop_bit_eq) (simp only: drop_bit_eq_div)
  show ?thesis
    unfolding uint256Word_def split to_byte_def bytes
    by (simp add: list_update_append)
qed

lemma four_bytes:
  fixes x :: nat
  shows "((x div 16777216 mod 256 * 256 + x div 65536 mod 256) * 256 + x div 256 mod 256) * 256
    + x mod 256 = x mod 4294967296"
proof -
  have step: "x div k mod 256 * k + x mod k = x mod (k * 256)" if "0 < k" for k :: nat
    using mod_mult2_eq [of x k 256] by (simp add: mult.commute)
  have "x mod 4294967296 = x div 16777216 mod 256 * 16777216 + x mod 16777216"
    using step [of 16777216] by simp
  also have "x mod 16777216 = x div 65536 mod 256 * 65536 + x mod 65536"
    using step [of 65536] by simp
  also have "x mod 65536 = x div 256 mod 256 * 256 + x mod 256"
    using step [of 256] by simp
  finally show ?thesis by (simp add: algebra_simps)
qed

lemma word_value_uint256Word: "word_value (uint256Word n) = unat n mod 4294967296"
proof -
  have "map of_char (uint256Word n) = replicate 28 (0::nat)
     @ [unat n div 16777216 mod 256, unat n div 65536 mod 256, unat n div 256 mod 256, unat n mod 256]"
    by (simp add: uint256Word_bytes)
  then have "word_value (uint256Word n) =
      value_of 256 [unat n div 16777216 mod 256, unat n div 65536 mod 256, unat n div 256 mod 256,
        unat n mod 256]"
    by (simp only: word_value_def value_of_leading_zeros)
  also have "\<dots> = unat n mod 4294967296"
    using four_bytes [of "unat n"] by (simp add: value_of_def)
  finally show ?thesis .
qed

section \<open>The calldata as the contract reads it\<close>

text \<open>
  How a Solidity contract decodes \<open>isValidSignature(bytes32 hash, bytes sig)\<close>: after the
  selector, the first word is the hash, the second the offset of the bytes, where their length
  and then their contents stand.
\<close>

definition erc1271_decode :: "bytes \<Rightarrow> (bytes \<times> bytes) option" where
  "erc1271_decode d =
     (if take 4 d \<noteq> erc1271Selector then None
      else let args = drop 4 d;
               off = word_value (take 32 (drop 32 args));
               len = word_value (take 32 (drop off args));
               body = drop (off + 32) args
           in if length body < len then None else Some (take 32 args, take len body))"

lemma erc1271Calldata_eq:
  "erc1271Calldata hash sig = erc1271Selector @ rightSizedWord hash @ uint256Word 64
     @ uint256Word (word_of_nat (length sig)) @ sig
     @ replicate ((length sig + 31) div 32 * 32 - length sig) (CHR 0x00)"
  by (auto simp: erc1271Calldata_def Let_def nat_diff_distrib')

lemma decode_erc1271Calldata:
  assumes "length sig < 2 ^ 32" and "length hash = 32"
  shows "erc1271_decode (erc1271Calldata hash sig) = Some (hash, sig)"
proof -
  let ?len = "uint256Word (word_of_nat (length sig))"
  let ?pad = "replicate ((length sig + 31) div 32 * 32 - length sig) (CHR 0x00)"
  have sel: "length erc1271Selector = 4" by (simp add: erc1271Selector_def)
  have off: "word_value (uint256Word 64) = 64" by (simp add: word_value_uint256Word)
  have "unat (word_of_nat (length sig) :: 64 word) = length sig"
    using assms(1) by (simp add: unat_of_nat take_bit_nat_eq_self)
  then have len: "word_value ?len = length sig"
    using assms(1) by (simp add: word_value_uint256Word)
  show ?thesis
    unfolding erc1271Calldata_eq erc1271_decode_def rightSizedWord_id [OF assms(2)]
    using assms(2) by (simp add: sel off len Let_def)
qed

lemma length_erc1271Calldata: "length (erc1271Calldata hash sig) = 100 + (length sig + 31) div 32 * 32"
proof -
  have "length sig \<le> (length sig + 31) div 32 * 32" by linarith
  then show ?thesis by (simp add: erc1271Calldata_eq erc1271Selector_def)
qed

section \<open>Properties\<close>

text \<open>C35. The calldata is what the ABI asks for: a contract that decodes it as a call of
  \<open>isValidSignature(bytes32,bytes)\<close> finds the hash and the signature the adapter put in, for
  every signature under 4 GiB, and it is 100 bytes plus the signature padded to whole words.\<close>

theorem erc1271Calldata_decodes:
  assumes "length sig < 2 ^ 32" and "length hash = 32"
  shows "erc1271_decode (erc1271Calldata hash sig) = Some (hash, sig)
     \<and> length (erc1271Calldata hash sig) = 100 + (length sig + 31) div 32 * 32"
  using decode_erc1271Calldata [OF assms] length_erc1271Calldata by blast

theorem erc1271Calldata_decodes_witness:
  "erc1271_decode (erc1271Calldata (replicate 32 (CHR ''h'')) ''signature'')
     = Some (replicate 32 (CHR ''h''), ''signature'')"
  using erc1271Calldata_decodes [of "''signature''" "replicate 32 (CHR ''h'')"] by simp

text \<open>\<open>uint256Word\<close> writes the low 32 bits of a 64-bit integer as a big-endian 256-bit
  word; a value of 4 GiB or more is truncated.\<close>

theorem uint256Word_value: "word_value (uint256Word n) = unat n mod 2 ^ 32"
  by (simp add: word_value_uint256Word)

end
