(* ===== verification/EvmAdapter.thy ===== *)
theory EvmAdapter
  imports SiwsVerify Registry Erc1271
begin

text \<open>
  \<open>siwx/evm/adapter.go\<close> and \<open>siwx/evm/erc6492.go\<close>: the verifier for the namespace
  \<open>eip155\<close>. The library siwe-go, go-ethereum and the chain are outside the repository; the
  adapter's use of them is the record \<open>SiweLib\<close> and the type \<open>ChainClient\<close>:

    \<^item> \<open>siwelib.ParseMessage\<close> returns a message, of which the adapter uses the getters, or
      an error;
    \<^item> \<open>Message.String\<close>, \<open>Message.VerifyEIP191\<close> (only whether it fails),
      \<open>accounts.TextHash\<close>, \<open>Address.Hex\<close>, and \<open>abi.Arguments.Pack\<close>;
    \<^item> the embedded bytecode of the ERC-6492 validator;
    \<^item> the answers of a chain client, a value or an error; each is asked at most once per
      verification. A client may lack the deployless call.
\<close>

record SiweMsg =
  swDomain :: bytes
  swNotBefore :: "bytes option"
  swExpirationTime :: "bytes option"
  swNonce :: bytes
  swChainID :: int
  swAddress :: bytes
  swIssuedAt :: bytes

record SiweLib =
  lParseMessage :: "bytes \<Rightarrow> gerror + SiweMsg"
  lString :: "SiweMsg \<Rightarrow> bytes"
  lVerifyEIP191 :: "SiweMsg \<Rightarrow> bytes \<Rightarrow> bool"
  lTextHash :: "bytes \<Rightarrow> bytes"
  lHex :: "bytes \<Rightarrow> bytes"
  lPack :: "bytes \<Rightarrow> bytes \<Rightarrow> bytes \<Rightarrow> bytes option"
  lValidatorCode :: bytes

type_synonym rpc = "gerror + bytes"

record ChainClient =
  ccCodeAt :: "bytes \<Rightarrow> rpc"
  ccCallContract :: "bytes \<Rightarrow> bytes \<Rightarrow> rpc"
  ccCallContractCreation :: "(bytes \<Rightarrow> rpc) option"

text \<open>A resolver gives a client or nil for a chain; the adapter's own resolver may be nil.\<close>

type_synonym Resolver = "bytes \<Rightarrow> ChainClient option"

section \<open>Signatures\<close>

text \<open>\<open>fmt.Sprintf("%d", n)\<close>.\<close>

definition fmt_d :: "int \<Rightarrow> bytes" where
  "fmt_d n = append_int n 1"

definition evm_err :: "string \<Rightarrow> sentinel \<Rightarrow> 'a res" where
  "evm_err f s = Err (Errorf f [] [Sentinel s])"

definition evm_rpc_err :: "string \<Rightarrow> gerror \<Rightarrow> 'a res" where
  "evm_rpc_err f e = Err (Errorf f [] [Sentinel ErrRPC, e])"

definition verifyEIP191 :: "SiweLib \<Rightarrow> SiweMsg \<Rightarrow> bytes \<Rightarrow> unit res" where
  "verifyEIP191 L parsed sig =
     (let sigHex = ''0x'' @ hex_EncodeToString sig in
      if \<not> lVerifyEIP191 L parsed sigHex then Err (wrap ErrBadSignature) else Ok ())"

definition validateERC6492 ::
  "SiweLib \<Rightarrow> (bytes \<Rightarrow> rpc) \<Rightarrow> bytes \<Rightarrow> bytes \<Rightarrow> bytes \<Rightarrow> unit res" where
  "validateERC6492 L dc signer hash wrappedSig =
     (let h = rightSizedWord hash in
      case lPack L signer h wrappedSig of
        None \<Rightarrow> evm_err ''evm: encode ERC-6492 validation call: %w'' ErrContractValidationFailed
      | Some encoded \<Rightarrow>
          (case dc (lValidatorCode L @ encoded) of
             Inl e \<Rightarrow> evm_rpc_err ''evm: ERC-6492 deployless validation rpc failed: %w: %w'' e
           | Inr ret \<Rightarrow>
               if length ret = 1 \<and> ret ! 0 = CHR 0x01 then Ok ()
               else evm_err ''evm: ERC-6492 signature invalid: %w'' ErrContractValidationFailed))"

definition verifySignature ::
  "SiweLib \<Rightarrow> Resolver option \<Rightarrow> SiweMsg \<Rightarrow> bytes \<Rightarrow> unit res" where
  "verifySignature L resolver parsed sig =
     (let hash = lTextHash L (lString L parsed);
          client = (case resolver of
            None \<Rightarrow> None | Some clientFor \<Rightarrow> clientFor (''eip155:'' @ fmt_d (swChainID parsed)));
          addr = swAddress parsed
      in if hasERC6492Suffix sig
         then (case Option.bind client ccCallContractCreation of
             None \<Rightarrow> evm_err ''evm: ERC-6492 signature needs a deployless-capable chain client: %w''
                       ErrContractWalletUnsupported
           | Some dc \<Rightarrow> validateERC6492 L dc addr hash sig)
         else (case client of
             None \<Rightarrow> verifyEIP191 L parsed sig
           | Some cl \<Rightarrow>
               (case ccCodeAt cl addr of
                  Inl e \<Rightarrow> evm_rpc_err ''evm: code lookup failed: %w: %w'' e
                | Inr code \<Rightarrow>
                    if length code = 0 then verifyEIP191 L parsed sig
                    else (case ccCallContract cl addr (erc1271Calldata hash sig) of
                        Inl e \<Rightarrow>
                          evm_rpc_err ''evm: contract signature validation rpc failed: %w: %w'' e
                      | Inr ret \<Rightarrow>
                          if length ret \<ge> length erc1271MagicValue
                             \<and> ConstantTimeCompare (take 4 ret) erc1271MagicValue = 1
                          then Ok ()
                          else evm_err
                            ''evm: ERC-1271 isValidSignature returned invalid magic value: %w''
                            ErrContractValidationFailed))))"

section \<open>The adapter\<close>

definition parseISO8601 :: "bytes \<Rightarrow> instant option" where
  "parseISO8601 = first_layout [RFC3339Nano, RFC3339, layout_ms_Z]"

definition mapParseErr :: "gerror option \<Rightarrow> gerror option" where
  "mapParseErr err = (case err of None \<Rightarrow> None | Some _ \<Rightarrow> Some (Sentinel ErrMalformed))"

definition evm_domain :: "VerifyOpts \<Rightarrow> SiweMsg \<Rightarrow> unit res" where
  "evm_domain opts m =
     (if voExpectedDomain opts = [] \<or> swDomain m \<noteq> voExpectedDomain opts
      then Err (wrap ErrDomainMismatch) else Ok ())"

definition evm_not_before :: "instant \<Rightarrow> SiweMsg \<Rightarrow> unit res" where
  "evm_not_before now m =
     (case swNotBefore m of
        None \<Rightarrow> Ok ()
      | Some nb \<Rightarrow> (case parseISO8601 nb of
            None \<Rightarrow> Err (wrap ErrMalformed)
          | Some t \<Rightarrow> if Before now t then Err (wrap ErrNotYetValid) else Ok ()))"

definition evm_expiry :: "instant \<Rightarrow> SiweMsg \<Rightarrow> unit res" where
  "evm_expiry now m =
     (case swExpirationTime m of
        None \<Rightarrow> Ok ()
      | Some e \<Rightarrow> (case parseISO8601 e of
            None \<Rightarrow> Err (wrap ErrMalformed)
          | Some t \<Rightarrow> if \<not> Before now t then Err (wrap ErrExpired) else Ok ()))"

definition evm_nonce :: "VerifyOpts \<Rightarrow> SiweMsg \<Rightarrow> unit res" where
  "evm_nonce opts m =
     (if ConstantTimeCompare (swNonce m) (voExpectedNonce opts) \<noteq> 1
      then Err (wrap ErrNonceMismatch) else Ok ())"

definition evm_checks :: "VerifyOpts \<Rightarrow> instant \<Rightarrow> SiweMsg \<Rightarrow> (CheckName \<times> unit res) list" where
  "evm_checks opts now m =
     [(CheckDomain, evm_domain opts m), (CheckNotBefore, evm_not_before now m),
      (CheckExpiry, evm_expiry now m), (CheckNonce, evm_nonce opts m)]"

definition evm_identity :: "SiweLib \<Rightarrow> SiweMsg \<Rightarrow> Identity" where
  "evm_identity L m =
     \<lparr>idAccount = \<lparr>cChainID = \<lparr>cNamespace = ''eip155'', cReference = fmt_d (swChainID m)\<rparr>,
                   cAddress = lHex L (swAddress m)\<rparr>,
      idDomain = swDomain m, idNonce = swNonce m,
      idIssuedAt = (case parseISO8601 (swIssuedAt m) of
          Some t \<Rightarrow> t | None \<Rightarrow> date_instant 1 1 1 0 0 0 0),
      idExpiresAt = (case swExpirationTime m of None \<Rightarrow> None | Some e \<Rightarrow> parseISO8601 e)\<rparr>"

definition evm_Verify ::
  "panics \<Rightarrow> SiweLib \<Rightarrow> Resolver option \<Rightarrow> bytes \<Rightarrow> bytes \<Rightarrow> VerifyOpts \<Rightarrow> Identity run" where
  "evm_Verify pan L resolver msg sig opts =
     (let obs = voObserver opts; i = voAttemptID opts; parsed = lParseMessage L msg;
          parseErr = (case parsed of Inl e \<Rightarrow> Some e | Inr _ \<Rightarrow> None) in
      bind_run (notify pan obs
          (ParseResult i (parseErr = None) (mapParseErr parseErr) (length msg))) (\<lambda>_.
      case parsed of
        Inl e \<Rightarrow> lift_run (Err (wrap ErrMalformed))
      | Inr m \<Rightarrow>
          bind_run (lift_run (read_clock opts 0)) (\<lambda>now.
          bind_run (check_loop pan opts (evm_checks opts now m)) (\<lambda>_.
          bind_run (catch_err (lift_run (verifySignature L resolver m sig))) (\<lambda>sigErr.
          bind_run (notify pan obs (CheckResult i CheckSignature (error_of sigErr = None))) (\<lambda>_.
          case sigErr of
            Err e \<Rightarrow> lift_run (Err e)
          | Panic \<Rightarrow> lift_run Panic
          | Ok _ \<Rightarrow> lift_run (Ok (evm_identity L m))))))))"

definition evm_New :: "panics \<Rightarrow> SiweLib \<Rightarrow> Resolver option \<Rightarrow> Verifier" where
  "evm_New pan L resolver =
     \<lparr>vNamespace = ''eip155'', vVerify = evm_Verify pan L resolver\<rparr>"

section \<open>The outcome of a verification\<close>

text \<open>The validity window, on the texts of the two timestamps.\<close>

definition evm_in_window :: "SiweMsg \<Rightarrow> instant \<Rightarrow> bool" where
  "evm_in_window m now \<longleftrightarrow>
     opt_ok (\<lambda>s. case parseISO8601 s of None \<Rightarrow> False | Some t \<Rightarrow> t \<le> now) (swNotBefore m)
     \<and> opt_ok (\<lambda>s. case parseISO8601 s of None \<Rightarrow> False | Some t \<Rightarrow> now < t) (swExpirationTime m)"

lemma evm_checks_Ok:
  "first_failure (evm_checks opts now m) = Ok () \<longleftrightarrow>
     voExpectedDomain opts \<noteq> [] \<and> swDomain m = voExpectedDomain opts
     \<and> evm_in_window m now \<and> swNonce m = voExpectedNonce opts"
  by (auto simp: evm_checks_def evm_domain_def evm_not_before_def evm_expiry_def evm_nonce_def
      evm_in_window_def opt_ok_def Before_def ConstantTimeCompare_def res_simps
      split: option.splits if_splits)

lemma evm_checks_no_panic:
  "\<forall>r \<in> {evm_domain opts m, evm_not_before now m, evm_expiry now m, evm_nonce opts m}. r \<noteq> Panic"
  by (auto simp: evm_domain_def evm_not_before_def evm_expiry_def evm_nonce_def split: option.split)

lemma evm_checks_known:
  "first_failure (evm_checks opts now m) = Err e \<Longrightarrow> \<exists>s \<in> set siwx_sentinels. errors_Is e s"
  by (auto simp: evm_checks_def evm_domain_def evm_not_before_def evm_expiry_def evm_nonce_def
      siwx_sentinels_def res_simps split: if_splits option.splits)

definition evm_client :: "Resolver option \<Rightarrow> SiweMsg \<Rightarrow> ChainClient option" where
  "evm_client resolver m = (case resolver of
     None \<Rightarrow> None | Some clientFor \<Rightarrow> clientFor (''eip155:'' @ fmt_d (swChainID m)))"

lemma verifySignature_not_Panic: "verifySignature L resolver m sig \<noteq> Panic"
  by (auto simp: verifySignature_def validateERC6492_def verifyEIP191_def evm_err_def
      evm_rpc_err_def Let_def split: option.split sum.split)

lemma verifySignature_known:
  "verifySignature L resolver m sig = Err e \<Longrightarrow> \<exists>s \<in> set siwx_sentinels. errors_Is e s"
  by (auto simp: verifySignature_def validateERC6492_def verifyEIP191_def evm_err_def
      evm_rpc_err_def siwx_sentinels_def Let_def split: option.splits sum.splits if_splits)

text \<open>Who authorised the message, by the three kinds of wallet.\<close>

definition deployless_valid :: "SiweLib \<Rightarrow> ChainClient option \<Rightarrow> SiweMsg \<Rightarrow> bytes \<Rightarrow> bool" where
  "deployless_valid L client m sig \<longleftrightarrow>
     (\<exists>cl dc enc. client = Some cl \<and> ccCallContractCreation cl = Some dc
        \<and> lPack L (swAddress m) (rightSizedWord (lTextHash L (lString L m))) sig = Some enc
        \<and> dc (lValidatorCode L @ enc) = Inr [CHR 0x01])"

definition eoa_valid :: "SiweLib \<Rightarrow> ChainClient option \<Rightarrow> SiweMsg \<Rightarrow> bytes \<Rightarrow> bool" where
  "eoa_valid L client m sig \<longleftrightarrow>
     (client = None \<or> (\<exists>cl. client = Some cl \<and> ccCodeAt cl (swAddress m) = Inr []))
     \<and> lVerifyEIP191 L m (''0x'' @ hex_EncodeToString sig)"

definition contract_valid :: "SiweLib \<Rightarrow> ChainClient option \<Rightarrow> SiweMsg \<Rightarrow> bytes \<Rightarrow> bool" where
  "contract_valid L client m sig \<longleftrightarrow>
     (\<exists>cl code ret. client = Some cl \<and> ccCodeAt cl (swAddress m) = Inr code \<and> code \<noteq> []
        \<and> ccCallContract cl (swAddress m) (erc1271Calldata (lTextHash L (lString L m)) sig) = Inr ret
        \<and> has_prefix ret erc1271MagicValue)"

definition authorized :: "SiweLib \<Rightarrow> Resolver option \<Rightarrow> SiweMsg \<Rightarrow> bytes \<Rightarrow> bool" where
  "authorized L resolver m sig \<longleftrightarrow>
     (let client = evm_client resolver m in
      if hasERC6492Suffix sig then deployless_valid L client m sig
      else eoa_valid L client m sig \<or> contract_valid L client m sig)"

lemma single_byte: "length ret = 1 \<and> ret ! 0 = c \<longleftrightarrow> ret = [c]"
  by (cases ret) auto

lemma validateERC6492_Ok:
  "validateERC6492 L dc a h sig = Ok () \<longleftrightarrow>
     (\<exists>enc. lPack L a (rightSizedWord h) sig = Some enc \<and> dc (lValidatorCode L @ enc) = Inr [CHR 0x01])"
  unfolding validateERC6492_def single_byte Let_def
  by (auto simp: evm_err_def evm_rpc_err_def split: option.split sum.split)

lemma magic_prefix:
  "length ret \<ge> length erc1271MagicValue \<and> ConstantTimeCompare (take 4 ret) erc1271MagicValue = 1
     \<longleftrightarrow> has_prefix ret erc1271MagicValue"
proof -
  have "length erc1271MagicValue = 4" by code_simp
  then show ?thesis by (auto simp: ConstantTimeCompare_def has_prefix_def)
qed

lemma verifyEIP191_Ok:
  "verifyEIP191 L m sig = Ok () \<longleftrightarrow> lVerifyEIP191 L m (''0x'' @ hex_EncodeToString sig)"
  by (simp add: verifyEIP191_def Let_def)

lemma verifySignature_Ok: "verifySignature L resolver m sig = Ok () \<longleftrightarrow> authorized L resolver m sig"
proof -
  define client where "client = evm_client resolver m"
  show ?thesis
    unfolding verifySignature_def authorized_def magic_prefix Let_def
      evm_client_def [symmetric] client_def [symmetric]
    by (cases client)
       (auto simp: validateERC6492_Ok verifyEIP191_Ok deployless_valid_def eoa_valid_def
          contract_valid_def evm_err_def evm_rpc_err_def split: option.split sum.split)
qed

definition evm_spec ::
  "SiweLib \<Rightarrow> Resolver option \<Rightarrow> instant \<Rightarrow> bytes \<Rightarrow> bytes \<Rightarrow> VerifyOpts \<Rightarrow> Identity res" where
  "evm_spec L resolver now msg sig opts =
     (case lParseMessage L msg of
        Inl _ \<Rightarrow> Err (wrap ErrMalformed)
      | Inr m \<Rightarrow> bind_res (first_failure (evm_checks opts now m)) (\<lambda>_.
          bind_res (verifySignature L resolver m sig) (\<lambda>_. Ok (evm_identity L m))))"

lemma evm_Verify_eq_spec:
  assumes r: "ready pan opts" and c: "voClock opts = Some c"
  shows "snd (evm_Verify pan L resolver msg sig opts) = evm_spec L resolver (c 0) msg sig opts"
proof -
  obtain ob where ob: "voObserver opts = Some ob" "quiet pan ob" using r by (auto simp: ready_def)
  show ?thesis
  proof (cases "lParseMessage L msg")
    case (Inr m)
    show ?thesis
      using ob c snd_check_loop_ready [OF r]
      by (cases "verifySignature L resolver m sig")
         (simp_all add: evm_Verify_def evm_spec_def Inr Let_def read_clock_def)
  qed (simp add: evm_Verify_def evm_spec_def ob Let_def)
qed

section \<open>The contract of a verifier\<close>

lemma evm_Ok_inv:
  assumes "snd (evm_Verify pan L resolver msg sig opts) = Ok i"
  obtains m now where "lParseMessage L msg = Inr m" "first_failure (evm_checks opts now m) = Ok ()"
    "i = evm_identity L m"
proof -
  from assms obtain m now where m: "lParseMessage L msg = Inr m"
    and "snd (check_loop pan opts (evm_checks opts now m)) = Ok ()" and "i = evm_identity L m"
    by (cases "lParseMessage L msg")
       (auto simp: evm_Verify_def Let_def res_simps split: res.splits)
  moreover from this(2) have "first_failure (evm_checks opts now m) = Ok ()"
    using snd_check_loop [of pan opts "evm_checks opts now m"] by auto
  ultimately show ?thesis using that by blast
qed

lemma evm_Err_known:
  assumes "snd (evm_Verify pan L resolver msg sig opts) = Err e"
  shows "\<exists>s \<in> set siwx_sentinels. errors_Is e s"
proof -
  consider (parse) "e = wrap ErrMalformed"
    | (check) now m where "snd (check_loop pan opts (evm_checks opts now m)) = Err e"
    | (sig) m where "verifySignature L resolver m sig = Err e"
    using assms by (cases "lParseMessage L msg")
       (auto simp: evm_Verify_def Let_def res_simps read_clock_def split: res.splits option.splits)
  then show ?thesis
  proof cases
    case parse
    then show ?thesis by (simp add: siwx_sentinels_def)
  next
    case (check now m)
    then show ?thesis
      using snd_check_loop [of pan opts "evm_checks opts now m"] evm_checks_known by auto
  qed (rule verifySignature_known)
qed

lemma evm_events: "inner_run (voAttemptID opts) (evm_Verify pan L resolver msg sig opts)"
  unfolding evm_Verify_def Let_def
  by (rule inner_run_intros inner_run_notify inner_run_check_loop refl
      | split res.split sum.split, intro conjI allI impI)+

interpretation evm: verifier pan "evm_New pan L resolver"
proof unfold_locales
  fix opts msg sig
  assume r: "ready pan opts"
  then obtain c where c: "voClock opts = Some c" by (auto simp: ready_def)
  have np: "first_failure (evm_checks opts now m) \<noteq> Panic" for now m
    using evm_checks_no_panic [of opts m now] by (auto simp: evm_checks_def res_simps)
  show "snd (vVerify (evm_New pan L resolver) msg sig opts) \<noteq> Panic"
    using evm_Verify_eq_spec [OF r c, of L resolver msg sig] np verifySignature_not_Panic
    by (simp add: evm_New_def evm_spec_def res_simps split: sum.split)
  fix ob assume "quiet pan ob"
  then have r': "ready pan (opts\<lparr>voObserver := Some ob\<rparr>)" using r by (simp add: ready_def)
  have "evm_spec L resolver now msg sig (opts\<lparr>voObserver := Some ob\<rparr>)
      = evm_spec L resolver now msg sig opts" for now
    by (simp add: evm_spec_def evm_checks_def evm_domain_def evm_nonce_def cong: sum.case_cong)
  then show "snd (vVerify (evm_New pan L resolver) msg sig (opts\<lparr>voObserver := Some ob\<rparr>))
      = snd (vVerify (evm_New pan L resolver) msg sig opts)"
    using evm_Verify_eq_spec [OF r c] evm_Verify_eq_spec [OF r'] c by (simp add: evm_New_def)
next
  fix msg sig opts i
  assume "snd (vVerify (evm_New pan L resolver) msg sig opts) = Ok i"
  then obtain m now where "first_failure (evm_checks opts now m) = Ok ()" "i = evm_identity L m"
    by (auto simp: evm_New_def elim: evm_Ok_inv)
  then show "voExpectedDomain opts \<noteq> [] \<and> idDomain i = voExpectedDomain opts
      \<and> idNonce i = voExpectedNonce opts
      \<and> cNamespace (cChainID (idAccount i)) = vNamespace (evm_New pan L resolver)"
    by (auto simp: evm_checks_Ok evm_identity_def evm_New_def)
qed (auto simp: evm_New_def intro: evm_Err_known dest: inner_runD [OF evm_events])

section \<open>The events of a verification\<close>

lemma evm_trace:
  assumes ob: "voObserver opts = Some (External n)" "\<forall>e. \<not> pan n e" and c: "voClock opts = Some c"
  shows "trace_ok (voAttemptID opts) (length msg)
     (events_of (fst (evm_Verify pan L resolver msg sig opts)))
     (snd (evm_Verify pan L resolver msg sig opts))"
proof (cases "lParseMessage L msg")
  case (Inl e)
  then show ?thesis
    using ob by (simp add: evm_Verify_def Let_def trace_ok_def mapParseErr_def)
next
  case (Inr m)
  let ?i = "voAttemptID opts"
  let ?cs = "evm_checks opts (c 0) m"
  have q: "quiet pan (External n)" using ob by simp
  then have r: "ready pan opts" using ob c by (auto simp: ready_def)
  have ce: "events_of (fst (check_loop pan opts ?cs)) = check_events ?i ?cs"
    using events_check_loop [of opts n pan ?cs] ob by (simp add: events_of_def comp_def)
  have run: "evm_Verify pan L resolver msg sig opts =
     bind_run ([(n, ParseResult ?i True None (length msg))], Ok ()) (\<lambda>_.
     bind_run (check_loop pan opts ?cs) (\<lambda>_.
        bind_run (catch_err (lift_run (verifySignature L resolver m sig))) (\<lambda>sigErr.
        bind_run ([(n, CheckResult ?i CheckSignature (error_of sigErr = None))], Ok ()) (\<lambda>_.
        case sigErr of
          Err e \<Rightarrow> lift_run (Err e)
        | Panic \<Rightarrow> lift_run Panic
        | Ok _ \<Rightarrow> lift_run (Ok (evm_identity L m))))))"
    using q unfolding evm_Verify_def Let_def Inr
    by (simp add: ob mapParseErr_def read_clock_def c)
  note snd_check_loop_ready [OF r, of ?cs, simp]
  consider (pass) "first_failure ?cs = Ok ()" "check_events ?i ?cs = passed ?i 4"
    | (stop) k e where "k < 4" "first_failure ?cs = Err e"
        "check_events ?i ?cs = passed ?i k @ [CheckResult ?i (check_order ! k) False]"
    using four_checks [OF evm_checks_no_panic, of opts m "c 0" ?i] unfolding evm_checks_def by blast
  then show ?thesis
  proof cases
    case pass
    then have loop: "snd (check_loop pan opts ?cs) = Ok ()" by simp
    show ?thesis
      unfolding run using pass(2) ce verifySignature_not_Panic [of L resolver m sig]
      by (cases "verifySignature L resolver m sig")
         (auto simp: bind_run_snd(1) [OF loop] trace_ok_def passed_5 take_check_order
            intro!: exI [of _ 4])
  next
    case stop
    then have loop: "snd (check_loop pan opts ?cs) = Err e" by simp
    show ?thesis
      unfolding run using stop ce
      by (auto simp: bind_run_snd(2) [OF loop] trace_ok_def intro!: exI [of _ k])
  qed
qed

section \<open>Properties\<close>

text \<open>C15. What the EVM adapter accepts, with the one clock reading it takes: an identity exactly
  when siwe-go parses the message, the domain and the nonce are the expected ones, both
  timestamps parse and enclose the reading, the signature stage authorises it, and the
  identity is the message's.\<close>

theorem evm_accepts_iff:
  assumes "ready pan opts" and "voClock opts = Some c"
  shows "snd (evm_Verify pan L resolver msg sig opts) = Ok i \<longleftrightarrow>
     (\<exists>m. lParseMessage L msg = Inr m \<and> i = evm_identity L m
        \<and> voExpectedDomain opts \<noteq> [] \<and> swDomain m = voExpectedDomain opts
        \<and> evm_in_window m (c 0) \<and> swNonce m = voExpectedNonce opts
        \<and> authorized L resolver m sig)"
  unfolding evm_Verify_eq_spec [OF assms]
  by (auto simp: evm_spec_def res_simps evm_checks_Ok verifySignature_Ok split: sum.split)

definition sample_siwe :: SiweMsg where
  "sample_siwe =
     \<lparr>swDomain = ''example.com'', swNotBefore = None, swExpirationTime = None,
      swNonce = ''abcd1234'', swChainID = 1, swAddress = replicate 20 (CHR ''a''), swIssuedAt = []\<rparr>"

definition sample_lib :: SiweLib where
  "sample_lib =
     \<lparr>lParseMessage = (\<lambda>msg. if msg = ''m'' then Inr sample_siwe else Inl (NewError ''bad'')),
      lString = (\<lambda>m. ''m''), lVerifyEIP191 = (\<lambda>m s. s = ''0x6f6b''), lTextHash = id, lHex = id,
      lPack = (\<lambda>a h s. Some (a @ h @ s)), lValidatorCode = []\<rparr>"

definition sample_evm_opts :: VerifyOpts where
  "sample_evm_opts =
     \<lparr>voExpectedDomain = ''example.com'', voExpectedNonce = ''abcd1234'',
      voObserver = Some (External 0), voClock = Some (\<lambda>_. 0), voAttemptID = ''id''\<rparr>"

lemma sample_evm_ready: "ready (\<lambda>_ _. False) sample_evm_opts"
  by (simp add: ready_def sample_evm_opts_def)

lemma sample_authorized: "authorized sample_lib None sample_siwe ''ok''"
proof -
  have "\<not> hasERC6492Suffix ''ok''" by (simp add: hasERC6492Suffix_def)
  moreover have "hex_EncodeToString ''ok'' = ''6f6b''" by code_simp
  ultimately show ?thesis
    by (simp add: authorized_def eoa_valid_def evm_client_def sample_lib_def)
qed

theorem evm_accepts_iff_witness:
  "snd (evm_Verify (\<lambda>_ _. False) sample_lib None ''m'' ''ok'' sample_evm_opts)
     = Ok (evm_identity sample_lib sample_siwe)"
proof -
  have "voClock sample_evm_opts = Some (\<lambda>_. 0)" by (simp add: sample_evm_opts_def)
  moreover have "lParseMessage sample_lib ''m'' = Inr sample_siwe" by (simp add: sample_lib_def)
  moreover have "evm_in_window sample_siwe 0"
    by (simp add: evm_in_window_def sample_siwe_def opt_ok_def)
  ultimately show ?thesis
    using evm_accepts_iff [OF sample_evm_ready] sample_authorized
    by (auto simp: sample_evm_opts_def sample_siwe_def)
qed

text \<open>C7. The signature stage accepts exactly what one kind of wallet authorises. A signature with
  the ERC-6492 suffix is accepted only when a deployless-capable client runs the validator on
  the packed call and it answers the single byte 1; any other signature is an EOA's, checked
  by EIP-191, when there is no client or no code at the address, and else a contract's,
  accepted only when its answer begins with the ERC-1271 magic value.\<close>

theorem evm_signature_authorized: "verifySignature L resolver m sig = Ok () \<longleftrightarrow> authorized L resolver m sig"
  by (rule verifySignature_Ok)

text \<open>Failures are told apart: a chain that could not be asked is always \<open>ErrRPC\<close>, a wrapped
  signature without a capable client is \<open>ErrContractWalletUnsupported\<close>, and without a resolver
  nothing but the EIP-191 check decides on an unwrapped signature.\<close>

theorem evm_signature_failures:
  "(\<not> hasERC6492Suffix sig \<and> evm_client resolver m = Some cl \<and> ccCodeAt cl (swAddress m) = Inl e
      \<longrightarrow> (\<exists>er. verifySignature L resolver m sig = Err er \<and> errors_Is er ErrRPC))
   \<and> (hasERC6492Suffix sig \<and> Option.bind (evm_client resolver m) ccCallContractCreation = None
      \<longrightarrow> (\<exists>er. verifySignature L resolver m sig = Err er
            \<and> (\<forall>t. errors_Is er t \<longleftrightarrow> t = ErrContractWalletUnsupported)))
   \<and> (\<not> hasERC6492Suffix sig \<longrightarrow> verifySignature L None m sig = verifyEIP191 L m sig)"
  unfolding verifySignature_def Let_def evm_client_def [symmetric]
  by (auto simp: evm_rpc_err_def evm_err_def evm_client_def [of None])

theorem evm_signature_failures_witness:
  "verifySignature sample_lib None sample_siwe ''ok'' = verifyEIP191 sample_lib sample_siwe ''ok''"
proof -
  have "\<not> hasERC6492Suffix ''ok''" by (simp add: hasERC6492Suffix_def)
  then show ?thesis using evm_signature_failures [of "''ok''" None sample_siwe] by blast
qed

text \<open>The events of an EVM verification have the same shape as those of a Solana one: parse
  result, then the checks in the fixed order, all passed on success, and on failure all
  passed but the last one reported.\<close>

theorem evm_event_trace:
  assumes "voObserver opts = Some (External n)" and "\<forall>e. \<not> pan n e" and "voClock opts = Some c"
  shows "trace_ok (voAttemptID opts) (length msg)
     (events_of (fst (evm_Verify pan L resolver msg sig opts)))
     (snd (evm_Verify pan L resolver msg sig opts))"
  using assms by (rule evm_trace)

theorem evm_event_trace_witness:
  "trace_ok ''id'' 1 (events_of (fst (evm_Verify (\<lambda>_ _. False) sample_lib None ''m'' ''ok'' sample_evm_opts)))
     (snd (evm_Verify (\<lambda>_ _. False) sample_lib None ''m'' ''ok'' sample_evm_opts))"
  using evm_event_trace [of sample_evm_opts 0 "\<lambda>_ _. False" "\<lambda>_. 0" "''m''"]
  by (simp add: sample_evm_opts_def)

end
