(* ===== verification/Dispatch.thy ===== *)
theory Dispatch
  imports SolanaAdapter EvmAdapter
begin

text \<open>
  The registry that \<open>examples/hub/main.go\<close> builds, over the Solana and the EVM verifier, and
  where it sends a verification.
\<close>

section \<open>The registry over both verifiers\<close>

text \<open>The registry the hub builds: one verifier per namespace.\<close>

definition both_verifiers ::
  "panics \<Rightarrow> sentinel list \<Rightarrow> ed_verify \<Rightarrow> SiweLib \<Rightarrow> Resolver option \<Rightarrow> registry" where
  "both_verifiers pan pick ed L resolver =
     Register (Register (NewRegistry []) (solana_New pan pick ed)) (evm_New pan L resolver)"

lemma both_verifiers_lookup:
  "rVerifiers (both_verifiers pan pick ed L resolver) ns =
     (if ns = ''eip155'' then Some (evm_New pan L resolver)
      else if ns = ''solana'' then Some (solana_New pan pick ed) else None)"
  by (auto simp: both_verifiers_def Register_lookup NewRegistry_def evm_New_def solana_New_def)

lemma solana_dispatch:
  assumes "cNamespace c = ''solana''" and "harmless pan opts"
  shows "snd (Registry_Verify pan wall (Some b) (both_verifiers pan pick ed L resolver) c msg sig opts)
     = snd (solana_Verify pan pick ed msg sig (prepared wall b opts))"
  using solana.dispatch [where r = "both_verifiers pan pick ed L resolver" and c = c and opts = opts
      and wall = wall and b = b and msg = msg and sig = sig] assms
  by (simp add: both_verifiers_lookup) (simp add: solana_New_def)

lemma evm_dispatch:
  assumes "cNamespace c = ''eip155''" and "harmless pan opts"
  shows "snd (Registry_Verify pan wall (Some b) (both_verifiers pan pick ed L resolver) c msg sig opts)
     = snd (evm_Verify pan L resolver msg sig (prepared wall b opts))"
  using evm.dispatch [where r = "both_verifiers pan pick ed L resolver" and c = c and opts = opts
      and wall = wall and b = b and msg = msg and sig = sig] assms
  by (simp add: both_verifiers_lookup) (simp add: evm_New_def)

lemma other_dispatch:
  assumes "cNamespace c \<notin> {''solana'', ''eip155''}" and "harmless pan opts"
  shows "snd (Registry_Verify pan wall (Some b) (both_verifiers pan pick ed L resolver) c msg sig opts)
     = Err (unsupported_err (cNamespace c))"
  using assms by (intro Registry_unsupported) (auto simp: both_verifiers_lookup)

lemma registry_solana_Ok:
  assumes "cNamespace c = ''solana''" and "harmless pan opts" and "voClock opts = Some (\<lambda>_. t)"
  shows "snd (Registry_Verify pan wall (Some b) (both_verifiers pan pick ed L resolver) c msg sig opts) = Ok i \<longleftrightarrow>
     (\<exists>m. ParseMessage msg = Ok m \<and> i = solana_identity m
        \<and> voExpectedDomain opts \<noteq> [] \<and> mDomain m = voExpectedDomain opts
        \<and> in_window m t \<and> mNonce m = voExpectedNonce opts \<and> signed_by ed (mAddress m) msg sig)"
proof -
  let ?o = "prepared wall b opts"
  have c: "voClock ?o = Some (\<lambda>_. t)" by (simp add: prepared_def assms(3))
  show ?thesis
    unfolding solana_dispatch [OF assms(1,2)]
      solana_Verify_Ok [OF ready_prepared [OF assms(2)] c]
    by (auto simp: in_window_iff)
qed

lemma sample_registry:
  assumes "cNamespace c = ''solana''"
  shows "snd (Registry_Verify (\<lambda>_ _. False) (\<lambda>_. 0) (Some ''r'')
       (both_verifiers (\<lambda>_ _. False) [] sample_ed sample_lib None) c
       (Message_String sample_message) sample_sig (sample_vopts (\<lambda>_. 0)))
     = Ok (solana_identity sample_message)"
proof -
  note f = sample_facts [OF sample_message_printable sample_message_fields]
  have "harmless (\<lambda>_ _. False) (sample_vopts (\<lambda>_. 0))" "voClock (sample_vopts (\<lambda>_. 0)) = Some (\<lambda>_. 0)"
    by (simp_all add: harmless_def sample_vopts_def)
  from registry_solana_Ok [OF assms this] f sample_message_fields
  show ?thesis by (auto simp: sample_vopts_def)
qed

end
