(* ===== verification/Disclosure.thy ===== *)
theory Disclosure
  imports Dispatch
begin

text \<open>
  What the observer of \<open>siwx/observer.go\<close> learns of a verification by the registry of the hub:
  "identifiers and verdicts only, never message text, never signature bytes"
  (\<open>contracts/contracts.go\<close>, S5 of the threat model). The events are a function of the
  identifiers of the call, the length of the message and one verdict of a fixed finite list,
  so two calls with the same verdict cannot be told apart by their events. The durations that
  the events carry are not modelled, so the statement is about contents and not about timing.
\<close>

datatype call_verdict = Unsupported | Malformed | Failed nat sentinel | Accepted

definition verdicts :: "call_verdict list" where
  "verdicts = Unsupported # Malformed # Accepted
     # concat (map (\<lambda>k. map (Failed k) siwx_sentinels) [0 ..< length check_order])"

fun verdict_sentinel :: "call_verdict \<Rightarrow> sentinel option" where
  "verdict_sentinel Unsupported = Some ErrUnsupportedNamespace"
| "verdict_sentinel Malformed = Some ErrMalformed"
| "verdict_sentinel (Failed k s) = Some s"
| "verdict_sentinel Accepted = None"

fun inner_disclosed :: "bytes \<Rightarrow> nat \<Rightarrow> call_verdict \<Rightarrow> event list" where
  "inner_disclosed i len Unsupported = []"
| "inner_disclosed i len Malformed = [ParseResult i False (Some (Sentinel ErrMalformed)) len]"
| "inner_disclosed i len (Failed k s) =
     ParseResult i True None len # passed i k @ [CheckResult i (check_order ! k) False]"
| "inner_disclosed i len Accepted = ParseResult i True None len # passed i 5"

definition disclosed :: "bytes \<Rightarrow> bytes \<Rightarrow> bytes \<Rightarrow> nat \<Rightarrow> call_verdict \<Rightarrow> event list" where
  "disclosed i ns dm len v =
     VerifyAttempt i ns dm [] # inner_disclosed i len v
       @ [VerifyResult i (v = Accepted) (map_option Sentinel (verdict_sentinel v)) ns]"

text \<open>The verdict agrees with what the caller gets.\<close>

definition verdict_of_result :: "call_verdict \<Rightarrow> 'a res \<Rightarrow> bool" where
  "verdict_of_result v r \<longleftrightarrow>
     (case verdict_sentinel v of
        None \<Rightarrow> \<exists>x. r = Ok x
      | Some s \<Rightarrow> \<exists>e. r = Err e \<and> errors_Is e s)"

lemma length_check_order [simp]: "length check_order = 5"
  by (simp add: check_order_def)

lemma verdicts_Failed: "k < 5 \<Longrightarrow> s \<in> set siwx_sentinels \<Longrightarrow> Failed k s \<in> set verdicts"
  by (auto simp: verdicts_def)

lemma length_verdicts: "length verdicts = 53"
  by (simp add: verdicts_def siwx_sentinels_def check_order_def upt_conv_Cons)

lemma sentinelFor_malformed:
  "errors_Is e ErrMalformed \<Longrightarrow> sentinelFor (Some e) = Some (Sentinel ErrMalformed)"
  by (simp add: sentinelFor_def siwx_sentinels_def)

text \<open>The trace of a verifier, with the sentinel the registry finds in its error, is a verdict.\<close>

lemma trace_verdict:
  assumes tr: "trace_ok i len tr r"
    and known: "\<And>e. r = Err e \<Longrightarrow> \<exists>s \<in> set siwx_sentinels. errors_Is e s"
  shows "\<exists>v \<in> set verdicts. tr = inner_disclosed i len v \<and> verdict_of_result v r
     \<and> (v = Accepted \<longleftrightarrow> error_of r = None)
     \<and> sentinelFor (error_of r) = map_option Sentinel (verdict_sentinel v)"
proof (cases r)
  case (Ok x)
  with tr show ?thesis
    by (intro bexI [of _ Accepted])
       (simp_all add: trace_ok_def verdict_of_result_def verdicts_def)
next
  case Panic
  with tr show ?thesis by (simp add: trace_ok_def)
next
  case (Err e)
  from sentinelFor_known [OF known [OF Err]] obtain s where
    s: "s \<in> set siwx_sentinels" "sentinelFor (Some e) = Some (Sentinel s)" "errors_Is e s" by blast
  consider (malformed) "errors_Is e ErrMalformed" "tr = inner_disclosed i len Malformed"
    | (failed) k where "k < 5" "tr = inner_disclosed i len (Failed k s)"
    using tr by (auto simp: trace_ok_def Err)
  then show ?thesis
  proof cases
    case malformed
    then show ?thesis
      by (intro bexI [of _ Malformed])
         (simp_all add: Err verdict_of_result_def verdicts_def sentinelFor_malformed)
  next
    case failed
    then show ?thesis
      using s verdicts_Failed [of k s]
      by (intro bexI [of _ "Failed k s"]) (simp_all add: Err verdict_of_result_def)
  qed
qed

lemma events_append:
  "events_of ((n, e) # ds @ [(n', e')]) = e # events_of ds @ [e']"
  by (simp add: events_of_def)

context verifier
begin

lemma dispatch_verdict:
  assumes reg: "rVerifiers r (cNamespace c) = Some V"
    and ob: "voObserver opts = Some (External n)" "\<forall>e. \<not> pan n e"
    and tr: "\<And>o' k. voObserver o' = Some (External n) \<Longrightarrow> voClock o' = Some k \<Longrightarrow>
       trace_ok (voAttemptID o') (length msg) (events_of (fst (vVerify V msg sig o'))) (snd (vVerify V msg sig o'))"
  shows "\<exists>v \<in> set verdicts.
     events_of (fst (Registry_Verify pan wall (Some b) r c msg sig opts))
       = disclosed (voAttemptID (prepared wall b opts)) (cNamespace c) (voExpectedDomain opts) (length msg) v
     \<and> verdict_of_result v (snd (Registry_Verify pan wall (Some b) r c msg sig opts))"
proof -
  let ?o = "prepared wall b opts"
  have o: "voObserver ?o = Some (External n)" by (simp add: prepared_def ob)
  obtain k where k: "voClock ?o = Some k" by (simp add: prepared_def)
  have known: "\<exists>s \<in> set siwx_sentinels. errors_Is e s" if "snd (vVerify V msg sig ?o) = Err e" for e
    by (rule known_error [OF that])
  have "\<exists>v \<in> set verdicts. events_of (fst (vVerify V msg sig ?o)) = inner_disclosed (voAttemptID ?o) (length msg) v
      \<and> verdict_of_result v (snd (vVerify V msg sig ?o))
      \<and> (v = Accepted \<longleftrightarrow> error_of (snd (vVerify V msg sig ?o)) = None)
      \<and> sentinelFor (error_of (snd (vVerify V msg sig ?o))) = map_option Sentinel (verdict_sentinel v)"
    by (rule trace_verdict [OF tr [OF o k]]) (rule known)
  then obtain v where v: "v \<in> set verdicts"
      "events_of (fst (vVerify V msg sig ?o)) = inner_disclosed (voAttemptID ?o) (length msg) v"
      "verdict_of_result v (snd (vVerify V msg sig ?o))"
      "v = Accepted \<longleftrightarrow> error_of (snd (vVerify V msg sig ?o)) = None"
      "sentinelFor (error_of (snd (vVerify V msg sig ?o))) = map_option Sentinel (verdict_sentinel v)"
    by (elim bexE conjE) (rule that)
  then show ?thesis
    unfolding dispatch_external [OF reg ob]
    by (intro bexI [of _ v] conjI) (simp_all only: events_append disclosed_def fst_conv snd_conv)
qed

end

section \<open>Properties\<close>

text \<open>C22. The events of a verification by the hub's registry are one of 53 traces fixed by the
  attempt id, the namespace, the expected domain and the length of the message: nothing else of
  the message, of the signature or of the expected nonce reaches an observer. Which trace it is
  says how the call ends.\<close>

theorem events_are_verdicts:
  assumes "voObserver opts = Some (External n)" and "\<forall>e. \<not> pan n e"
  shows "length verdicts = 53 \<and> (\<exists>v \<in> set verdicts.
     events_of (fst (Registry_Verify pan wall (Some b) (both_verifiers pan pick ed L resolver) c msg sig opts))
       = disclosed (voAttemptID (prepared wall b opts)) (cNamespace c) (voExpectedDomain opts) (length msg) v
     \<and> verdict_of_result v
          (snd (Registry_Verify pan wall (Some b) (both_verifiers pan pick ed L resolver) c msg sig opts)))"
proof -
  let ?r = "both_verifiers pan pick ed L resolver"
  consider (solana) "rVerifiers ?r (cNamespace c) = Some (solana_New pan pick ed)"
    | (evm) "rVerifiers ?r (cNamespace c) = Some (evm_New pan L resolver)"
    | (none) "rVerifiers ?r (cNamespace c) = None"
    using both_verifiers_lookup [of pan pick ed L resolver "cNamespace c"] by metis
  then show ?thesis
  proof cases
    case solana
    then show ?thesis
      using solana.dispatch_verdict [OF solana assms(1,2)] solana_trace assms(2)
      by (simp add: length_verdicts solana_New_def)
  next
    case evm
    then show ?thesis
      using evm.dispatch_verdict [OF evm assms(1,2)] evm_trace assms(2)
      by (simp add: length_verdicts evm_New_def)
  next
    case none
    then show ?thesis unfolding length_verdicts
      by (intro conjI refl bexI [of _ Unsupported])
         (simp_all add: Registry_Verify_def default_attempt_prepared Let_def prepared_def assms(1,2)
            disclosed_def verdict_of_result_def verdicts_def unsupported_err_def events_of_def)
  qed
qed

theorem events_are_verdicts_witness:
  "\<exists>v \<in> set verdicts. events_of (fst (Registry_Verify (\<lambda>_ _. False) (\<lambda>_. 0) (Some ''r'')
      (both_verifiers (\<lambda>_ _. False) [] sample_ed sample_lib None)
      \<lparr>cNamespace = ''solana'', cReference = ''mainnet''\<rparr> ''m'' ''s'' (sample_vopts (\<lambda>_. 0))))
    = disclosed ''id'' ''solana'' ''example.com'' 1 v"
  using events_are_verdicts [of "sample_vopts (\<lambda>_. 0)" 0 "\<lambda>_ _. False" "\<lambda>_. 0" "''r''" "[]" sample_ed
      sample_lib None "\<lparr>cNamespace = ''solana'', cReference = ''mainnet''\<rparr>" "''m''" "''s''"]
  by (auto simp: sample_vopts_def prepared_def)

end
