(* ===== verification/SingleUse.thy ===== *)
theory SingleUse
  imports Prelude
begin

text \<open>
  The contract \<open>NonceStore\<close> of \<open>contracts/contracts.go\<close>, "issues single-use nonces", as a
  labelled transition system: what any store that keeps two local laws guarantees about
  every sequence of operations on it.
\<close>

datatype nonce_event =
    Issued bytes | IssueFailed
  | Burned bytes | Refused bytes

locale single_use =
  fixes step :: "'s \<Rightarrow> nonce_event \<Rightarrow> 's \<Rightarrow> bool"
    and held :: "'s \<Rightarrow> bytes set"
  assumes burn_removes: "step s (Burned n) s' \<Longrightarrow> n \<in> held s \<and> n \<notin> held s'"
    and only_issue_adds: "step s ev s' \<Longrightarrow> n \<in> held s' \<Longrightarrow> n \<in> held s \<or> ev = Issued n"
begin

inductive run :: "'s \<Rightarrow> nonce_event list \<Rightarrow> 's \<Rightarrow> bool" where
  run_nil: "run s [] s"
| run_cons: "step s ev s' \<Longrightarrow> run s' tr s'' \<Longrightarrow> run s (ev # tr) s''"

inductive_simps run_simps [simp]: "run s [] t" "run s (ev # tr) t"

lemma run_append: "run s (xs @ ys) u \<longleftrightarrow> (\<exists>t. run s xs t \<and> run t ys u)"
  by (induction xs arbitrary: s) auto

lemma held_later: "run s tr t \<Longrightarrow> n \<in> held t \<Longrightarrow> n \<in> held s \<or> Issued n \<in> set tr"
proof (induction rule: run.induct)
  case (run_cons s ev s' tr s'')
  then show ?case using only_issue_adds [OF run_cons.hyps(1), of n] by auto
qed simp

text \<open>A nonce that is burned was held at the start or issued before.\<close>

lemma burned_was_issued:
  assumes "run s (xs @ Burned n # ys) u"
  shows "n \<in> held s \<or> Issued n \<in> set xs"
proof -
  from assms obtain t t' where "run s xs t" "step t (Burned n) t'" by (auto simp: run_append)
  with burn_removes held_later show ?thesis by blast
qed

text \<open>Between two burns of one nonce it is issued again.\<close>

lemma burned_once:
  assumes "run s (xs @ Burned n # ys @ Burned n # zs) u"
  shows "Issued n \<in> set ys"
proof -
  from assms obtain t t' where "step t (Burned n) t'" "run t' (ys @ Burned n # zs) u"
    by (auto simp: run_append)
  with burn_removes burned_was_issued [of t' ys n zs u] show ?thesis by blast
qed

text \<open>Counting: no more burns than issues.\<close>

lemma burns_le_issues:
  "run s tr t \<Longrightarrow>
     count_list tr (Burned n) \<le> count_list tr (Issued n) + (if n \<in> held s then 1 else 0)"
proof (induction rule: run.induct)
  case (run_cons s ev s' tr s'')
  show ?case
  proof (cases "ev = Burned n")
    case True
    then show ?thesis using run_cons.IH burn_removes [of s n s'] run_cons.hyps(1) by auto
  next
    case False
    then show ?thesis
      using run_cons.IH only_issue_adds [OF run_cons.hyps(1), of n] by (auto split: if_splits)
  qed
qed simp

end

end
