(* ===== verification/NonceStore.thy ===== *)
theory NonceStore
  imports GoTime GoHex SingleUse
begin

text \<open>
  \<open>examples/hub/stores.go\<close>, lines 14 to 71: the in-memory store of single-use nonces. The
  mutex makes each operation one step. \<open>clock\<close> gives the times the store's clock returns
  within one operation (\<open>Issue\<close> reads it twice, \<open>Burn\<close> once); \<open>rnd\<close> is what
  \<open>crypto/rand\<close> gives, \<open>None\<close> when it fails.
\<close>

record nonce_store =
  nsEntries :: "bytes \<rightharpoonup> instant"

definition newNonceStore :: nonce_store where
  "newNonceStore = \<lparr>nsEntries = Map.empty\<rparr>"

definition nonce_sweep :: "instant \<Rightarrow> nonce_store \<Rightarrow> nonce_store" where
  "nonce_sweep now s = s\<lparr>nsEntries := (\<lambda>k. case nsEntries s k of
       Some e \<Rightarrow> if After now e then None else Some e
     | None \<Rightarrow> None)\<rparr>"

definition rand_err :: gerror where
  "rand_err = NewError ''crypto/rand''"

definition Issue ::
  "(nat \<Rightarrow> instant) \<Rightarrow> bytes option \<Rightarrow> int \<Rightarrow> nonce_store \<Rightarrow> bytes res \<times> nonce_store" where
  "Issue clock rnd ttl s =
     (case rnd of
        None \<Rightarrow> (Err rand_err, s)
      | Some b \<Rightarrow>
          let nonce = hex_EncodeToString b;
              s = nonce_sweep (clock 0) s;
              s = s\<lparr>nsEntries := (nsEntries s)(nonce \<mapsto> clock 1 + ttl)\<rparr>
          in (Ok nonce, s))"

definition Burn :: "instant \<Rightarrow> bytes \<Rightarrow> nonce_store \<Rightarrow> unit res \<times> nonce_store" where
  "Burn now nonce s =
     (case nsEntries s nonce of
        None \<Rightarrow> (Err (Sentinel ErrNonceMismatch), s)
      | Some e \<Rightarrow>
          let s = s\<lparr>nsEntries := (nsEntries s)(nonce := None)\<rparr> in
          if After now e then (Err (Sentinel ErrNonceMismatch), s) else (Ok (), s))"

section \<open>The operations, branch by branch\<close>

lemma sweep_lookup:
  "nsEntries (nonce_sweep now s) k = Some e \<longleftrightarrow> nsEntries s k = Some e \<and> now \<le> e"
  by (auto simp: nonce_sweep_def After_def split: option.splits)

lemma Issue_Some:
  "Issue clock (Some b) ttl s = (Ok n, s') \<longleftrightarrow>
     n = hex_EncodeToString b
     \<and> s' = s\<lparr>nsEntries := (nsEntries (nonce_sweep (clock 0) s))(n \<mapsto> clock 1 + ttl)\<rparr>"
  by (auto simp: Issue_def Let_def nonce_sweep_def)

lemma Burn_Ok:
  "Burn now n s = (Ok (), s') \<longleftrightarrow>
     (\<exists>e. nsEntries s n = Some e \<and> now \<le> e) \<and> s' = s\<lparr>nsEntries := (nsEntries s)(n := None)\<rparr>"
  by (auto simp: Burn_def After_def Let_def split: option.splits)

lemma Burn_cases:
  "fst (Burn now n s) = Ok () \<or> fst (Burn now n s) = Err (Sentinel ErrNonceMismatch)"
  by (auto simp: Burn_def Let_def split: option.split)

lemma Burn_removes: "nsEntries (snd (Burn now n s)) n = None"
  by (auto simp: Burn_def Let_def split: option.split)

lemma Burn_subset: "nsEntries (snd (Burn now n s)) \<subseteq>\<^sub>m nsEntries s"
  by (auto simp: Burn_def Let_def map_le_def split: option.split)

lemma Burn_other: "k \<noteq> n \<Longrightarrow> nsEntries (snd (Burn now n s)) k = nsEntries s k"
  by (auto simp: Burn_def Let_def split: option.split)

section \<open>The store as a transition system\<close>

inductive nonce_step :: "nonce_store \<Rightarrow> nonce_event \<Rightarrow> nonce_store \<Rightarrow> bool" where
  issue: "Issue clock rnd ttl s = (Ok n, s') \<Longrightarrow> nonce_step s (Issued n) s'"
| issue_failed: "Issue clock rnd ttl s = (Err e, s') \<Longrightarrow> nonce_step s IssueFailed s'"
| burn: "Burn now n s = (Ok (), s') \<Longrightarrow> nonce_step s (Burned n) s'"
| refuse: "Burn now n s = (Err e, s') \<Longrightarrow> nonce_step s (Refused n) s'"

inductive_cases nonce_step_burned: "nonce_step s (Burned n) s'"

definition held_nonces :: "nonce_store \<Rightarrow> bytes set" where
  "held_nonces s = dom (nsEntries s)"

lemma nonce_step_adds:
  assumes "nonce_step s ev s'" and "n \<in> held_nonces s'"
  shows "n \<in> held_nonces s \<or> ev = Issued n"
  using assms
proof cases
  case (issue clock rnd ttl n')
  then obtain b where "rnd = Some b" by (auto simp: Issue_def split: option.splits)
  with issue assms(2) show ?thesis
    by (auto simp: Issue_Some held_nonces_def dom_def sweep_lookup split: if_splits)
next
  case (issue_failed clock rnd ttl e)
  then show ?thesis using assms(2) by (auto simp: Issue_def Let_def split: option.splits)
next
  case (burn now n')
  then show ?thesis using assms(2) by (auto simp: Burn_Ok held_nonces_def split: if_splits)
next
  case (refuse now n' e)
  then have "nsEntries s' \<subseteq>\<^sub>m nsEntries s" using Burn_subset [of now n' s] by simp
  then show ?thesis using assms(2) by (auto simp: held_nonces_def map_le_def dom_def)
qed

interpretation nonces: single_use nonce_step held_nonces
proof unfold_locales
  show "n \<in> held_nonces s \<and> n \<notin> held_nonces s'" if "nonce_step s (Burned n) s'" for s n s'
    using that by (auto elim!: nonce_step_burned simp: Burn_Ok held_nonces_def)
qed (rule nonce_step_adds)

section \<open>Runs of calls\<close>

text \<open>The calls the hub makes, as data, with the clock readings and random bytes they get.\<close>

datatype nonce_call =
    CallIssue "nat \<Rightarrow> instant" "bytes option" int
  | CallBurn instant bytes

primrec nonce_exec :: "nonce_store \<Rightarrow> nonce_call \<Rightarrow> nonce_store" where
  "nonce_exec s (CallIssue clock rnd ttl) = snd (Issue clock rnd ttl s)"
| "nonce_exec s (CallBurn now n) = snd (Burn now n s)"

text \<open>A call that leaves the nonce \<open>n\<close> alone: no burn of it, no other issue of the same text,
  and no sweep after its deadline.\<close>

primrec leaves :: "bytes \<Rightarrow> instant \<Rightarrow> nonce_call \<Rightarrow> bool" where
  "leaves n d (CallIssue clock rnd ttl) \<longleftrightarrow>
     clock 0 \<le> d \<and> (\<forall>b \<in> set_option rnd. hex_EncodeToString b \<noteq> n)"
| "leaves n d (CallBurn now k) \<longleftrightarrow> k \<noteq> n"

lemma nonce_exec_keeps:
  "leaves n d c \<Longrightarrow> nsEntries s n = Some d \<Longrightarrow> nsEntries (nonce_exec s c) n = Some d"
  by (cases c) (auto simp: Issue_def Let_def sweep_lookup Burn_other split: option.split)

lemma nonce_execs_keep:
  "list_all (leaves n d) cs \<Longrightarrow> nsEntries s n = Some d \<Longrightarrow>
     nsEntries (foldl nonce_exec s cs) n = Some d"
  by (induction cs arbitrary: s) (auto simp: nonce_exec_keeps)

lemma Burn_after:
  assumes "nsEntries s n = Some d"
  shows "fst (Burn now n s) = Ok () \<longleftrightarrow> now \<le> d"
  using assms by (auto simp: Burn_def After_def Let_def)

section \<open>Properties\<close>

text \<open>Nonces are single-use: in every sequence of operations on a new store, in whatever
  order and at whatever times, no nonce is burned more often than it was issued, and between
  two burns of one nonce it is issued again.\<close>

theorem nonce_single_use:
  assumes "nonces.run newNonceStore tr s"
  shows "count_list tr (Burned n) \<le> count_list tr (Issued n)
     \<and> (\<forall>xs ys zs. tr = xs @ Burned n # ys @ Burned n # zs \<longrightarrow> Issued n \<in> set xs \<and> Issued n \<in> set ys)"
proof -
  have "n \<notin> held_nonces newNonceStore" by (simp add: held_nonces_def newNonceStore_def)
  then show ?thesis
    using nonces.burns_le_issues [OF assms, of n] nonces.burned_once nonces.burned_was_issued assms
    by fastforce
qed

lemma sample_nonce_run:
  "\<exists>s. nonces.run newNonceStore [Issued ''61'', Burned ''61'', Refused ''61''] s"
proof -
  have "hex_EncodeToString ''a'' = ''61''" by code_simp
  then have i: "Issue (\<lambda>_. 0) (Some ''a'') 5 newNonceStore
      = (Ok ''61'', \<lparr>nsEntries = [''61'' \<mapsto> 5]\<rparr>)"
    by (auto simp: Issue_def Let_def nonce_sweep_def newNonceStore_def)
  have b: "Burn 3 ''61'' \<lparr>nsEntries = [''61'' \<mapsto> 5]\<rparr> = (Ok (), newNonceStore)"
    by (simp add: Burn_def After_def newNonceStore_def)
  have r: "Burn 3 ''61'' newNonceStore = (Err (Sentinel ErrNonceMismatch), newNonceStore)"
    by (simp add: Burn_def newNonceStore_def)
  show ?thesis
    using nonce_step.issue [OF i] nonce_step.burn [OF b] nonce_step.refuse [OF r] by auto
qed

theorem nonce_single_use_witness:
  "count_list [Issued ''61'', Burned ''61'', Refused ''61''] (Burned ''61'')
     \<le> count_list [Issued ''61'', Burned ''61'', Refused ''61''] (Issued ''61'')"
proof -
  from sample_nonce_run obtain s where
    "nonces.run newNonceStore [Issued ''61'', Burned ''61'', Refused ''61''] s" by blast
  from nonce_single_use [OF this] show ?thesis by blast
qed

text \<open>An issued nonce stays usable for exactly its time to live: after any calls that neither
  burn it nor sweep after its deadline, a burn succeeds if and only if the deadline has not
  passed.\<close>

theorem nonce_usable_until_deadline:
  assumes "Issue clock (Some b) ttl s = (Ok n, s')" and "list_all (leaves n (clock 1 + ttl)) cs"
  shows "fst (Burn now n (foldl nonce_exec s' cs)) = Ok () \<longleftrightarrow> now \<le> clock 1 + ttl"
  using assms by (intro Burn_after nonce_execs_keep) (auto simp: Issue_Some)

theorem nonce_usable_until_deadline_witness:
  "fst (Burn 600 ''61'' (foldl nonce_exec (snd (Issue (\<lambda>_. 0) (Some ''a'') 600 newNonceStore))
     [CallBurn 700 ''62'', CallIssue (\<lambda>_. 100) (Some ''b'') 600])) = Ok ()"
proof -
  have h: "hex_EncodeToString ''a'' = ''61''" "hex_EncodeToString ''b'' = ''62''" by code_simp+
  then have i: "Issue (\<lambda>_. 0) (Some ''a'') 600 newNonceStore
      = (Ok ''61'', snd (Issue (\<lambda>_. 0) (Some ''a'') 600 newNonceStore))"
    by (simp add: Issue_def Let_def)
  have l: "list_all (leaves ''61'' (0 + 600)) [CallBurn 700 ''62'', CallIssue (\<lambda>_. 100) (Some ''b'') 600]"
    using h by simp
  show ?thesis by (rule nonce_usable_until_deadline [OF i l, THEN iffD2]) simp
qed

end
