(* ===== verification/IdentityStore.thy ===== *)
theory IdentityStore
  imports Caip GoHex
begin

text \<open>
  \<open>examples/hub/stores.go\<close>, lines 73 to 139: the in-memory map between wallets and
  identities. The mutex makes each operation one step; \<open>Wallets\<close> parses after releasing it,
  on strings it has already read.
\<close>

record identity_store =
  walletToID :: "bytes \<rightharpoonup> bytes"
  idToWallets :: "bytes \<rightharpoonup> bytes list"

definition newIdentityStore :: identity_store where
  "newIdentityStore = \<lparr>walletToID = Map.empty, idToWallets = Map.empty\<rparr>"

definition id_rand_err :: gerror where
  "id_rand_err = NewError ''crypto/rand''"

definition UpsertByWallet ::
  "bytes option \<Rightarrow> CAIP10 \<Rightarrow> identity_store \<Rightarrow> (bytes \<times> bool) res \<times> identity_store" where
  "UpsertByWallet rnd w s =
     (let key = CAIP10_String w in
      case walletToID s key of
        Some i \<Rightarrow> (Ok (i, False), s)
      | None \<Rightarrow>
          (case rnd of
             None \<Rightarrow> (Err id_rand_err, s)
           | Some b \<Rightarrow>
               let i = ''id_'' @ hex_EncodeToString b in
               (Ok (i, True),
                s\<lparr>walletToID := (walletToID s)(key \<mapsto> i),
                  idToWallets := (idToWallets s)(i \<mapsto> [key])\<rparr>)))"

definition LinkWallet ::
  "bytes \<Rightarrow> CAIP10 \<Rightarrow> identity_store \<Rightarrow> unit res \<times> identity_store" where
  "LinkWallet i w s =
     (let key = CAIP10_String w in
      case idToWallets s i of
        None \<Rightarrow> (Err (NewError ''identity not found''), s)
      | Some ws \<Rightarrow>
          if list_ex (\<lambda>existing. existing = key) ws then (Ok (), s)
          else (Ok (), s\<lparr>walletToID := (walletToID s)(key \<mapsto> i),
                         idToWallets := (idToWallets s)(i \<mapsto> ws @ [key])\<rparr>))"

fun parse_all :: "bytes list \<Rightarrow> CAIP10 list \<Rightarrow> CAIP10 list res" where
  "parse_all [] out = Ok out"
| "parse_all (str # strs) out =
     bind_res (ParseCAIP10 str) (\<lambda>c. parse_all strs (out @ [c]))"

definition Wallets :: "bytes \<Rightarrow> identity_store \<Rightarrow> CAIP10 list res" where
  "Wallets i s =
     (let strs = (case idToWallets s i of None \<Rightarrow> [] | Some ws \<Rightarrow> ws) in parse_all strs [])"

section \<open>The invariant\<close>

text \<open>
  Every wallet that resolves to an identity is in that identity's list, and lists are
  non-empty and without duplicates. (The converse, that a listed wallet resolves to the
  identity that lists it, is not kept by linking.)
\<close>

definition ids_wf :: "identity_store \<Rightarrow> bool" where
  "ids_wf s \<longleftrightarrow>
     (\<forall>k i. walletToID s k = Some i \<longrightarrow> (\<exists>ws. idToWallets s i = Some ws \<and> k \<in> set ws))
     \<and> (\<forall>i ws. idToWallets s i = Some ws \<longrightarrow> ws \<noteq> [] \<and> distinct ws)"

lemma ids_wf_new: "ids_wf newIdentityStore"
  by (simp add: ids_wf_def newIdentityStore_def)

text \<open>The random id is fresh: no identity has it yet.\<close>

definition fresh_id :: "bytes option \<Rightarrow> identity_store \<Rightarrow> bool" where
  "fresh_id rnd s \<longleftrightarrow> (\<forall>b \<in> set_option rnd. idToWallets s (''id_'' @ hex_EncodeToString b) = None)"

lemma ids_wf_Upsert:
  assumes "ids_wf s" and "fresh_id rnd s"
  shows "ids_wf (snd (UpsertByWallet rnd w s))"
proof (cases "walletToID s (CAIP10_String w)")
  case None
  show ?thesis
  proof (cases rnd)
    case (Some b)
    have "walletToID s k \<noteq> Some (''id_'' @ hex_EncodeToString b)" for k
      using assms Some by (force simp: ids_wf_def fresh_id_def)
    then show ?thesis
      using assms None Some by (auto simp: UpsertByWallet_def Let_def ids_wf_def)
  qed (use assms None in \<open>simp add: UpsertByWallet_def Let_def\<close>)
qed (use assms in \<open>simp add: UpsertByWallet_def Let_def\<close>)

lemma ids_wf_Link: "ids_wf s \<Longrightarrow> ids_wf (snd (LinkWallet i w s))"
  by (auto simp: LinkWallet_def Let_def ids_wf_def list_ex_iff split: option.split)
     (metis option.inject)

section \<open>What the operations return\<close>

lemma Upsert_resolves:
  "fst (UpsertByWallet rnd w s) = Ok (i, created) \<Longrightarrow>
     walletToID (snd (UpsertByWallet rnd w s)) (CAIP10_String w) = Some i
     \<and> (created \<longleftrightarrow> walletToID s (CAIP10_String w) = None)"
  by (auto simp: UpsertByWallet_def Let_def split: option.splits)

lemma Upsert_known:
  "walletToID s (CAIP10_String w) = Some i \<Longrightarrow> UpsertByWallet rnd w s = (Ok (i, False), s)"
  by (simp add: UpsertByWallet_def Let_def)

lemma parse_all_append: "parse_all strs out = bind_res (parse_all strs []) (\<lambda>cs. Ok (out @ cs))"
proof (induction strs arbitrary: out)
  case (Cons str strs)
  show ?case
    using Cons.IH [of "out @ [c]" for c] Cons.IH [of "[c]" for c]
    by (cases "ParseCAIP10 str") (simp_all add: bind_res_assoc)
qed simp

lemma parse_all_valid:
  "list_all valid_CAIP10 ws \<Longrightarrow> parse_all (map CAIP10_String ws) [] = Ok ws"
  by (induction ws) (simp_all add: caip10.dec_enc parse_all_append [of _ "[c]" for c])

lemma parse_all_Ok: "parse_all strs [] = Ok ws \<Longrightarrow> map CAIP10_String ws = strs \<and> list_all valid_CAIP10 ws"
  by (induction strs arbitrary: ws)
     (auto simp: parse_all_append [of _ "[c]" for c] res_simps caip10.dec_iff)

section \<open>Histories\<close>

text \<open>The states the hub can reach: each new identity gets an id nobody has.\<close>

inductive ids_reach :: "identity_store \<Rightarrow> bool" where
  reach_new: "ids_reach newIdentityStore"
| reach_upsert: "ids_reach s \<Longrightarrow> fresh_id rnd s \<Longrightarrow> ids_reach (snd (UpsertByWallet rnd w s))"
| reach_link: "ids_reach s \<Longrightarrow> ids_reach (snd (LinkWallet i w s))"

lemma ids_reach_wf: "ids_reach s \<Longrightarrow> ids_wf s"
  by (induction rule: ids_reach.induct) (simp_all add: ids_wf_new ids_wf_Upsert ids_wf_Link)

datatype ids_call = CallUpsert "bytes option" CAIP10 | CallLink bytes CAIP10

primrec ids_exec :: "identity_store \<Rightarrow> ids_call \<Rightarrow> identity_store" where
  "ids_exec s (CallUpsert rnd w) = snd (UpsertByWallet rnd w s)"
| "ids_exec s (CallLink i w) = snd (LinkWallet i w s)"

text \<open>A call that does not link the wallet text \<open>k\<close> to another identity than \<open>i\<close>.\<close>

primrec keeps_owner :: "bytes \<Rightarrow> bytes \<Rightarrow> ids_call \<Rightarrow> bool" where
  "keeps_owner k i (CallUpsert rnd w) \<longleftrightarrow> True"
| "keeps_owner k i (CallLink j w) \<longleftrightarrow> CAIP10_String w = k \<longrightarrow> j = i"

lemma ids_exec_keeps:
  "keeps_owner k i c \<Longrightarrow> walletToID s k = Some i \<Longrightarrow> walletToID (ids_exec s c) k = Some i"
  by (cases c) (auto simp: UpsertByWallet_def LinkWallet_def Let_def split: option.split)

lemma ids_execs_keep:
  "list_all (keeps_owner k i) cs \<Longrightarrow> walletToID s k = Some i \<Longrightarrow>
     walletToID (foldl ids_exec s cs) k = Some i"
  by (induction cs arbitrary: s) (auto simp: ids_exec_keeps)

section \<open>Properties\<close>

text \<open>In every reachable store, each wallet that resolves to an identity stands in that
  identity's list, and the lists are non-empty and free of duplicates.\<close>

theorem identity_store_invariant:
  assumes "ids_reach s"
  shows "ids_wf s"
  using assms by (rule ids_reach_wf)

definition wallet_of :: "bytes \<Rightarrow> CAIP10" where
  "wallet_of a = \<lparr>cChainID = \<lparr>cNamespace = ''solana'', cReference = ''mainnet''\<rparr>, cAddress = a\<rparr>"

theorem identity_store_invariant_witness:
  "ids_wf (snd (LinkWallet ''id_61'' (wallet_of ''B'')
     (snd (UpsertByWallet (Some ''a'') (wallet_of ''A'') newIdentityStore))))"
  by (intro identity_store_invariant ids_reach.intros)
     (simp add: fresh_id_def newIdentityStore_def)

text \<open>C30. A wallet keeps its identity: once a sign-in resolves it to \<open>i\<close>, every later sign-in
  does, creating nothing, whatever other wallets do, until the wallet itself is linked to
  another identity.\<close>

theorem wallet_keeps_identity:
  assumes "fst (UpsertByWallet rnd w s) = Ok (i, created)"
    and "list_all (keeps_owner (CAIP10_String w) i) cs"
  shows "UpsertByWallet rnd' w (foldl ids_exec (snd (UpsertByWallet rnd w s)) cs)
     = (Ok (i, False), foldl ids_exec (snd (UpsertByWallet rnd w s)) cs)"
  using ids_execs_keep [OF assms(2)] Upsert_resolves [OF assms(1)] by (simp add: Upsert_known)

theorem wallet_keeps_identity_witness:
  "fst (UpsertByWallet None (wallet_of ''A'')
     (foldl ids_exec (snd (UpsertByWallet (Some ''a'') (wallet_of ''A'') newIdentityStore))
        [CallUpsert (Some ''b'') (wallet_of ''B''), CallLink ''id_61'' (wallet_of ''A'')]))
   = Ok (''id_61'', False)"
proof -
  have "hex_EncodeToString ''a'' = ''61''" by code_simp
  then have "fst (UpsertByWallet (Some ''a'') (wallet_of ''A'') newIdentityStore) = Ok (''id_61'', True)"
    by (simp add: UpsertByWallet_def Let_def newIdentityStore_def)
  from wallet_keeps_identity [OF this, of "[CallUpsert (Some ''b'') (wallet_of ''B''),
      CallLink ''id_61'' (wallet_of ''A'')]" None]
  show ?thesis by simp
qed

text \<open>Linking a wallet that already has an identity moves its resolution but not its listing:
  there is a reachable store in which one wallet is listed under two identities, so tokens of
  both claim it.\<close>

theorem linked_wallet_stays_listed:
  "\<exists>s i j ws vs. ids_reach s \<and> i \<noteq> j \<and> idToWallets s i = Some ws \<and> idToWallets s j = Some vs
     \<and> CAIP10_String (wallet_of ''A'') \<in> set ws \<and> CAIP10_String (wallet_of ''A'') \<in> set vs
     \<and> walletToID s (CAIP10_String (wallet_of ''A'')) = Some j"
proof -
  have h: "hex_EncodeToString ''a'' = ''61''" "hex_EncodeToString ''b'' = ''62''" by code_simp+
  let ?A = "CAIP10_String (wallet_of ''A'')" and ?B = "CAIP10_String (wallet_of ''B'')"
  have AB: "?A \<noteq> ?B" by (simp add: CAIP10_String_def wallet_of_def)
  let ?s1 = "snd (UpsertByWallet (Some ''a'') (wallet_of ''A'') newIdentityStore)"
  let ?s2 = "snd (UpsertByWallet (Some ''b'') (wallet_of ''B'') ?s1)"
  let ?s3 = "snd (LinkWallet ''id_62'' (wallet_of ''A'') ?s2)"
  have s1: "?s1 = \<lparr>walletToID = [?A \<mapsto> ''id_61''], idToWallets = [''id_61'' \<mapsto> [?A]]\<rparr>"
    by (simp add: UpsertByWallet_def Let_def newIdentityStore_def h)
  have s2: "?s2 = \<lparr>walletToID = [?A \<mapsto> ''id_61'', ?B \<mapsto> ''id_62''],
      idToWallets = [''id_61'' \<mapsto> [?A], ''id_62'' \<mapsto> [?B]]\<rparr>"
    unfolding s1 using AB by (simp add: UpsertByWallet_def Let_def h)
  have s3: "?s3 = \<lparr>walletToID = [?A \<mapsto> ''id_62'', ?B \<mapsto> ''id_62''],
      idToWallets = [''id_61'' \<mapsto> [?A], ''id_62'' \<mapsto> [?B, ?A]]\<rparr>"
    unfolding s2 using AB by (simp add: LinkWallet_def Let_def)
       (simp add: fun_upd_twist fun_upd_upd)
  have "ids_reach ?s3"
    by (intro ids_reach.intros) (simp_all add: fresh_id_def newIdentityStore_def UpsertByWallet_def Let_def h)
  moreover have "idToWallets ?s3 ''id_61'' = Some [?A]" "idToWallets ?s3 ''id_62'' = Some [?B, ?A]"
    "walletToID ?s3 ?A = Some ''id_62''"
    unfolding s3 using AB by simp_all
  ultimately show ?thesis by (intro exI [of _ ?s3] exI [of _ "''id_61''"] exI [of _ "''id_62''"]) auto
qed

text \<open>\<open>Wallets\<close> returns the accounts an identity lists, in order, exactly when every listed
  text is a valid CAIP-10 id; one text that is not makes the whole call fail.\<close>

theorem Wallets_iff:
  "Wallets i s = Ok ws \<longleftrightarrow>
     list_all valid_CAIP10 ws
     \<and> map CAIP10_String ws = (case idToWallets s i of None \<Rightarrow> [] | Some strs \<Rightarrow> strs)"
  using parse_all_Ok parse_all_valid by (fastforce simp: Wallets_def Let_def)

end
