(* ===== verification/Recorder.thy ===== *)
theory Recorder
  imports Observer "HOL-Library.Word"
begin

text \<open>
  \<open>examples/hub/observe.go\<close>: the hub's observer, which counts events and buffers the checks
  of each attempt until the handler drains them. Log lines are output only and left out;
  \<open>render\<close> is in the theory \<open>Metrics\<close>. Counters are 64-bit words. \<open>etext\<close> stands
  for the \<open>Error\<close> method of an error value.
\<close>

record CheckInfo =
  ciName :: bytes
  ciOK :: bool

record counters =
  attemptsTotal :: "64 word"
  failuresTotal :: "bytes \<rightharpoonup> 64 word"
  checksTotal :: "bytes \<rightharpoonup> 64 word"
  noncesIssued :: "64 word"
  nonceBurned :: "64 word"
  tokensIssued :: "64 word"

record recorder =
  rcCounters :: counters
  rcChecks :: "bytes \<rightharpoonup> CheckInfo list"

definition incAttempts :: "counters \<Rightarrow> counters" where
  "incAttempts c = c\<lparr>attemptsTotal := attemptsTotal c + 1\<rparr>"
definition incNonceIssued :: "counters \<Rightarrow> counters" where
  "incNonceIssued c = c\<lparr>noncesIssued := noncesIssued c + 1\<rparr>"
definition incNonceBurned :: "counters \<Rightarrow> counters" where
  "incNonceBurned c = c\<lparr>nonceBurned := nonceBurned c + 1\<rparr>"
definition incTokensIssued :: "counters \<Rightarrow> counters" where
  "incTokensIssued c = c\<lparr>tokensIssued := tokensIssued c + 1\<rparr>"

text \<open>\<open>LoadOrStore\<close> a zero, then add one.\<close>

definition load_add :: "(bytes \<rightharpoonup> 64 word) \<Rightarrow> bytes \<Rightarrow> (bytes \<rightharpoonup> 64 word)" where
  "load_add m k = m(k \<mapsto> (case m k of None \<Rightarrow> 0 | Some v \<Rightarrow> v) + 1)"

definition incFailure :: "bytes \<Rightarrow> counters \<Rightarrow> counters" where
  "incFailure reason c = c\<lparr>failuresTotal := load_add (failuresTotal c) reason\<rparr>"

definition incCheckFailed :: "bytes \<Rightarrow> counters \<Rightarrow> counters" where
  "incCheckFailed check c = c\<lparr>checksTotal := load_add (checksTotal c) check\<rparr>"

definition newRecorder :: recorder where
  "newRecorder =
     \<lparr>rcCounters = \<lparr>attemptsTotal = 0, failuresTotal = Map.empty, checksTotal = Map.empty,
        noncesIssued = 0, nonceBurned = 0, tokensIssued = 0\<rparr>,
      rcChecks = Map.empty\<rparr>"

definition DrainChecks :: "bytes \<Rightarrow> recorder \<Rightarrow> CheckInfo list \<times> recorder" where
  "DrainChecks i r =
     ((case rcChecks r i of None \<Rightarrow> [] | Some cs \<Rightarrow> cs), r\<lparr>rcChecks := (rcChecks r)(i := None)\<rparr>)"

fun check_text :: "CheckName \<Rightarrow> bytes" where
  "check_text CheckDomain = ''domain''"
| "check_text CheckNotBefore = ''not_before''"
| "check_text CheckExpiry = ''expiry''"
| "check_text CheckNonce = ''nonce''"
| "check_text CheckSignature = ''signature''"

definition check_info :: "CheckName \<Rightarrow> bool \<Rightarrow> CheckInfo" where
  "check_info c ok = \<lparr>ciName = check_text c, ciOK = ok\<rparr>"

definition buffer_check :: "bytes \<Rightarrow> CheckInfo \<Rightarrow> recorder \<Rightarrow> recorder" where
  "buffer_check i c r =
     (if card (dom (rcChecks r)) < 1024
      then r\<lparr>rcChecks := (rcChecks r)
        (i \<mapsto> (case rcChecks r i of None \<Rightarrow> [] | Some cs \<Rightarrow> cs) @ [c])\<rparr>
      else r)"

fun rec_event :: "(gerror \<Rightarrow> bytes) \<Rightarrow> recorder \<Rightarrow> event \<Rightarrow> recorder" where
  "rec_event etext r (VerifyAttempt i ns d a) = r\<lparr>rcCounters := incAttempts (rcCounters r)\<rparr>"
| "rec_event etext r (ParseResult i ok e k) = r"
| "rec_event etext r (CheckResult i c ok) =
     buffer_check i (check_info c ok)
       (if \<not> ok then r\<lparr>rcCounters := incCheckFailed (check_text c) (rcCounters r)\<rparr> else r)"
| "rec_event etext r (VerifyResult i ok e ns) =
     (case e of
        Some er \<Rightarrow> if \<not> ok then r\<lparr>rcCounters := incFailure (etext er) (rcCounters r)\<rparr> else r
      | None \<Rightarrow> r)"

definition rec_events :: "(gerror \<Rightarrow> bytes) \<Rightarrow> recorder \<Rightarrow> event list \<Rightarrow> recorder" where
  "rec_events etext = foldl (rec_event etext)"

section \<open>The buffer\<close>

lemma rec_events_simps [simp]:
  "rec_events etext r [] = r"
  "rec_events etext r (e # es) = rec_events etext (rec_event etext r e) es"
  "rec_events etext r (es @ es') = rec_events etext (rec_events etext r es) es'"
  by (simp_all add: rec_events_def)

definition buffer_ok :: "recorder \<Rightarrow> bool" where
  "buffer_ok r \<longleftrightarrow> finite (dom (rcChecks r)) \<and> card (dom (rcChecks r)) \<le> 1024"

lemma buffer_check_ok: "buffer_ok r \<Longrightarrow> buffer_ok (buffer_check i c r)"
  by (auto simp: buffer_ok_def buffer_check_def card_insert_if)

lemma rec_event_checks:
  "rcChecks (rec_event etext r e) =
     (case e of CheckResult i c ok \<Rightarrow> rcChecks (buffer_check i (check_info c ok) r) | _ \<Rightarrow> rcChecks r)"
  by (cases e) (auto simp: buffer_check_def split: option.split)

lemma rec_event_ok: "buffer_ok r \<Longrightarrow> buffer_ok (rec_event etext r e)"
  using buffer_check_ok [of r]
  by (auto simp: buffer_ok_def rec_event_checks split: event.split)

lemma rec_events_ok: "buffer_ok r \<Longrightarrow> buffer_ok (rec_events etext r es)"
  by (induction es arbitrary: r) (simp_all add: rec_event_ok)

lemma drain_ok: "buffer_ok r \<Longrightarrow> buffer_ok (snd (DrainChecks i r))"
  by (auto simp: buffer_ok_def DrainChecks_def intro: order_trans [OF card_Diff1_le])

text \<open>The checks in a list of events, and what a buffer with room keeps of them.\<close>

fun checks_of :: "event list \<Rightarrow> CheckInfo list" where
  "checks_of [] = []"
| "checks_of (CheckResult i c ok # es) = check_info c ok # checks_of es"
| "checks_of (e # es) = checks_of es"

text \<open>Room for attempt \<open>i\<close>: fewer than 1023 other attempts are buffered.\<close>

definition room :: "bytes \<Rightarrow> recorder \<Rightarrow> bool" where
  "room i r \<longleftrightarrow> finite (dom (rcChecks r)) \<and> card (dom (rcChecks r) - {i}) < 1023"

lemma room_card:
  assumes "room i r"
  shows "card (dom (rcChecks r)) < 1024"
proof -
  let ?D = "dom (rcChecks r)"
  have D: "finite ?D" "card (?D - {i}) < 1023" using assms by (auto simp: room_def)
  then have "card (insert i (?D - {i})) = Suc (card (?D - {i}))" by (intro card_insert_disjoint) auto
  moreover have "card ?D \<le> card (insert i (?D - {i}))" using D(1) by (intro card_mono) auto
  ultimately show ?thesis using D(2) by linarith
qed

definition buffered :: "bytes \<Rightarrow> recorder \<Rightarrow> CheckInfo list" where
  "buffered i r = (case rcChecks r i of None \<Rightarrow> [] | Some cs \<Rightarrow> cs)"

lemma rec_event_room:
  assumes "room i r" and "attempt_id e = i"
  shows "room i (rec_event etext r e) \<and> buffered i (rec_event etext r e) = buffered i r @ checks_of [e]"
proof -
  have upd: "dom ((rcChecks r)(i \<mapsto> v)) - {i} = dom (rcChecks r) - {i}"
    "finite (dom ((rcChecks r)(i \<mapsto> v)))" for v using assms(1) by (auto simp: room_def)
  show ?thesis
  proof (cases e)
    case (CheckResult j c ok)
    then show ?thesis
      using assms room_card [OF assms(1)] upd
      by (simp add: room_def buffered_def rec_event_checks buffer_check_def del: rec_event.simps dom_fun_upd)
  qed (use assms in \<open>simp_all add: room_def buffered_def rec_event_checks del: rec_event.simps\<close>)
qed

lemma checks_of_Cons: "checks_of (e # es) = checks_of [e] @ checks_of es"
  by (cases e) simp_all

lemma rec_events_room:
  "room i r \<Longrightarrow> \<forall>e \<in> set es. attempt_id e = i \<Longrightarrow>
     buffered i (rec_events etext r es) = buffered i r @ checks_of es"
proof (induction es arbitrary: r)
  case (Cons e es)
  have *: "attempt_id e = i" using Cons.prems(2) by simp
  show ?case
    using rec_event_room [OF Cons.prems(1) *, of etext] Cons.prems(2)
      Cons.IH [of "rec_event etext r e"] checks_of_Cons [of e es]
    by simp
qed simp

lemma fst_DrainChecks: "fst (DrainChecks i r) = buffered i r"
  by (simp add: DrainChecks_def buffered_def)

text \<open>A full buffer records nothing more.\<close>

lemma full_stays:
  "card (dom (rcChecks r)) = 1024 \<Longrightarrow> rcChecks (rec_events etext r es) = rcChecks r"
proof (induction es arbitrary: r)
  case (Cons e es)
  have "rcChecks (rec_event etext r e) = rcChecks r"
    using Cons.prems by (auto simp: rec_event_checks buffer_check_def split: event.split)
  with Cons show ?case by simp
qed simp

text \<open>Events of several attempts, mixed as their handlers run: with room for all of them, each
  attempt finds its own checks.\<close>

lemma dom_rec_event: "dom (rcChecks (rec_event etext r e)) \<subseteq> insert (attempt_id e) (dom (rcChecks r))"
  by (cases e) (auto simp: rec_event_checks buffer_check_def simp del: rec_event.simps split: if_splits)

lemma buffered_other:
  "attempt_id e \<noteq> i \<Longrightarrow> buffered i (rec_event etext r e) = buffered i r"
  by (cases e) (auto simp: buffered_def rec_event_checks buffer_check_def simp del: rec_event.simps)

lemma rec_events_mixed:
  assumes "finite (dom (rcChecks r))" and "card (dom (rcChecks r) \<union> attempt_id ` set es) < 1024"
  shows "buffered i (rec_events etext r es) = buffered i r @ checks_of (filter (\<lambda>e. attempt_id e = i) es)"
  using assms
proof (induction es arbitrary: r)
  case (Cons e es)
  let ?r = "rec_event etext r e"
  let ?all = "dom (rcChecks r) \<union> attempt_id ` set (e # es)"
  have sub: "dom (rcChecks ?r) \<union> attempt_id ` set es \<subseteq> ?all" using dom_rec_event [of etext r e] by auto
  have fin: "finite ?all" using Cons.prems(1) by simp
  have "card (dom (rcChecks ?r) \<union> attempt_id ` set es) < 1024"
    using card_mono [OF fin sub] Cons.prems(2) by linarith
  moreover have "finite (dom (rcChecks ?r))" using finite_subset [OF sub fin] by simp
  ultimately have IH: "buffered i (rec_events etext ?r es)
      = buffered i ?r @ checks_of (filter (\<lambda>e. attempt_id e = i) es)" by (rule Cons.IH [rotated])
  show ?case
  proof (cases "attempt_id e = i")
    case True
    have "insert i (dom (rcChecks r) - {i}) \<subseteq> ?all" using True by auto
    then have "Suc (card (dom (rcChecks r) - {i})) \<le> card ?all"
      using card_mono [OF fin] Cons.prems(1) by (metis Diff_iff card_insert_disjoint finite_Diff insertI1)
    then have "room i r" using Cons.prems by (simp add: room_def)
    from rec_event_room [OF this True, of etext] IH True show ?thesis
      using checks_of_Cons [of e "filter (\<lambda>e. attempt_id e = i) es"] by simp
  next
    case False
    then show ?thesis using IH buffered_other [OF False] by simp
  qed
qed simp

section \<open>Properties\<close>

text \<open>The buffer never holds more than 1024 attempts, whatever events arrive and whenever it is
  drained.\<close>

theorem recorder_bounded:
  "buffer_ok newRecorder
   \<and> (buffer_ok r \<longrightarrow> buffer_ok (rec_events etext r es) \<and> buffer_ok (snd (DrainChecks i r)))"
  by (simp add: rec_events_ok drain_ok) (simp add: buffer_ok_def newRecorder_def)

theorem recorder_bounded_witness:
  "buffer_ok (rec_events (\<lambda>_. []) newRecorder [CheckResult ''i'' CheckDomain True])"
  using recorder_bounded [of newRecorder "\<lambda>_. []"] by blast

text \<open>Draining an attempt returns its checks in the order they were emitted and forgets them,
  provided fewer than 1023 other attempts are buffered; once 1024 are buffered, the checks of
  every new attempt are lost.\<close>

theorem drain_returns_checks:
  assumes "\<forall>e \<in> set es. attempt_id e = i" and "rcChecks r i = None"
  shows "(room i r \<longrightarrow> fst (DrainChecks i (rec_events etext r es)) = checks_of es
            \<and> rcChecks (snd (DrainChecks i (rec_events etext r es))) i = None)
       \<and> (card (dom (rcChecks r)) = 1024 \<longrightarrow> fst (DrainChecks i (rec_events etext r es)) = [])"
  using rec_events_room [of i r es etext] full_stays [of r etext es] assms
  by (auto simp: fst_DrainChecks) (auto simp: buffered_def DrainChecks_def)

theorem drain_returns_checks_witness:
  "fst (DrainChecks ''i'' (rec_events (\<lambda>_. []) newRecorder
     [VerifyAttempt ''i'' ''solana'' ''d'' [], CheckResult ''i'' CheckDomain True,
      CheckResult ''i'' CheckNotBefore False]))
   = [check_info CheckDomain True, check_info CheckNotBefore False]"
proof -
  have "room ''i'' newRecorder" "rcChecks newRecorder ''i'' = None"
    by (simp_all add: room_def newRecorder_def)
  then show ?thesis
    using drain_returns_checks [of "[VerifyAttempt ''i'' ''solana'' ''d'' [],
      CheckResult ''i'' CheckDomain True, CheckResult ''i'' CheckNotBefore False]" "''i''"
      newRecorder "\<lambda>_. []"]
    by simp
qed

text \<open>C31. Attempts that run at the same time do not mix: whatever events of other attempts come in
  between, and in whatever order, draining an attempt returns exactly its own checks, in the
  order they were emitted, and leaves those of the others; as long as fewer than 1024 attempts
  are buffered.\<close>

theorem drain_separates_attempts:
  assumes "finite (dom (rcChecks r))" and "card (dom (rcChecks r) \<union> attempt_id ` set es) < 1024"
    and "rcChecks r i = None"
  shows "fst (DrainChecks i (rec_events etext r es)) = checks_of (filter (\<lambda>e. attempt_id e = i) es)
     \<and> (\<forall>j. j \<noteq> i \<longrightarrow> buffered j (snd (DrainChecks i (rec_events etext r es)))
            = buffered j r @ checks_of (filter (\<lambda>e. attempt_id e = j) es))"
  using rec_events_mixed [OF assms(1,2), of _ etext] assms(3)
  by (auto simp: fst_DrainChecks) (auto simp: buffered_def DrainChecks_def)

theorem drain_separates_attempts_witness:
  "fst (DrainChecks ''i'' (rec_events (\<lambda>_. []) newRecorder
     [CheckResult ''i'' CheckDomain True, CheckResult ''j'' CheckDomain False,
      CheckResult ''i'' CheckNotBefore False]))
   = [check_info CheckDomain True, check_info CheckNotBefore False]"
proof -
  have new: "rcChecks newRecorder = Map.empty" by (simp add: newRecorder_def)
  have "card {''i'', ''j'', ''i''} \<le> length [''i'', ''j'', ''i'']" using card_length [of "[''i'', ''j'', ''i'']"] by simp
  then have "card (dom (rcChecks newRecorder) \<union> attempt_id ` set [CheckResult ''i'' CheckDomain True,
      CheckResult ''j'' CheckDomain False, CheckResult ''i'' CheckNotBefore False]) < 1024"
    by (simp add: new)
  from drain_separates_attempts [OF _ this, of "''i''" "\<lambda>_. []"] show ?thesis by (simp add: new)
qed

end
