(* ===== verification/Problems.thy ===== *)
theory Problems
  imports Prelude
begin

text \<open>
  \<open>examples/hub/problems.go\<close>: the RFC 7807 answer to an error. The handler writes nothing
  else about the error.
\<close>

record problem =
  prType :: bytes
  prTitle :: bytes
  prStatus :: nat
  prDetail :: bytes
  prInstance :: bytes

definition mk_problem :: "bytes \<Rightarrow> bytes \<Rightarrow> nat \<Rightarrow> bytes \<Rightarrow> problem" where
  "mk_problem ty ti st de =
     \<lparr>prType = ty, prTitle = ti, prStatus = st, prDetail = de, prInstance = []\<rparr>"

definition problemForErr :: "gerror \<Rightarrow> problem" where
  "problemForErr err =
     (if errors_Is err ErrMalformed then
        mk_problem ''/problems/malformed-message'' ''Malformed message'' 400
          ''The sign-in message could not be parsed.''
      else if errors_Is err ErrDomainMismatch then
        mk_problem ''/problems/domain-mismatch'' ''Domain mismatch'' 401
          ''The domain in the sign-in message does not match this server.''
      else if errors_Is err ErrNonceMismatch then
        mk_problem ''/problems/nonce-check-failed'' ''Nonce check failed'' 401
          ''The nonce is invalid, expired, or already used.''
      else if errors_Is err ErrExpired then
        mk_problem ''/problems/message-expired'' ''Message expired'' 401
          ''The sign-in message has expired.''
      else if errors_Is err ErrNotYetValid then
        mk_problem ''/problems/not-yet-valid'' ''Not yet valid'' 401
          ''The sign-in message is not yet valid.''
      else if errors_Is err ErrBadSignature then
        mk_problem ''/problems/signature-invalid'' ''Signature invalid'' 401
          ''The wallet signature could not be verified.''
      else if errors_Is err ErrUnsupportedNamespace then
        mk_problem ''/problems/unsupported-namespace'' ''Unsupported namespace'' 422
          ''The requested chain namespace is not supported.''
      else
        mk_problem ''/problems/internal-error'' ''Internal server error'' 500
          ''An unexpected error occurred.'')"

definition writeProblem :: "gerror \<Rightarrow> bytes \<Rightarrow> problem" where
  "writeProblem err requestID = (problemForErr err)\<lparr>prInstance := requestID\<rparr>"

text \<open>The status an error of exactly one sentinel gets.\<close>

fun status_of :: "sentinel \<Rightarrow> nat" where
  "status_of ErrMalformed = 400"
| "status_of ErrUnsupportedNamespace = 422"
| "status_of ErrDomainMismatch = 401"
| "status_of ErrNonceMismatch = 401"
| "status_of ErrExpired = 401"
| "status_of ErrNotYetValid = 401"
| "status_of ErrBadSignature = 401"
| "status_of s = 500"

lemma problem_simps [simp]:
  "prStatus (mk_problem ty ti st de) = st" "prInstance (mk_problem ty ti st de) = []"
  by (simp_all add: mk_problem_def)

lemma problem_status:
  "\<forall>t. errors_Is e t \<longleftrightarrow> t = s \<Longrightarrow> prStatus (writeProblem e r) = status_of s"
  by (cases s) (simp_all add: writeProblem_def problemForErr_def)

section \<open>Properties\<close>

text \<open>The answer to an error is a function of the sentinels it wraps and nothing else of it, so
  no text of the error reaches the client; an error of one sentinel gets that sentinel's
  status, and the contract-wallet and RPC sentinels get 500.\<close>

theorem writeProblem_generic:
  "((\<forall>s. errors_Is e s \<longleftrightarrow> errors_Is e' s) \<longrightarrow> writeProblem e r = writeProblem e' r)
   \<and> ((\<forall>t. errors_Is e t \<longleftrightarrow> t = s) \<longrightarrow> prStatus (writeProblem e r) = status_of s)"
  using problem_status by (simp add: writeProblem_def problemForErr_def)

theorem writeProblem_generic_witness:
  "prStatus (writeProblem (Errorf ''secret %w'' [] [Sentinel ErrExpired]) []) = 401
   \<and> writeProblem (Errorf ''secret %w'' [] [Sentinel ErrExpired]) [] = writeProblem (Sentinel ErrExpired) []"
  using writeProblem_generic [of "Errorf ''secret %w'' [] [Sentinel ErrExpired]" "Sentinel ErrExpired"
      "[]" ErrExpired]
  by auto

end
