(* ===== verification/GoBig.thy ===== *)
theory GoBig
  imports Base58 "HOL-Library.Word"
begin

text \<open>
  \<open>math/big\<close> beyond \<open>Bytes\<close> and \<open>SetBytes\<close>: the conversion to a machine integer. A Go
  \<open>int\<close> and an \<open>int64\<close> are 64-bit words.
\<close>

text \<open>\<open>big.Int.Int64\<close>: the low 64 bits.\<close>

definition big_Int64 :: "nat \<Rightarrow> 64 word" where
  "big_Int64 n = word_of_nat n"

lemma sint_nat: "n < 2 ^ 63 \<Longrightarrow> sint (word_of_nat n :: 64 word) = int n"
  by (simp add: signed_of_nat signed_take_bit_int_eq_self)

text \<open>\<open>big.NewInt(int64(e)).Bytes()\<close>: the bytes of the absolute value.\<close>

definition int_Bytes :: "64 word \<Rightarrow> bytes" where
  "int_Bytes e = big_Bytes (nat \<bar>sint e\<bar>)"

lemma Int64_int_Bytes:
  assumes "0 \<le>s e"
  shows "big_Int64 (big_SetBytes (int_Bytes e)) = e"
proof -
  have "0 \<le> sint e" using assms by (simp add: word_sle_eq)
  then show ?thesis by (simp add: int_Bytes_def big_Int64_def big_SetBytes_Bytes)
qed

end
