(* ===== verification/ContractWallet.thy ===== *)
theory ContractWallet
  imports EvmAdapter GoBig
begin

text \<open>
  \<open>examples/hub/contractwallet.go\<close>: the simulated chain of contract wallets, each with one
  owner. It is a resolver and a chain client, so it composes with the EVM adapter. The
  functions of go-ethereum it calls are the record \<open>DemoLib\<close>; an address is a byte list. The
  lock makes each access to the map one step. A Go \<open>int\<close> is a 64-bit word.
\<close>

record DemoLib =
  dlKeccak256 :: "bytes list \<Rightarrow> bytes"
  dlBytesToAddress :: "bytes \<Rightarrow> bytes"
  dlSigToPub :: "bytes \<Rightarrow> bytes \<Rightarrow> bytes option"
  dlPubkeyToAddress :: "bytes \<Rightarrow> bytes"

record demo_wallets =
  dwOwners :: "bytes \<rightharpoonup> bytes"

definition newDemoContractWallets :: demo_wallets where
  "newDemoContractWallets = \<lparr>dwOwners = Map.empty\<rparr>"

definition deriveWallet :: "DemoLib \<Rightarrow> bytes \<Rightarrow> bytes" where
  "deriveWallet D owner =
     (let h = dlKeccak256 D [''siwx-go-demo-1271:'', owner] in dlBytesToAddress D (drop 12 h))"

definition RegisterWallet :: "DemoLib \<Rightarrow> bytes \<Rightarrow> demo_wallets \<Rightarrow> bytes \<times> demo_wallets" where
  "RegisterWallet D owner d =
     (let wallet = deriveWallet D owner in
      (wallet, d\<lparr>dwOwners := (dwOwners d)(wallet \<mapsto> owner)\<rparr>))"

definition demoContractCode :: bytes where
  "demoContractCode = [CHR 0x60, CHR 0x80, CHR 0x60, CHR 0x40, CHR 0x52]"

definition demo_magicValue :: bytes where
  "demo_magicValue = [CHR 0x16, CHR 0x26, CHR 0xba, CHR 0x7e]"

definition demo_CodeAt :: "demo_wallets \<Rightarrow> bytes \<Rightarrow> rpc" where
  "demo_CodeAt d addr = (case dwOwners d addr of Some _ \<Rightarrow> Inr demoContractCode | None \<Rightarrow> Inr [])"

definition zero_word :: bytes where
  "zero_word = replicate 32 (CHR 0x00)"

definition magic_word :: bytes where
  "magic_word = demo_magicValue @ replicate 28 (CHR 0x00)"

text \<open>\<open>sig[64] -= 27\<close> on a signature of 65 bytes that ends in 27 or more.\<close>

definition fix_v :: "bytes \<Rightarrow> bytes" where
  "fix_v sig =
     (if length sig = 65 \<and> (of_char (sig ! 64) :: nat) \<ge> 27
      then sig[64 := char_of (of_char (sig ! 64) - (27::nat))] else sig)"

text \<open>\<open>make\<close> panics when the length is negative or more than the machine can address;
  \<open>sigLen\<close> is positive there.\<close>

definition max_alloc :: "64 word" where
  "max_alloc = 2 ^ 48"

definition demo_CallContract :: "DemoLib \<Rightarrow> demo_wallets \<Rightarrow> bytes \<Rightarrow> bytes \<Rightarrow> bytes res" where
  "demo_CallContract D d to data =
     (let headLen = 4 + 32 + 32 + 32 in
      if length data < headLen then Ok zero_word
      else
        let hash = drop 4 (take 36 data);
            sigLen = big_Int64 (big_SetBytes (drop 68 (take 100 data)))
        in if sigLen \<le>s 0 \<or> word_of_nat (length data) <s word_of_nat headLen + sigLen
           then Ok zero_word
           else if max_alloc <s sigLen then Panic
           else
             let sig = fix_v (take (unat sigLen) (drop headLen data)) in
             case dlSigToPub D hash sig of
               None \<Rightarrow> Ok zero_word
             | Some pub \<Rightarrow>
                 let signer = dlPubkeyToAddress D pub in
                 (case dwOwners d to of
                    Some owner \<Rightarrow> if signer = owner then Ok magic_word else Ok zero_word
                  | None \<Rightarrow> Ok zero_word))"

text \<open>The client as the adapter sees it. The adapter only sends calldata on which the call
  does not panic (\<open>demo_call_on_calldata\<close>).\<close>

definition rpc_of :: "bytes res \<Rightarrow> rpc" where
  "rpc_of r = (case r of Ok b \<Rightarrow> Inr b | Err e \<Rightarrow> Inl e | Panic \<Rightarrow> Inl (NewError ''panic''))"

definition demo_client :: "DemoLib \<Rightarrow> demo_wallets \<Rightarrow> ChainClient" where
  "demo_client D d =
     \<lparr>ccCodeAt = demo_CodeAt d, ccCallContract = (\<lambda>to data. rpc_of (demo_CallContract D d to data)),
      ccCallContractCreation = None\<rparr>"

definition demo_ClientFor :: "DemoLib \<Rightarrow> demo_wallets \<Rightarrow> Resolver" where
  "demo_ClientFor D d chainID =
     (if \<not> has_prefix chainID ''eip155:'' then None else Some (demo_client D d))"

section \<open>The registered wallets\<close>

inductive demo_reach :: "DemoLib \<Rightarrow> demo_wallets \<Rightarrow> bool" for D where
  demo_new: "demo_reach D newDemoContractWallets"
| demo_register: "demo_reach D d \<Longrightarrow> demo_reach D (snd (RegisterWallet D owner d))"

lemma demo_reach_derived: "demo_reach D d \<Longrightarrow> dwOwners d w = Some o' \<Longrightarrow> w = deriveWallet D o'"
  by (induction rule: demo_reach.induct)
     (auto simp: newDemoContractWallets_def RegisterWallet_def Let_def split: if_splits)

section \<open>The contract on the calldata of the adapter\<close>

lemma word_value_SetBytes: "big_SetBytes b = word_value b"
  by (simp add: big_SetBytes_def word_value_def)

lemma calldata_fields:
  assumes "length hash = 32"
  shows "drop 4 (take 36 (erc1271Calldata hash sig)) = hash"
    and "big_SetBytes (drop 68 (take 100 (erc1271Calldata hash sig))) = length sig mod 2 ^ 64 mod 2 ^ 32"
    and "take (length sig) (drop 100 (erc1271Calldata hash sig)) = sig"
    and "length (erc1271Calldata hash sig) \<ge> 100 + length sig"
proof -
  have sel: "length erc1271Selector = 4" by (simp add: erc1271Selector_def)
  note eq = erc1271Calldata_eq rightSizedWord_id [OF assms]
  show "drop 4 (take 36 (erc1271Calldata hash sig)) = hash"
    unfolding eq by (simp add: sel assms)
  show "big_SetBytes (drop 68 (take 100 (erc1271Calldata hash sig))) = length sig mod 2 ^ 64 mod 2 ^ 32"
    unfolding eq
    by (simp add: sel assms word_value_SetBytes word_value_uint256Word unat_of_nat)
  show "take (length sig) (drop 100 (erc1271Calldata hash sig)) = sig"
    unfolding eq by (simp add: sel assms)
  show "length (erc1271Calldata hash sig) \<ge> 100 + length sig"
    unfolding length_erc1271Calldata by linarith
qed

text \<open>The answer of the wallet \<open>to\<close> on a hash and a signature.\<close>

definition owner_signed :: "DemoLib \<Rightarrow> demo_wallets \<Rightarrow> bytes \<Rightarrow> bytes \<Rightarrow> bytes \<Rightarrow> bool" where
  "owner_signed D d to hash sig \<longleftrightarrow>
     sig \<noteq> [] \<and> (\<exists>pub owner. dlSigToPub D hash (fix_v sig) = Some pub \<and> dwOwners d to = Some owner
        \<and> dlPubkeyToAddress D pub = owner)"

lemma demo_call_on_calldata:
  assumes "length hash = 32" and "length sig < 2 ^ 32"
  shows "demo_CallContract D d to (erc1271Calldata hash sig) =
     Ok (if owner_signed D d to hash sig then magic_word else zero_word)"
proof -
  note f = calldata_fields [OF assms(1), of sig]
  let ?data = "erc1271Calldata hash sig"
  have len: "length sig mod 2 ^ 64 mod 2 ^ 32 = length sig" using assms(2) by simp
  have "(length sig + 31) div 32 * 32 \<le> length sig + 31" by simp
  then have data: "length ?data < 2 ^ 63" using assms(2) unfolding length_erc1271Calldata by simp
  have sums: "word_of_nat 100 + word_of_nat (length sig) = (word_of_nat (100 + length sig) :: 64 word)"
    by simp
  have s: "sint (word_of_nat (100 + length sig) :: 64 word) = int (100 + length sig)"
    "sint (word_of_nat (length sig) :: 64 word) = int (length sig)"
    "sint (word_of_nat (length ?data) :: 64 word) = int (length ?data)"
    using sint_nat [of "100 + length sig"] sint_nat [of "length sig"] sint_nat [OF data] assms(2)
    by simp_all
  have big: "\<not> max_alloc <s word_of_nat (length sig)"
    using assms(2) s(2) by (simp add: word_sless_alt max_alloc_def)
  have neg: "word_of_nat (length sig) \<le>s (0 :: 64 word) \<longleftrightarrow> sig = []"
    using s(2) by (simp add: word_sle_eq)
  have fits: "\<not> word_of_nat (length ?data) <s (word_of_nat (100 + length sig) :: 64 word)"
    using s(1,3) f(4) by (simp add: word_sless_alt)
  have un: "unat (word_of_nat (length sig) :: 64 word) = length sig"
    using assms(2) by (simp add: unat_of_nat)
  have short: "\<not> length ?data < 100" using f(4) by simp
  have hl: "4 + 32 + 32 + 32 = (100::nat)" by simp
  show ?thesis
    unfolding demo_CallContract_def Let_def hl f(1,2) len big_Int64_def sums
    using big neg fits un short f(3)
    by (simp add: owner_signed_def split: option.split)
qed

lemma magic_word_prefix:
  "has_prefix magic_word erc1271MagicValue" "\<not> has_prefix zero_word erc1271MagicValue"
  by code_simp+

lemma demo_contract_valid:
  assumes "length (lTextHash L (lString L m)) = 32" and "length sig < 2 ^ 32"
  shows "contract_valid L (Some (demo_client D d)) m sig \<longleftrightarrow>
     owner_signed D d (swAddress m) (lTextHash L (lString L m)) sig"
  using magic_word_prefix
  by (auto simp: contract_valid_def demo_client_def demo_CodeAt_def rpc_of_def
      demo_call_on_calldata [OF assms] demoContractCode_def split: option.splits if_splits)
     (auto simp: owner_signed_def)

lemma demo_eoa_valid:
  "eoa_valid L (Some (demo_client D d)) m sig \<longleftrightarrow>
     dwOwners d (swAddress m) = None \<and> lVerifyEIP191 L m (''0x'' @ hex_EncodeToString sig)"
  by (auto simp: eoa_valid_def demo_client_def demo_CodeAt_def demoContractCode_def split: option.splits)

lemma demo_client_of:
  "evm_client (Some (demo_ClientFor D d)) m = Some (demo_client D d)"
  by (simp add: evm_client_def demo_ClientFor_def)

lemma demo_authorized:
  assumes "length (lTextHash L (lString L m)) = 32" and "length sig < 2 ^ 32"
  shows "authorized L (Some (demo_ClientFor D d)) m sig \<longleftrightarrow>
     \<not> hasERC6492Suffix sig \<and>
     (case dwOwners d (swAddress m) of
        Some owner \<Rightarrow> owner_signed D d (swAddress m) (lTextHash L (lString L m)) sig
      | None \<Rightarrow> lVerifyEIP191 L m (''0x'' @ hex_EncodeToString sig))"
proof -
  have "\<not> deployless_valid L (Some (demo_client D d)) m sig"
    by (simp add: deployless_valid_def demo_client_def)
  then show ?thesis
    by (auto simp: authorized_def demo_client_of demo_contract_valid [OF assms] demo_eoa_valid
        owner_signed_def split: option.split)
qed

section \<open>Properties\<close>

text \<open>C28. Sign-in with a demo contract wallet, through the adapter and the byte layout of the call:
  for any signature under 4 GiB the signature stage accepts exactly when the address is a
  registered wallet and the signature, its last byte normalised, recovers to the owner
  registered for it, or the address is no wallet and the EIP-191 check of an ordinary account
  passes. A wrapped signature is never accepted, and a wallet's address is always the one
  derived from its owner.\<close>

theorem demo_wallet_sign_in:
  assumes "demo_reach D d" and "length (lTextHash L (lString L m)) = 32" and "length sig < 2 ^ 32"
  shows "verifySignature L (Some (demo_ClientFor D d)) m sig = Ok () \<longleftrightarrow>
     \<not> hasERC6492Suffix sig \<and>
     (case dwOwners d (swAddress m) of
        Some owner \<Rightarrow> swAddress m = deriveWallet D owner \<and> sig \<noteq> []
          \<and> (\<exists>pub. dlSigToPub D (lTextHash L (lString L m)) (fix_v sig) = Some pub
                \<and> dlPubkeyToAddress D pub = owner)
      | None \<Rightarrow> lVerifyEIP191 L m (''0x'' @ hex_EncodeToString sig))"
  unfolding verifySignature_Ok demo_authorized [OF assms(2,3)]
  using demo_reach_derived [OF assms(1)]
  by (auto simp: owner_signed_def split: option.split)

definition sample_demo_lib :: DemoLib where
  "sample_demo_lib =
     \<lparr>dlKeccak256 = (\<lambda>parts. take 32 (concat (rev parts) @ replicate 32 (CHR 0x00))),
      dlBytesToAddress = id, dlSigToPub = (\<lambda>hash sig. if sig = ''ok'' then Some ''pub'' else None),
      dlPubkeyToAddress = (\<lambda>pub. ''owner'')\<rparr>"

definition sample_siwe_lib :: SiweLib where
  "sample_siwe_lib = sample_lib\<lparr>lTextHash := (\<lambda>_. replicate 32 (CHR ''h''))\<rparr>"

lemma not_wrapped_ok: "\<not> hasERC6492Suffix ''ok''"
  by (simp add: hasERC6492Suffix_def)

theorem demo_wallet_sign_in_witness:
  "verifySignature sample_siwe_lib
      (Some (demo_ClientFor sample_demo_lib (snd (RegisterWallet sample_demo_lib ''owner'' newDemoContractWallets))))
      (sample_siwe\<lparr>swAddress := deriveWallet sample_demo_lib ''owner''\<rparr>) ''ok'' = Ok ()"
proof -
  let ?d = "snd (RegisterWallet sample_demo_lib ''owner'' newDemoContractWallets)"
  let ?m = "sample_siwe\<lparr>swAddress := deriveWallet sample_demo_lib ''owner''\<rparr>"
  have r: "demo_reach sample_demo_lib ?d" by (intro demo_reach.intros)
  have o: "dwOwners ?d (swAddress ?m) = Some ''owner''" by (simp add: RegisterWallet_def Let_def)
  have h: "length (lTextHash sample_siwe_lib (lString sample_siwe_lib ?m)) = 32"
    by (simp add: sample_siwe_lib_def)
  show ?thesis
    using demo_wallet_sign_in [OF r h, of "''ok''"] o not_wrapped_ok
    by (simp add: sample_demo_lib_def fix_v_def)
qed

lemma overflow_words:
  defines "n \<equiv> big_Int64 9223372036854775807"
  shows "\<not> n \<le>s 0" and "\<not> word_of_nat 100 <s word_of_nat (4 + 32 + 32 + 32) + n" and "max_alloc <s n"
proof -
  have n: "sint n = 9223372036854775807"
    using sint_nat [of 9223372036854775807] by (simp add: n_def big_Int64_def)
  have "word_of_nat (4 + 32 + 32 + 32) + n = word_of_int (- 9223372036854775709)"
    by (simp add: n_def big_Int64_def)
  then have sum: "sint (word_of_nat (4 + 32 + 32 + 32) + n) = - 9223372036854775709"
    by (simp only: sint_sbintrunc') (simp add: signed_take_bit_int_eq_self)
  have "sint (word_of_nat 100 :: 64 word) = 100" using sint_nat [of 100] by simp
  then show "\<not> word_of_nat 100 <s word_of_nat (4 + 32 + 32 + 32) + n"
    by (simp only: word_sless_alt sum)
  have "sint max_alloc = 281474976710656"
    using sint_nat [of 281474976710656] by (simp add: max_alloc_def)
  then show "max_alloc <s n" by (simp only: word_sless_alt n)
  show "\<not> n \<le>s 0" by (simp add: word_sle_eq n)
qed

lemma demo_call_panics:
  assumes "length data = 100" and "big_SetBytes (drop 68 (take 100 data)) = 9223372036854775807"
  shows "demo_CallContract D d to data = Panic"
  using overflow_words assms by (simp add: demo_CallContract_def Let_def)

text \<open>The length check of the simulated wallet overflows: calldata that announces a length
  near the largest 64-bit integer passes it, and the call panics on allocating the copy
  instead of answering the zero word. The adapter never sends such calldata.\<close>

theorem demo_call_overflow:
  "demo_CallContract D d to
     (erc1271Selector @ replicate 64 (CHR 0x00)
        @ (replicate 24 (CHR 0x00)
          @ [CHR 0x7f, CHR 0xff, CHR 0xff, CHR 0xff, CHR 0xff, CHR 0xff, CHR 0xff, CHR 0xff])) = Panic"
proof (rule demo_call_panics)
  let ?len = "replicate 24 (CHR 0x00)
          @ [CHR 0x7f, CHR 0xff, CHR 0xff, CHR 0xff, CHR 0xff, CHR 0xff, CHR 0xff, CHR 0xff]"
  show "length (erc1271Selector @ replicate 64 (CHR 0x00) @ ?len) = 100"
    by (simp add: erc1271Selector_def)
  have "length (erc1271Selector @ replicate 64 (CHR 0x00)) = 68" "length ?len = 32"
    by (simp_all add: erc1271Selector_def)
  then have "drop 68 (take 100 ((erc1271Selector @ replicate 64 (CHR 0x00)) @ ?len)) = ?len"
    by (simp only: take_append drop_append) simp
  moreover have "map of_char ?len = replicate 24 (0::nat) @ [127, 255, 255, 255, 255, 255, 255, 255]" by simp
  then have "big_SetBytes ?len = value_of 256 [127, 255, 255, 255, 255, 255, 255, 255]"
    by (simp only: big_SetBytes_def value_of_leading_zeros)
  moreover have "value_of 256 [127, 255, 255, 255, 255, 255, 255, 255] = 9223372036854775807"
    by (simp add: value_of_def)
  ultimately show "big_SetBytes (drop 68 (take 100 (erc1271Selector @ replicate 64 (CHR 0x00) @ ?len)))
      = 9223372036854775807"
    by (simp only: append_assoc)
qed

end
