(* ===== verification/GoBase64.thy ===== *)
theory GoBase64
  imports Codec
begin

text \<open>
  \<open>encoding/base64\<close>: the encodings \<open>StdEncoding\<close> (padded) and \<open>RawURLEncoding\<close> (not
  padded). The decoder skips carriage returns and newlines wherever they stand, takes a
  quantum of four digits at a time, and ignores the unused low bits of a last short quantum.
  The offset in the error value is left out.
\<close>

record b64_encoding =
  b64Alphabet :: bytes
  b64Pad :: bool

definition StdEncoding :: b64_encoding where
  "StdEncoding = \<lparr>b64Alphabet =
     ''ABCDEFGHIJKLMNOPQRSTUVWXYZabcdefghijklmnopqrstuvwxyz0123456789+/'', b64Pad = True\<rparr>"

definition RawURLEncoding :: b64_encoding where
  "RawURLEncoding = \<lparr>b64Alphabet =
     ''ABCDEFGHIJKLMNOPQRSTUVWXYZabcdefghijklmnopqrstuvwxyz0123456789-_'', b64Pad = False\<rparr>"

definition b64_digit :: "b64_encoding \<Rightarrow> nat \<Rightarrow> byte" where
  "b64_digit e n = b64Alphabet e ! (n mod 64)"

definition b64_value :: "b64_encoding \<Rightarrow> byte \<Rightarrow> nat option" where
  "b64_value e c = map_of (zip (b64Alphabet e) [0..<64]) c"

definition b64_padding :: "b64_encoding \<Rightarrow> nat \<Rightarrow> bytes" where
  "b64_padding e n = (if b64Pad e then replicate n (CHR ''='') else [])"

text \<open>The first \<open>k\<close> of the four digits of a 24-bit value.\<close>

definition b64_chars :: "b64_encoding \<Rightarrow> nat \<Rightarrow> nat \<Rightarrow> bytes" where
  "b64_chars e k v = take k
     [b64_digit e (v div 262144), b64_digit e (v div 4096), b64_digit e (v div 64), b64_digit e v]"

fun b64_encode :: "b64_encoding \<Rightarrow> bytes \<Rightarrow> bytes" where
  "b64_encode e [] = []"
| "b64_encode e [a] = b64_chars e 2 (of_char a * 65536) @ b64_padding e 2"
| "b64_encode e [a, b] = b64_chars e 3 (of_char a * 65536 + of_char b * 256) @ b64_padding e 1"
| "b64_encode e (a # b # c # s) =
     b64_chars e 4 (of_char a * 65536 + of_char b * 256 + of_char c) @ b64_encode e s"

text \<open>The three bytes of a quantum, of which a short one keeps the first \<open>k\<close>.\<close>

definition b64_quantum :: "nat \<Rightarrow> nat \<Rightarrow> nat \<Rightarrow> nat \<Rightarrow> nat \<Rightarrow> bytes" where
  "b64_quantum k p q r s =
     (let v = p * 262144 + q * 4096 + r * 64 + s in
      take k [char_of (v div 65536 mod 256), char_of (v div 256 mod 256), char_of (v mod 256)])"

fun b64_quanta :: "b64_encoding \<Rightarrow> bytes \<Rightarrow> bytes option" where
  "b64_quanta e [] = Some []"
| "b64_quanta e [a] = None"
| "b64_quanta e [a, b] =
     (case (b64_value e a, b64_value e b) of
        (Some p, Some q) \<Rightarrow> if b64Pad e then None else Some (b64_quantum 1 p q 0 0)
      | _ \<Rightarrow> None)"
| "b64_quanta e [a, b, c] =
     (case (b64_value e a, b64_value e b, b64_value e c) of
        (Some p, Some q, Some r) \<Rightarrow> if b64Pad e then None else Some (b64_quantum 2 p q r 0)
      | _ \<Rightarrow> None)"
| "b64_quanta e (a # b # c # d # s) =
     (case (b64_value e a, b64_value e b, b64_value e c, b64_value e d) of
        (Some p, Some q, Some r, Some t) \<Rightarrow>
          map_option (\<lambda>bs. b64_quantum 3 p q r t @ bs) (b64_quanta e s)
      | (Some p, Some q, Some r, None) \<Rightarrow>
          if b64Pad e \<and> d = CHR ''='' \<and> s = [] then Some (b64_quantum 2 p q r 0) else None
      | (Some p, Some q, None, _) \<Rightarrow>
          if b64Pad e \<and> c = CHR ''='' \<and> d = CHR ''='' \<and> s = []
          then Some (b64_quantum 1 p q 0 0) else None
      | _ \<Rightarrow> None)"

definition b64_err :: gerror where
  "b64_err = NewError ''illegal base64 data''"

definition b64_newline :: "byte \<Rightarrow> bool" where
  "b64_newline c \<longleftrightarrow> c = CHR 0x0A \<or> c = CHR 0x0D"

definition b64_decode :: "b64_encoding \<Rightarrow> bytes \<Rightarrow> bytes res" where
  "b64_decode e s = (case b64_quanta e (filter (\<lambda>c. \<not> b64_newline c) s) of
     None \<Rightarrow> Err b64_err | Some b \<Rightarrow> Ok b)"

lemma b64_decode_not_Panic [simp]: "b64_decode e s \<noteq> Panic"
  by (simp add: b64_decode_def split: option.split)

section \<open>Three bytes and four digits\<close>

lemma b64_quantum_digits:
  fixes v :: nat
  assumes "v < 16777216"
  shows "b64_quantum k (v div 262144) (v div 4096 mod 64) (v div 64 mod 64) (v mod 64)
     = take k [char_of (v div 65536), char_of (v div 256 mod 256), char_of (v mod 256)]"
proof -
  have step: "x div k mod 64 * k + x mod k = x mod (k * 64)" if "0 < k" for x k :: nat
    using mod_mult2_eq [of x k 64] by (simp add: mult.commute)
  have "v div 64 mod 64 * 64 + v mod 64 = v mod 4096"
    "v div 4096 mod 64 * 4096 + v mod 4096 = v mod 262144"
    using step [of 64 v] step [of 4096 v] by simp_all
  then have v: "v div 262144 * 262144 + v div 4096 mod 64 * 4096 + v div 64 mod 64 * 64 + v mod 64 = v"
    using div_mult_mod_eq [of v 262144] by linarith
  have "v div 65536 < 256" using assms by (simp add: less_mult_imp_div_less)
  then show ?thesis by (simp add: b64_quantum_def v)
qed

lemma bytes_of_value:
  fixes a b c :: nat
  assumes "a < 256" and "b < 256" and "c < 256"
  shows "(a * 65536 + b * 256 + c) div 65536 = a"
    and "(a * 65536 + b * 256 + c) div 256 mod 256 = b"
    and "(a * 65536 + b * 256 + c) mod 256 = c"
    and "a * 65536 + b * 256 + c < 16777216"
proof -
  have v: "a * 65536 + b * 256 + c = (a * 256 + b) * 256 + c" by simp
  have d: "(a * 65536 + b * 256 + c) div 256 = a * 256 + b"
    unfolding v using assms(3) by (simp add: div_mult_self3)
  show "(a * 65536 + b * 256 + c) mod 256 = c"
    unfolding v using assms(3) by (simp only: mod_mult_self3 mod_less)
  show "(a * 65536 + b * 256 + c) div 256 mod 256 = b" unfolding d using assms(2) by simp
  have "(a * 65536 + b * 256 + c) div 65536 = (a * 65536 + b * 256 + c) div 256 div 256"
    by (simp add: div_mult2_eq [symmetric])
  then show "(a * 65536 + b * 256 + c) div 65536 = a"
    unfolding d using assms(2) by (simp add: div_mult_self3)
  show "a * 65536 + b * 256 + c < 16777216" using assms by linarith
qed

lemma triple_induct [case_names Nil one two more]:
  fixes P :: "bytes \<Rightarrow> bool"
  assumes "P []" and "\<And>a. P [a]" and "\<And>a b. P [a, b]" and "\<And>a b c s. P s \<Longrightarrow> P (a # b # c # s)"
  shows "P s"
  by (induction "undefined :: b64_encoding" s rule: b64_encode.induct) (use assms in auto)

lemma newline_pad [simp]: "\<not> b64_newline (CHR ''='')"
  by (simp add: b64_newline_def)

section \<open>Alphabets\<close>

locale b64_alphabet =
  fixes e :: b64_encoding
  assumes length_alphabet: "length (b64Alphabet e) = 64"
    and distinct_alphabet: "distinct (b64Alphabet e)"
    and no_special: "CHR ''='' \<notin> set (b64Alphabet e)" "list_all (\<lambda>c. \<not> b64_newline c) (b64Alphabet e)"
begin

lemma value_digit [simp]: "b64_value e (b64_digit e n) = Some (n mod 64)"
proof -
  have "map_of (zip (b64Alphabet e) [0..<64]) (b64Alphabet e ! (n mod 64)) = Some ([0..<64] ! (n mod 64))"
    by (intro map_of_zip_nth) (simp_all add: length_alphabet distinct_alphabet)
  then show ?thesis by (simp add: b64_value_def b64_digit_def)
qed

lemma digit_no_newline [simp]: "\<not> b64_newline (b64_digit e n)"
proof -
  have "b64_digit e n \<in> set (b64Alphabet e)" by (simp add: b64_digit_def length_alphabet)
  then show ?thesis using no_special(2) by (simp add: list_all_iff)
qed

lemma value_pad [simp]: "b64_value e (CHR ''='') = None"
  using no_special(1) length_alphabet by (auto simp: b64_value_def map_of_eq_None_iff dest: set_zip_leftD)

lemma newlines_chars [simp]: "filter (\<lambda>c. \<not> b64_newline c) (b64_chars e k v) = b64_chars e k v"
  unfolding b64_chars_def filter_id_conv by (auto dest!: in_set_takeD)

lemma newlines_encode: "filter (\<lambda>c. \<not> b64_newline c) (b64_encode e s) = b64_encode e s"
  by (induction s rule: triple_induct) (simp_all add: b64_padding_def)

lemma quanta_four:
  assumes "v < 16777216"
  shows "b64_quanta e (b64_chars e 4 v @ s) = map_option
     ((@) [char_of (v div 65536), char_of (v div 256 mod 256), char_of (v mod 256)]) (b64_quanta e s)"
proof -
  have "v div 262144 < 64" using assms by (simp add: less_mult_imp_div_less)
  then show ?thesis using b64_quantum_digits [OF assms, of 3] by (simp add: b64_chars_def comp_def)
qed

lemma quanta_three:
  assumes "v < 16777216" and "v mod 256 = 0"
  shows "b64_quanta e (b64_chars e 3 v @ b64_padding e 1) = Some [char_of (v div 65536), char_of (v div 256 mod 256)]"
proof -
  have "v mod 64 = 0" using assms(2) by presburger
  then show ?thesis
    using b64_quantum_digits [OF assms(1), of 2] assms(1)
    by (simp add: b64_chars_def b64_padding_def less_mult_imp_div_less)
qed

lemma quanta_two:
  assumes "v < 16777216" and "v mod 65536 = 0"
  shows "b64_quanta e (b64_chars e 2 v @ b64_padding e 2) = Some [char_of (v div 65536)]"
proof -
  obtain w where "v = 65536 * w" using assms(2) by (auto simp: mod_eq_0_iff_dvd)
  then have "v mod 64 = 0" "v div 64 mod 64 = 0" by simp_all
  then show ?thesis
    using b64_quantum_digits [OF assms(1), of 1] assms(1)
    by (simp add: b64_chars_def b64_padding_def less_mult_imp_div_less numeral_2_eq_2)
qed

lemma quanta_encode: "b64_quanta e (b64_encode e s) = Some s"
proof (induction s rule: triple_induct)
  case (one a)
  let ?v = "of_char a * 65536 + 0 * 256 + (0::nat)"
  note b = bytes_of_value [of "of_char a" 0 0]
  have "?v mod 65536 = 0" by simp
  then show ?case using quanta_two [of ?v] b by simp
next
  case (two a b)
  let ?v = "of_char a * 65536 + of_char b * 256 + (0::nat)"
  note b = bytes_of_value [of "of_char a" "of_char b" 0]
  have "b64_quanta e (b64_chars e 3 ?v @ b64_padding e 1) = Some [a, b]"
    using quanta_three [of ?v] b by simp
  then show ?case by simp
next
  case (more a b c s)
  let ?v = "of_char a * 65536 + of_char b * 256 + (of_char c :: nat)"
  note b = bytes_of_value [of "of_char a" "of_char b" "of_char c"]
  show ?case using quanta_four [of ?v "b64_encode e s"] b more by simp
qed simp

lemma b64_decode_encode: "b64_decode e (b64_encode e s) = Ok s"
  by (simp add: b64_decode_def newlines_encode quanta_encode)

end

interpretation std: b64_alphabet StdEncoding
  by unfold_locales code_simp+

interpretation raw_url: b64_alphabet RawURLEncoding
  by unfold_locales code_simp+

interpretation std_codec: codec "b64_encode StdEncoding" "b64_decode StdEncoding" "\<lambda>_. True"
  by unfold_locales (rule std.b64_decode_encode)

interpretation raw_url_codec: codec "b64_encode RawURLEncoding" "b64_decode RawURLEncoding" "\<lambda>_. True"
  by unfold_locales (rule raw_url.b64_decode_encode)

end
