(* ===== verification/Issuer.thy ===== *)
theory Issuer
  imports GoBig GoBase64 GoTime Caip
begin

text \<open>
  \<open>examples/hub/issuer.go\<close>: the token issuer. The JWT library and the RSA key generation are
  outside the repository: \<open>jlSigned\<close> is \<open>SignedString\<close> on a token with its header and
  claims, \<open>jlNumericDate\<close> the rounding of \<open>NewNumericDate\<close>. A key pair is its public part,
  a modulus and an exponent, and an opaque private part. The JSON text of the key set is left
  out: \<open>JWKS\<close> gives the document, field by field.
\<close>

record PublicKey =
  pkN :: nat
  pkE :: "64 word"

record PrivateKey =
  skPublic :: PublicKey
  skPrivate :: bytes

record claims =
  clSubject :: bytes
  clIssuer :: bytes
  clAudience :: "bytes list"
  clIssuedAt :: instant
  clExpiresAt :: instant
  clWallets :: "bytes list"

record JwtLib =
  jlNumericDate :: "instant \<Rightarrow> instant"
  jlSigned :: "PrivateKey \<Rightarrow> bytes \<Rightarrow> claims \<Rightarrow> gerror + bytes"

record mockIssuer =
  miKey :: PrivateKey
  miIssuerURL :: bytes
  miAudience :: bytes

definition mockKid :: bytes where
  "mockKid = ''mock-1''"

definition tokenTTL :: int where
  "tokenTTL = 3600 * 1000000000"

text \<open>\<open>key\<close> is what \<open>rsa.GenerateKey\<close> returns.\<close>

definition newIssuer :: "gerror + PrivateKey \<Rightarrow> bytes \<Rightarrow> bytes \<Rightarrow> gerror + mockIssuer" where
  "newIssuer key issuerURL audience = (case key of
     Inl err \<Rightarrow> Inl err
   | Inr k \<Rightarrow> Inr \<lparr>miKey = k, miIssuerURL = issuerURL, miAudience = audience\<rparr>)"

definition issue_claims ::
  "JwtLib \<Rightarrow> instant \<Rightarrow> mockIssuer \<Rightarrow> bytes \<Rightarrow> CAIP10 list \<Rightarrow> claims" where
  "issue_claims J now m identityID wallets =
     \<lparr>clSubject = identityID, clIssuer = miIssuerURL m, clAudience = [miAudience m],
      clIssuedAt = jlNumericDate J now, clExpiresAt = jlNumericDate J (now + tokenTTL),
      clWallets = map CAIP10_String wallets\<rparr>"

definition issuer_Issue ::
  "JwtLib \<Rightarrow> instant \<Rightarrow> mockIssuer \<Rightarrow> bytes \<Rightarrow> CAIP10 list \<Rightarrow> gerror + bytes" where
  "issuer_Issue J now m identityID wallets =
     jlSigned J (miKey m) mockKid (issue_claims J now m identityID wallets)"

record jwk =
  jwKty :: bytes
  jwUse :: bytes
  jwAlg :: bytes
  jwKid :: bytes
  jwN :: bytes
  jwE :: bytes

definition issuer_JWKS :: "mockIssuer \<Rightarrow> jwk list" where
  "issuer_JWKS m =
     (let pub = skPublic (miKey m) in
      [\<lparr>jwKty = ''RSA'', jwUse = ''sig'', jwAlg = ''RS256'', jwKid = mockKid,
        jwN = b64_encode RawURLEncoding (big_Bytes (pkN pub)),
        jwE = b64_encode RawURLEncoding (int_Bytes (pkE pub))\<rparr>])"

lemma issue_claims_simps [simp]:
  "clSubject (issue_claims J now m i ws) = i"
  "clIssuer (issue_claims J now m i ws) = miIssuerURL m"
  "clAudience (issue_claims J now m i ws) = [miAudience m]"
  "clExpiresAt (issue_claims J now m i ws) = jlNumericDate J (now + tokenTTL)"
  "clWallets (issue_claims J now m i ws) = map CAIP10_String ws"
  by (simp_all add: issue_claims_def)

text \<open>The wallets of a token determine the accounts, when those are valid.\<close>

lemma token_wallets_inj:
  assumes "list_all valid_CAIP10 ws" and "list_all valid_CAIP10 vs"
    and "clWallets (issue_claims J now m i ws) = clWallets (issue_claims J' now' m' i' vs)"
  shows "ws = vs"
  using assms
proof (induction ws arbitrary: vs)
  case (Cons w ws)
  then obtain v vs' where vs: "vs = v # vs'" by (cases vs) auto
  with Cons.prems have "w = v" by (auto intro: caip10.enc_inj)
  then show ?case using Cons vs by auto
qed simp

end
