(* ===== verification/Cache.thy ===== *)
theory Cache
  imports Prelude
begin

text \<open>
  The contract of a cache that fetches what it does not hold: \<open>get f k s\<close> answers for the key
  \<open>k\<close> in state \<open>s\<close>, where \<open>f\<close> is what a fetch would bring. The program has two: the
  connections of the RPC resolver and the keys of the JWT middleware.
\<close>

locale cache =
  fixes get :: "'f \<Rightarrow> 'k \<Rightarrow> 's \<Rightarrow> (gerror + 'v) \<times> 's"
    and lookup :: "'s \<Rightarrow> 'k \<Rightarrow> 'v option"
  assumes hit: "lookup s k = Some v \<Longrightarrow> get f k s = (Inr v, s)"
    and filled: "fst (get f k s) = Inr v \<Longrightarrow> lookup (snd (get f k s)) k = Some v"
    and kept: "lookup s j \<noteq> None \<Longrightarrow> lookup (snd (get f k s)) j \<noteq> None"
begin

text \<open>A sequence of requests, each with what its fetch would bring.\<close>

definition gets :: "'s \<Rightarrow> ('f \<times> 'k) list \<Rightarrow> 's" where
  "gets = foldl (\<lambda>s r. snd (get (fst r) (snd r) s))"

lemma gets_simps [simp]:
  "gets s [] = s" "gets s (r # rs) = gets (snd (get (fst r) (snd r) s)) rs"
  by (simp_all add: gets_def)

lemma gets_kept: "lookup s j \<noteq> None \<Longrightarrow> lookup (gets s rs) j \<noteq> None"
proof (induction rs arbitrary: s)
  case (Cons r rs)
  show ?case using Cons.IH [OF kept [OF Cons.prems]] by simp
qed simp

text \<open>A key answered once is answered for ever, and without a fetch.\<close>

lemma answered_for_ever:
  assumes "fst (get f k s) = Inr v"
  shows "\<exists>w. \<forall>g. get g k (gets (snd (get f k s)) rs) = (Inr w, gets (snd (get f k s)) rs)"
proof -
  have "lookup (gets (snd (get f k s)) rs) k \<noteq> None"
    using filled [OF assms] by (intro gets_kept) simp
  then show ?thesis using hit by blast
qed

lemma again: "fst (get f k s) = Inr v \<Longrightarrow> get g k (snd (get f k s)) = (Inr v, snd (get f k s))"
  by (intro hit filled)

end

text \<open>A cache that never replaces what it holds.\<close>

locale stable_cache = cache +
  assumes same: "lookup s j = Some v \<Longrightarrow> lookup (snd (get f k s)) j = Some v"
begin

lemma gets_same: "lookup s j = Some v \<Longrightarrow> lookup (gets s rs) j = Some v"
  by (induction rs arbitrary: s) (auto intro: same)

lemma same_answer:
  assumes "fst (get f k s) = Inr v"
  shows "get g k (gets (snd (get f k s)) rs) = (Inr v, gets (snd (get f k s)) rs)"
  using assms by (intro hit gets_same filled)

end

end
