(* ===== verification/JwtMiddleware.thy ===== *)
theory JwtMiddleware
  imports Issuer Cache
begin

text \<open>
  \<open>examples/middleware/jwt.go\<close>: the cache of the issuer's public keys and the middleware that
  validates a bearer token. A fetch of the key set is its outcome, an error of the request, of
  reading or of the JSON decoding, or the decoded keys; the lock is released during the fetch,
  and the model takes one \<open>get\<close> as one step.

  \<open>jwt.ParseWithClaims\<close> is outside the repository. The code relies on this of it: with the
  given valid methods it hands at most one parsed token to the key function
  (\<open>jvToken\<close>, \<open>None\<close> when it fails before), fails when that fails, and else decides from the
  key, the issuer, the audience, the time and the text (\<open>jvClaims\<close>, \<open>None\<close> on an error or
  an invalid token).
\<close>

record HubClaims =
  hcSubject :: bytes
  hcIdentityID :: bytes
  hcWallets :: "bytes list"

record jwksCache =
  jcURL :: bytes
  jcKeys :: "bytes \<rightharpoonup> PublicKey"

definition newJWKSCache :: "bytes \<Rightarrow> jwksCache" where
  "newJWKSCache url = \<lparr>jcURL = url, jcKeys = Map.empty\<rparr>"

record raw_jwk =
  rjKid :: bytes
  rjN :: bytes
  rjE :: bytes

type_synonym fetch = "bytes \<Rightarrow> gerror + raw_jwk list"

text \<open>The loop over the keys of a document; a key with a bad number is skipped.\<close>

fun fetched_keys :: "raw_jwk list \<Rightarrow> (bytes \<rightharpoonup> PublicKey) \<Rightarrow> (bytes \<rightharpoonup> PublicKey)" where
  "fetched_keys [] fetched = fetched"
| "fetched_keys (k # ks) fetched =
     (case b64_decode RawURLEncoding (rjN k) of
        Ok nBytes \<Rightarrow>
          (case b64_decode RawURLEncoding (rjE k) of
             Ok eBytes \<Rightarrow>
               (let n = big_SetBytes nBytes; e = big_Int64 (big_SetBytes eBytes) in
                fetched_keys ks (fetched(rjKid k \<mapsto> \<lparr>pkN = n, pkE = e\<rparr>)))
           | _ \<Rightarrow> fetched_keys ks fetched)
      | _ \<Rightarrow> fetched_keys ks fetched)"

definition unknown_kid :: "bytes \<Rightarrow> gerror" where
  "unknown_kid kid = NewError (''middleware: unknown kid: '' @ kid)"

definition jwks_refresh :: "fetch \<Rightarrow> bytes \<Rightarrow> jwksCache \<Rightarrow> (gerror + PublicKey) \<times> jwksCache" where
  "jwks_refresh fetch kid c =
     (case jcKeys c kid of
        Some k \<Rightarrow> (Inr k, c)
      | None \<Rightarrow>
          (case fetch (jcURL c) of
             Inl err \<Rightarrow> (Inl err, c)
           | Inr doc \<Rightarrow>
               let c = c\<lparr>jcKeys := jcKeys c ++ fetched_keys doc Map.empty\<rparr> in
               (case jcKeys c kid of
                  Some k \<Rightarrow> (Inr k, c)
                | None \<Rightarrow> (Inl (unknown_kid kid), c))))"

definition jwks_get :: "fetch \<Rightarrow> bytes \<Rightarrow> jwksCache \<Rightarrow> (gerror + PublicKey) \<times> jwksCache" where
  "jwks_get fetch kid c =
     (case jcKeys c kid of Some k \<Rightarrow> (Inr k, c) | None \<Rightarrow> jwks_refresh fetch kid c)"

record jwt_token =
  jtRSA :: bool
  jtKid :: "bytes option"

record JwtParser =
  jvToken :: "bytes list \<Rightarrow> bytes \<Rightarrow> jwt_token option"
  jvClaims :: "bytes list \<Rightarrow> bytes \<Rightarrow> bytes \<Rightarrow> instant \<Rightarrow> PublicKey \<Rightarrow> bytes \<Rightarrow> claims option"

definition bad_method :: gerror where
  "bad_method = NewError ''middleware: unexpected signing method''"

definition jwt_keyfunc :: "fetch \<Rightarrow> jwt_token \<Rightarrow> jwksCache \<Rightarrow> (gerror + PublicKey) \<times> jwksCache" where
  "jwt_keyfunc fetch t c =
     (if \<not> jtRSA t then (Inl bad_method, c)
      else let kid = (case jtKid t of None \<Rightarrow> [] | Some k \<Rightarrow> k) in jwks_get fetch kid c)"

definition ParseWithClaims ::
  "JwtParser \<Rightarrow> bytes list \<Rightarrow> bytes \<Rightarrow> bytes \<Rightarrow> instant \<Rightarrow> fetch \<Rightarrow> bytes \<Rightarrow> jwksCache
     \<Rightarrow> claims option \<times> jwksCache" where
  "ParseWithClaims P methods iss aud now fetch tokenStr c =
     (case jvToken P methods tokenStr of
        None \<Rightarrow> (None, c)
      | Some t \<Rightarrow>
          (case jwt_keyfunc fetch t c of
             (Inl _, c) \<Rightarrow> (None, c)
           | (Inr k, c) \<Rightarrow> (jvClaims P methods iss aud now k tokenStr, c)))"

text \<open>What the middleware leaves in the request's context, or the status and text it aborts
  with.\<close>

record auth_context =
  acIdentityID :: bytes
  acWallets :: "bytes list"
  acClaims :: HubClaims

datatype auth = Abort nat bytes | Next auth_context

definition JWTAuth ::
  "JwtParser \<Rightarrow> bytes \<Rightarrow> bytes \<Rightarrow> instant \<Rightarrow> fetch \<Rightarrow> bytes \<Rightarrow> jwksCache \<Rightarrow> auth \<times> jwksCache" where
  "JWTAuth P expectedIssuer expectedAud now fetch authHeader c =
     (if \<not> has_prefix authHeader ''Bearer '' then (Abort 401 ''missing bearer token'', c)
      else
        let tokenStr = trim_prefix authHeader ''Bearer '' in
        (case ParseWithClaims P [''RS256''] expectedIssuer expectedAud now fetch tokenStr c of
           (None, c) \<Rightarrow> (Abort 401 ''invalid token'', c)
         | (Some cl, c) \<Rightarrow>
             (Next \<lparr>acIdentityID = clSubject cl, acWallets = clWallets cl,
                acClaims = \<lparr>hcSubject = clSubject cl, hcIdentityID = [], hcWallets = clWallets cl\<rparr>\<rparr>, c)))"

datatype me = Claims HubClaims | NoClaims

definition GetMe :: "auth_context option \<Rightarrow> nat \<times> me" where
  "GetMe ctx = (case ctx of None \<Rightarrow> (401, NoClaims) | Some a \<Rightarrow> (200, Claims (acClaims a)))"

section \<open>The key cache\<close>

lemma jwks_get_eq: "jwks_get = jwks_refresh"
  by (auto simp: jwks_get_def jwks_refresh_def fun_eq_iff split: option.split)

interpretation jwks: cache jwks_get "jcKeys"
  by unfold_locales
     (auto simp: jwks_get_eq jwks_refresh_def Let_def map_add_def split: option.splits sum.splits)

text \<open>The documents a middleware reads from the issuer: the fields it decodes.\<close>

definition as_raw :: "jwk \<Rightarrow> raw_jwk" where
  "as_raw k = \<lparr>rjKid = jwKid k, rjN = jwN k, rjE = jwE k\<rparr>"

lemma fetched_issuer:
  assumes "0 \<le>s pkE (skPublic (miKey m))"
  shows "fetched_keys (map as_raw (issuer_JWKS m)) Map.empty = [mockKid \<mapsto> skPublic (miKey m)]"
  using Int64_int_Bytes [OF assms]
  by (cases "skPublic (miKey m)")
     (simp add: issuer_JWKS_def as_raw_def Let_def raw_url.b64_decode_encode big_SetBytes_Bytes)

lemma jwks_get_issuer:
  assumes "0 \<le>s pkE (skPublic (miKey m))" and "fetch (jcURL c) = Inr (map as_raw (issuer_JWKS m))"
    and "jcKeys c mockKid \<in> {None, Some (skPublic (miKey m))}"
  shows "fst (jwks_get fetch mockKid c) = Inr (skPublic (miKey m))"
  using assms
  by (auto simp: jwks_get_def jwks_refresh_def fetched_issuer [OF assms(1)] Let_def)

section \<open>The middleware\<close>

lemma JWTAuth_Next:
  "fst (JWTAuth P iss aud now fetch h c) = Next a \<longleftrightarrow>
     (\<exists>tok t k cl. h = ''Bearer '' @ tok \<and> jvToken P [''RS256''] tok = Some t \<and> jtRSA t
        \<and> fst (jwks_get fetch (case jtKid t of None \<Rightarrow> [] | Some k \<Rightarrow> k) c) = Inr k
        \<and> jvClaims P [''RS256''] iss aud now k tok = Some cl
        \<and> a = \<lparr>acIdentityID = clSubject cl, acWallets = clWallets cl,
            acClaims = \<lparr>hcSubject = clSubject cl, hcIdentityID = [], hcWallets = clWallets cl\<rparr>\<rparr>)"
proof (cases "has_prefix h ''Bearer ''")
  case True
  then obtain tok where h: "h = ''Bearer '' @ tok" by (auto simp: has_prefix_iff)
  then have t: "trim_prefix h ''Bearer '' = tok" by (simp only: trim_prefix_append)
  show ?thesis
    unfolding JWTAuth_def Let_def t ParseWithClaims_def jwt_keyfunc_def
    using True h by (auto split: option.splits prod.splits sum.splits if_splits)
next
  case False
  then have "\<nexists>tok. h = ''Bearer '' @ tok" by (auto simp: has_prefix_iff)
  with False show ?thesis by (auto simp: JWTAuth_def)
qed

lemma JWTAuth_Abort: "fst (JWTAuth P iss aud now fetch h c) = Abort st msg \<Longrightarrow> st = 401"
  by (auto simp: JWTAuth_def Let_def split: prod.splits option.splits if_splits)

text \<open>A token the library signed, and what it documents of parsing it: the header is read
  back, and the claims come back exactly when issuer, audience and expiry are right.\<close>

definition jwt_verifies :: "JwtParser \<Rightarrow> PrivateKey \<Rightarrow> bytes \<Rightarrow> claims \<Rightarrow> bytes \<Rightarrow> bool" where
  "jwt_verifies P key kid cl tok \<longleftrightarrow>
     jvToken P [''RS256''] tok = Some \<lparr>jtRSA = True, jtKid = Some kid\<rparr>
     \<and> (\<forall>iss aud now. jvClaims P [''RS256''] iss aud now (skPublic key) tok =
           (if clIssuer cl = iss \<and> aud \<in> set (clAudience cl) \<and> now < clExpiresAt cl
            then Some cl else None))"

text \<open>A cache that holds the issuer's key or none, and a fetch that brings its document.\<close>

definition issuer_cache :: "mockIssuer \<Rightarrow> fetch \<Rightarrow> jwksCache \<Rightarrow> bool" where
  "issuer_cache m fetch c \<longleftrightarrow> 0 \<le>s pkE (skPublic (miKey m))
     \<and> fetch (jcURL c) = Inr (map as_raw (issuer_JWKS m))
     \<and> jcKeys c mockKid \<in> {None, Some (skPublic (miKey m))}"

lemma JWTAuth_issued:
  assumes "issuer_cache m fetch c" and "jwt_verifies P (miKey m) mockKid cl tok"
    and "clIssuer cl = miIssuerURL m" and "clAudience cl = [miAudience m]"
  shows "fst (JWTAuth P (miIssuerURL m) (miAudience m) now fetch (''Bearer '' @ tok) c) =
     (if now < clExpiresAt cl
      then Next \<lparr>acIdentityID = clSubject cl, acWallets = clWallets cl,
        acClaims = \<lparr>hcSubject = clSubject cl, hcIdentityID = [], hcWallets = clWallets cl\<rparr>\<rparr>
      else Abort 401 ''invalid token'')"
proof -
  have key: "fst (jwks_get fetch mockKid c) = Inr (skPublic (miKey m))"
    using assms(1) by (intro jwks_get_issuer) (auto simp: issuer_cache_def)
  have t: "trim_prefix (''Bearer '' @ tok) ''Bearer '' = tok" "has_prefix (''Bearer '' @ tok) ''Bearer ''"
    by (simp_all only: trim_prefix_append has_prefix_append)
  show ?thesis
    unfolding JWTAuth_def Let_def t ParseWithClaims_def jwt_keyfunc_def
    using key assms(2-4) by (auto simp: jwt_verifies_def split: prod.split)
qed

section \<open>Properties\<close>

text \<open>The middleware lets a request through exactly when its header is a bearer token, the
  library hands an RSA token to the key function, the cache has or fetches the key of the
  token's key id, and the library validates the token with that key, the expected issuer and
  audience; the identity and the wallets of the request are then those of the claims. In
  every other case it aborts with 401.\<close>

theorem JWTAuth_iff:
  "(fst (JWTAuth P iss aud now fetch h c) = Next a \<longleftrightarrow>
     (\<exists>tok t k cl. h = ''Bearer '' @ tok \<and> jvToken P [''RS256''] tok = Some t \<and> jtRSA t
        \<and> fst (jwks_get fetch (case jtKid t of None \<Rightarrow> [] | Some k \<Rightarrow> k) c) = Inr k
        \<and> jvClaims P [''RS256''] iss aud now k tok = Some cl
        \<and> a = \<lparr>acIdentityID = clSubject cl, acWallets = clWallets cl,
            acClaims = \<lparr>hcSubject = clSubject cl, hcIdentityID = [], hcWallets = clWallets cl\<rparr>\<rparr>))
   \<and> ((\<exists>a. fst (JWTAuth P iss aud now fetch h c) = Next a)
        \<or> (\<exists>msg. fst (JWTAuth P iss aud now fetch h c) = Abort 401 msg))"
proof (rule conjI [OF JWTAuth_Next])
  show "(\<exists>a. fst (JWTAuth P iss aud now fetch h c) = Next a)
      \<or> (\<exists>msg. fst (JWTAuth P iss aud now fetch h c) = Abort 401 msg)"
    by (cases "fst (JWTAuth P iss aud now fetch h c)") (auto dest: JWTAuth_Abort)
qed


definition sample_issuer :: mockIssuer where
  "sample_issuer = \<lparr>miKey = \<lparr>skPublic = \<lparr>pkN = 3233, pkE = 65537\<rparr>, skPrivate = ''d''\<rparr>,
     miIssuerURL = ''https://hub'', miAudience = ''demo''\<rparr>"

definition sample_jwt :: JwtLib where
  "sample_jwt = \<lparr>jlNumericDate = (\<lambda>t. t div 1000000000 * 1000000000), jlSigned = (\<lambda>k kid cl. Inr ''tok'')\<rparr>"

definition sample_parser :: "claims \<Rightarrow> JwtParser" where
  "sample_parser cl =
     \<lparr>jvToken = (\<lambda>ms tok. if tok = ''tok'' then Some \<lparr>jtRSA = True, jtKid = Some mockKid\<rparr> else None),
      jvClaims = (\<lambda>ms iss aud now k tok.
        if tok = ''tok'' \<and> k = skPublic (miKey sample_issuer) \<and> clIssuer cl = iss
           \<and> aud \<in> set (clAudience cl) \<and> now < clExpiresAt cl then Some cl else None)\<rparr>"

definition sample_fetch :: fetch where
  "sample_fetch url = Inr (map as_raw (issuer_JWKS sample_issuer))"

lemma sample_issuer_cache: "issuer_cache sample_issuer sample_fetch (newJWKSCache url)"
proof -
  have "0 \<le>s (65537 :: 64 word)" by code_simp
  then show ?thesis
    by (simp add: issuer_cache_def sample_fetch_def newJWKSCache_def) (simp add: sample_issuer_def)
qed

lemma sample_jwt_verifies:
  "jwt_verifies (sample_parser cl) (miKey sample_issuer) mockKid cl ''tok''"
  by (simp add: jwt_verifies_def sample_parser_def)


text \<open>The key cache never drops a key: once a key id has been answered, it is answered in
  every later state without a fetch, so a key the issuer withdraws stays valid; a later
  document fetched for another key id can replace it but not remove it.\<close>

theorem jwks_key_kept:
  assumes "fst (jwks_get fetch kid c) = Inr k"
  shows "\<exists>k'. \<forall>fetch'. jwks_get fetch' kid (jwks.gets (snd (jwks_get fetch kid c)) rs)
     = (Inr k', jwks.gets (snd (jwks_get fetch kid c)) rs)"
  using jwks.answered_for_ever [OF assms] .

theorem jwks_key_kept_witness:
  "\<exists>k'. fst (jwks_get (\<lambda>_. Inr []) mockKid (jwks.gets
     (snd (jwks_get sample_fetch mockKid (newJWKSCache ''u''))) [(\<lambda>_. Inr [], ''other'')])) = Inr k'"
proof -
  have "fst (jwks_get sample_fetch mockKid (newJWKSCache ''u'')) = Inr (skPublic (miKey sample_issuer))"
    using sample_issuer_cache [of "''u''"] by (intro jwks_get_issuer) (auto simp: issuer_cache_def)
  from jwks_key_kept [OF this, of "[(\<lambda>_. Inr [], ''other'')]"] obtain k' where
    "\<forall>fetch'. jwks_get fetch' mockKid (jwks.gets
       (snd (jwks_get sample_fetch mockKid (newJWKSCache ''u''))) [(\<lambda>_. Inr [], ''other'')])
     = (Inr k', jwks.gets (snd (jwks_get sample_fetch mockKid (newJWKSCache ''u''))) [(\<lambda>_. Inr [], ''other'')])"
    by blast
  then have "fst (jwks_get (\<lambda>_. Inr []) mockKid (jwks.gets
       (snd (jwks_get sample_fetch mockKid (newJWKSCache ''u''))) [(\<lambda>_. Inr [], ''other'')])) = Inr k'"
    by (simp only: fst_conv)
  then show ?thesis by blast
qed

end
