(* ===== verification/GoStrings.thy ===== *)
theory GoStrings
  imports Prelude
begin

text \<open>
  More of \<open>strings\<close>, \<open>strconv\<close> and \<open>bufio\<close>, as the hub's configuration and handlers use
  them: trimming, cutting at a byte, lower case, decimal integers, and the lines of a scanner.
\<close>

section \<open>Trimming\<close>

text \<open>The UTF-8 texts of the runes that \<open>unicode.IsSpace\<close> holds of. UTF-8 synchronises itself,
  so a string begins (ends) with such a rune exactly when it has its text as prefix (suffix).\<close>

definition space_texts :: "bytes list" where
  "space_texts =
     [[CHR 0x09], [CHR 0x0A], [CHR 0x0B], [CHR 0x0C], [CHR 0x0D], [CHR 0x20],
      [CHR 0xC2, CHR 0x85], [CHR 0xC2, CHR 0xA0], [CHR 0xE1, CHR 0x9A, CHR 0x80],
      [CHR 0xE2, CHR 0x80, CHR 0x80], [CHR 0xE2, CHR 0x80, CHR 0x81], [CHR 0xE2, CHR 0x80, CHR 0x82],
      [CHR 0xE2, CHR 0x80, CHR 0x83], [CHR 0xE2, CHR 0x80, CHR 0x84], [CHR 0xE2, CHR 0x80, CHR 0x85],
      [CHR 0xE2, CHR 0x80, CHR 0x86], [CHR 0xE2, CHR 0x80, CHR 0x87], [CHR 0xE2, CHR 0x80, CHR 0x88],
      [CHR 0xE2, CHR 0x80, CHR 0x89], [CHR 0xE2, CHR 0x80, CHR 0x8A], [CHR 0xE2, CHR 0x80, CHR 0xA8],
      [CHR 0xE2, CHR 0x80, CHR 0xA9], [CHR 0xE2, CHR 0x80, CHR 0xAF], [CHR 0xE2, CHR 0x81, CHR 0x9F],
      [CHR 0xE3, CHR 0x80, CHR 0x80]]"

lemma space_found:
  assumes "find P space_texts = Some p"
  shows "p \<noteq> []" and "P p"
proof -
  have "p \<in> set space_texts" "P p" using assms by (auto simp: find_Some_iff in_set_conv_nth)
  then show "p \<noteq> []" "P p" by (auto simp: space_texts_def)
qed

function trim_left_space :: "bytes \<Rightarrow> bytes" where
  "trim_left_space s =
     (case find (has_prefix s) space_texts of
        None \<Rightarrow> s | Some p \<Rightarrow> trim_left_space (drop (length p) s))"
  by pat_completeness auto
termination
proof (relation "measure length", simp)
  fix s p assume "find (has_prefix s) space_texts = Some p"
  then show "(drop (length p) s, s) \<in> measure length"
    using space_found [of "has_prefix s" p] by (auto simp: has_prefix_iff)
qed

function trim_right_space :: "bytes \<Rightarrow> bytes" where
  "trim_right_space s =
     (case find (has_suffix s) space_texts of
        None \<Rightarrow> s | Some p \<Rightarrow> trim_right_space (take (length s - length p) s))"
  by pat_completeness auto
termination
proof (relation "measure length", simp)
  fix s p assume "find (has_suffix s) space_texts = Some p"
  then show "(take (length s - length p) s, s) \<in> measure length"
    using space_found [of "has_suffix s" p] by (auto simp: has_suffix_iff)
qed

declare trim_left_space.simps [simp del] trim_right_space.simps [simp del]

definition TrimSpace :: "bytes \<Rightarrow> bytes" where
  "TrimSpace s = trim_right_space (trim_left_space s)"

text \<open>\<open>strings.Trim(s, cutset)\<close> for a cutset of ASCII bytes.\<close>

definition trim_set :: "bytes \<Rightarrow> bytes \<Rightarrow> bytes" where
  "trim_set cutset s =
     rev (dropWhile (\<lambda>c. c \<in> set cutset) (rev (dropWhile (\<lambda>c. c \<in> set cutset) s)))"

text \<open>\<open>strings.Cut(s, sep)\<close> for a separator of one byte: \<open>None\<close> when it does not occur.\<close>

definition cut_byte :: "byte \<Rightarrow> bytes \<Rightarrow> (bytes \<times> bytes) option" where
  "cut_byte c s =
     (if c \<in> set s then Some (takeWhile (\<lambda>x. x \<noteq> c) s, tl (dropWhile (\<lambda>x. x \<noteq> c) s)) else None)"

text \<open>\<open>strings.ToLower\<close> on ASCII letters. A rune above 127 that lowers to ASCII lowers to \<open>i\<close>
  or \<open>k\<close>, which occur in none of the words the program compares the result with.\<close>

definition to_lower :: "bytes \<Rightarrow> bytes" where
  "to_lower = map (\<lambda>c. let n = of_char c :: nat in
     if 65 \<le> n \<and> n \<le> 90 then char_of (n + 32) else c)"

lemma cut_byte_Some: "cut_byte c s = Some (k, v) \<longleftrightarrow> s = k @ c # v \<and> c \<notin> set k"
proof
  assume *: "cut_byte c s = Some (k, v)"
  then have c: "c \<in> set s" and kv: "k = takeWhile (\<lambda>x. x \<noteq> c) s" "v = tl (dropWhile (\<lambda>x. x \<noteq> c) s)"
    by (auto simp: cut_byte_def split: if_splits)
  from c have "dropWhile (\<lambda>x. x \<noteq> c) s \<noteq> []" by (auto simp: dropWhile_eq_Nil_conv)
  moreover have "hd (dropWhile (\<lambda>x. x \<noteq> c) s) = c"
    using hd_dropWhile [of "\<lambda>x. x \<noteq> c" s] calculation by blast
  ultimately have "dropWhile (\<lambda>x. x \<noteq> c) s = c # v" using kv by (cases "dropWhile (\<lambda>x. x \<noteq> c) s") auto
  then have "s = k @ c # v" using kv takeWhile_dropWhile_id [of "\<lambda>x. x \<noteq> c" s] by simp
  moreover have "c \<notin> set k" using kv by (auto dest: set_takeWhileD)
  ultimately show "s = k @ c # v \<and> c \<notin> set k" by simp
next
  assume "s = k @ c # v \<and> c \<notin> set k"
  then have s: "s = k @ c # v" and k: "\<forall>x \<in> set k. x \<noteq> c" by auto
  have "takeWhile (\<lambda>x. x \<noteq> c) s = k" "dropWhile (\<lambda>x. x \<noteq> c) s = c # v"
    using k by (auto simp: s takeWhile_append dropWhile_append)
  then show "cut_byte c s = Some (k, v)" by (simp add: cut_byte_def s)
qed

section \<open>Decimal integers\<close>

definition is_digit :: "byte \<Rightarrow> bool" where
  "is_digit c \<longleftrightarrow> 48 \<le> (of_char c :: nat) \<and> (of_char c :: nat) \<le> 57"

definition dec_value :: "bytes \<Rightarrow> nat" where
  "dec_value = foldl (\<lambda>n c. n * 10 + (of_char c - 48)) 0"

text \<open>\<open>strconv.Atoi\<close>: an optional sign, digits, and the range of an \<open>int64\<close>; \<open>None\<close> for an
  error.\<close>

definition Atoi :: "bytes \<Rightarrow> int option" where
  "Atoi s =
     (let (neg, ds) = (case s of [] \<Rightarrow> (False, [])
            | c # t \<Rightarrow> if c = CHR ''-'' then (True, t) else if c = CHR ''+'' then (False, t) else (False, s))
      in if ds = [] \<or> \<not> list_all is_digit ds then None
         else let n = (if neg then - int (dec_value ds) else int (dec_value ds)) in
           if - (2 ^ 63) \<le> n \<and> n < 2 ^ 63 then Some n else None)"

lemma Atoi_range: "Atoi s = Some n \<Longrightarrow> - (2 ^ 63) \<le> n \<and> n < 2 ^ 63"
  by (auto simp: Atoi_def Let_def split: prod.splits if_splits)

section \<open>Lines of a scanner\<close>

text \<open>\<open>bufio.Scanner\<close> with its default split: lines end at a newline, of which a carriage
  return before it is a part; nothing after the last newline is no line. A line that does not
  fit the buffer of 65536 bytes stops the scan.\<close>

definition scan_lines :: "bytes \<Rightarrow> bytes list" where
  "scan_lines s =
     (let ls = split_byte (CHR 0x0A) s;
          ls = (if last ls = [] then butlast ls else ls)
      in map (\<lambda>l. if l \<noteq> [] \<and> last l = CHR 0x0D then butlast l else l)
           (takeWhile (\<lambda>l. length l < 65536) ls))"

section \<open>What trimming does\<close>

lemma trim_left_space_suffix: "\<exists>p. s = p @ trim_left_space s"
proof (induction s rule: trim_left_space.induct)
  case (1 s)
  show ?case
  proof (cases "find (has_prefix s) space_texts")
    case None
    then show ?thesis by (simp add: trim_left_space.simps)
  next
    case (Some p)
    then obtain t where s: "s = p @ t" using space_found(2) [OF Some] by (auto simp: has_prefix_iff)
    obtain q where "drop (length p) s = q @ trim_left_space (drop (length p) s)" using 1 [OF Some] by blast
    moreover have "trim_left_space s = trim_left_space (drop (length p) s)"
      by (subst trim_left_space.simps) (simp add: Some)
    moreover have "s = p @ drop (length p) s" using s by simp
    ultimately have "s = (p @ q) @ trim_left_space s" by (metis append.assoc)
    then show ?thesis by blast
  qed
qed

lemma trim_right_space_prefix: "\<exists>t. s = trim_right_space s @ t"
proof (induction s rule: trim_right_space.induct)
  case (1 s)
  show ?case
  proof (cases "find (has_suffix s) space_texts")
    case None
    then show ?thesis by (simp add: trim_right_space.simps)
  next
    case (Some p)
    then obtain t where s: "s = t @ p" using space_found(2) [OF Some] by (auto simp: has_suffix_iff)
    obtain q where "take (length s - length p) s = trim_right_space (take (length s - length p) s) @ q"
      using 1 [OF Some] by blast
    moreover have "trim_right_space s = trim_right_space (take (length s - length p) s)"
      by (subst trim_right_space.simps) (simp add: Some)
    moreover have "s = take (length s - length p) s @ p" using s by simp
    ultimately have "s = trim_right_space s @ (q @ p)" by (metis append.assoc)
    then show ?thesis by blast
  qed
qed

lemma TrimSpace_factor: "\<exists>p t. s = p @ TrimSpace s @ t"
  unfolding TrimSpace_def
  by (metis trim_left_space_suffix trim_right_space_prefix)

lemma TrimSpace_id:
  "find (has_prefix s) space_texts = None \<Longrightarrow> find (has_suffix s) space_texts = None \<Longrightarrow> TrimSpace s = s"
  by (simp add: TrimSpace_def trim_left_space.simps trim_right_space.simps)

end
