(* ===== verification/HubConfig.thy ===== *)
theory HubConfig
  imports GoStrings
begin

text \<open>
  \<open>examples/hub/config.go\<close> and the helpers of \<open>examples/hub/main.go\<close>: the hub's settings from
  the process environment and an optional \<open>.env\<close> file. The environment is a map; the file is
  its content, \<open>None\<close> when it cannot be opened.
\<close>

type_synonym environ = "bytes \<rightharpoonup> bytes"

record Config =
  cfDomain :: bytes
  cfAddr :: bytes
  cfJWKSURL :: bytes
  cfIssuerURL :: bytes
  cfAudience :: bytes
  cfStatement :: bytes
  cfSolanaChain :: bytes
  cfSessionTTLMin :: int
  cfContractWalletDemo :: bool

definition os_Getenv :: "environ \<Rightarrow> bytes \<Rightarrow> bytes" where
  "os_Getenv m key = (case m key of None \<Rightarrow> [] | Some v \<Rightarrow> v)"

text \<open>\<open>os.Setenv\<close> fails, and changes nothing, on an empty key, on a key with an equals sign or
  a zero byte, and on a value with a zero byte.\<close>

definition os_Setenv :: "bytes \<Rightarrow> bytes \<Rightarrow> environ \<Rightarrow> environ" where
  "os_Setenv key val m =
     (if key = [] \<or> CHR ''='' \<in> set key \<or> CHR 0x00 \<in> set key \<or> CHR 0x00 \<in> set val then m
      else m(key \<mapsto> val))"

definition env :: "environ \<Rightarrow> bytes \<Rightarrow> bytes \<Rightarrow> bytes" where
  "env m key fallback = (let v = os_Getenv m key in if v \<noteq> [] then v else fallback)"

definition buildDomain :: "bytes \<Rightarrow> bytes \<Rightarrow> bytes" where
  "buildDomain host port =
     (if CHR '':'' \<in> set host \<or> port = [] then host else host @ '':'' @ port)"

definition envBool :: "environ \<Rightarrow> bytes \<Rightarrow> bool \<Rightarrow> bool" where
  "envBool m key fallback =
     (let v = to_lower (TrimSpace (os_Getenv m key)) in
      if v = [] then fallback
      else if v \<in> {''1'', ''true'', ''yes'', ''on''} then True
      else if v \<in> {''0'', ''false'', ''no'', ''off''} then False
      else fallback)"

definition envInt :: "environ \<Rightarrow> bytes \<Rightarrow> int \<Rightarrow> int" where
  "envInt m key fallback =
     (let v = os_Getenv m key in
      if v \<noteq> [] then (case Atoi v of Some n \<Rightarrow> n | None \<Rightarrow> fallback) else fallback)"

text \<open>The entry of one line: \<open>None\<close> for a blank line, a comment or a line without an equals
  sign.\<close>

definition dotenv_entry :: "bytes \<Rightarrow> (bytes \<times> bytes) option" where
  "dotenv_entry text =
     (let line = TrimSpace text in
      if line = [] \<or> has_prefix line ''#'' then None
      else (case cut_byte (CHR ''='') line of
              None \<Rightarrow> None
            | Some (key, val) \<Rightarrow> Some (TrimSpace key, trim_set [CHR 0x22, CHR 0x27] (TrimSpace val))))"

primrec dotenv_loop :: "bytes list \<Rightarrow> environ \<Rightarrow> environ" where
  "dotenv_loop [] m = m"
| "dotenv_loop (line # ls) m =
     (case dotenv_entry line of
        None \<Rightarrow> dotenv_loop ls m
      | Some (key, val) \<Rightarrow>
          if m key = None then dotenv_loop ls (os_Setenv key val m) else dotenv_loop ls m)"

definition loadDotEnv :: "bytes option \<Rightarrow> environ \<Rightarrow> environ" where
  "loadDotEnv file m = (case file of None \<Rightarrow> m | Some s \<Rightarrow> dotenv_loop (scan_lines s) m)"

definition loadConfig :: "bytes option \<Rightarrow> environ \<Rightarrow> Config \<times> environ" where
  "loadConfig file m =
     (let m = loadDotEnv file m;
          port = env m ''SIWX_PORT'' ''8081'' in
      (\<lparr>cfDomain = buildDomain (env m ''SIWX_DOMAIN'' ''localhost'') port,
        cfAddr = env m ''SIWX_ADDR'' ('':'' @ port),
        cfJWKSURL = env m ''SIWX_JWKS_URL'' (''http://localhost:'' @ port @ ''/.well-known/jwks.json''),
        cfIssuerURL = env m ''SIWX_ISSUER_URL'' ''https://accounts.example.local'',
        cfAudience = env m ''SIWX_AUDIENCE'' ''siwx-go-demo'',
        cfStatement = env m ''SIWX_STATEMENT'' ''Sign in to siwx-go demo'',
        cfSolanaChain = env m ''SIWX_SOLANA_CHAIN'' ''mainnet'',
        cfSessionTTLMin = envInt m ''SIWX_SESSION_TTL_MIN'' 10,
        cfContractWalletDemo = envBool m ''SIWX_EVM_CONTRACT_DEMO'' True\<rparr>, m))"

section \<open>What the file adds\<close>

text \<open>An entry that \<open>os.Setenv\<close> takes.\<close>

definition settable :: "bytes \<times> bytes \<Rightarrow> bool" where
  "settable kv \<longleftrightarrow> fst kv \<noteq> [] \<and> CHR ''='' \<notin> set (fst kv) \<and> CHR 0x00 \<notin> set (fst kv)
     \<and> CHR 0x00 \<notin> set (snd kv)"

definition dotenv_entries :: "bytes list \<Rightarrow> (bytes \<times> bytes) list" where
  "dotenv_entries ls = filter settable (List.map_filter dotenv_entry ls)"

lemma map_filter_Cons:
  "List.map_filter f (x # xs) = (case f x of None \<Rightarrow> List.map_filter f xs | Some y \<Rightarrow> y # List.map_filter f xs)"
  by (simp add: List.map_filter_def split: option.split)

lemma dotenv_entries_Cons:
  "dotenv_entries (l # ls) = (case dotenv_entry l of None \<Rightarrow> dotenv_entries ls
     | Some kv \<Rightarrow> if settable kv then kv # dotenv_entries ls else dotenv_entries ls)"
  by (simp add: dotenv_entries_def map_filter_Cons split: option.split)

lemma dotenv_entries_Nil [simp]: "dotenv_entries [] = []"
  by (simp add: dotenv_entries_def List.map_filter_def)

lemma os_Setenv_settable: "os_Setenv k v m = (if settable (k, v) then m(k \<mapsto> v) else m)"
  by (simp add: os_Setenv_def settable_def)

lemma dotenv_loop_eq: "dotenv_loop ls m = map_of (dotenv_entries ls) ++ m"
proof (induction ls arbitrary: m)
  case (Cons l ls)
  show ?case
  proof (cases "dotenv_entry l")
    case None
    then show ?thesis using Cons by (simp add: dotenv_entries_Cons)
  next
    case (Some kv)
    obtain k v where kv: "kv = (k, v)" by (cases kv)
    show ?thesis
      using Cons Some kv
      by (auto simp: dotenv_entries_Cons os_Setenv_settable fun_eq_iff map_add_def split: option.splits)
  qed
qed simp

section \<open>Properties\<close>

text \<open>C39. The real environment wins over the file, and the first of two lines for one variable
  wins: loading adds exactly the settable entries of the file, in that priority, and loading
  the same file again changes nothing.\<close>

theorem loadDotEnv_adds:
  "loadDotEnv (Some s) m = map_of (dotenv_entries (scan_lines s)) ++ m
   \<and> loadDotEnv (Some s) (loadDotEnv (Some s) m) = loadDotEnv (Some s) m
   \<and> m \<subseteq>\<^sub>m loadDotEnv file m"
  by (auto simp: loadDotEnv_def dotenv_loop_eq map_le_def map_add_def fun_eq_iff split: option.splits)

text \<open>The domain the hub expects is never empty (an empty one would refuse every sign-in), and
  the session window is a 64-bit integer, whatever the environment and the file hold.\<close>

theorem loadConfig_usable:
  "cfDomain (fst (loadConfig file m)) \<noteq> [] \<and> cfAddr (fst (loadConfig file m)) \<noteq> []
   \<and> cfIssuerURL (fst (loadConfig file m)) \<noteq> [] \<and> cfAudience (fst (loadConfig file m)) \<noteq> []
   \<and> - (2 ^ 63) \<le> cfSessionTTLMin (fst (loadConfig file m))
   \<and> cfSessionTTLMin (fst (loadConfig file m)) < 2 ^ 63"
proof -
  have e: "fb \<noteq> [] \<Longrightarrow> env n k fb \<noteq> []" for n k fb by (simp add: env_def Let_def)
  have "envInt n k 10 < 2 ^ 63 \<and> - (2 ^ 63) \<le> envInt n k 10" for n k
    using Atoi_range by (auto simp: envInt_def Let_def split: option.split)
  then show ?thesis using e by (simp add: loadConfig_def Let_def buildDomain_def)
qed

end
