(* ===== verification/Hub.thy ===== *)
theory Hub
  imports NonceStore IdentityStore Recorder Problems ContractWallet JwtMiddleware Dispatch HubConfig
begin

text \<open>
  \<open>examples/hub/handlers.go\<close> and \<open>examples/hub/main.go\<close>: the handlers of the hub over its
  state, and the router. A handler takes the request and what the outside gives it while it
  runs (\<open>env\<close>: clock readings and random bytes), and returns the reply and the new state.

  The web framework is outside: a request is what the handler reads of it, with \<open>rqBody\<close> the
  result of \<open>ShouldBindJSON\<close> and \<open>rqCookie\<close> the nonce cookie or the empty string; a reply is
  the cookie it sets and its body. A panic is caught by the framework's recovery middleware:
  what the handler had changed stays, and the reply is \<open>Recovered\<close>.

  The EVM verifier in the registry holds a pointer to the demo chain, so \<open>hRegistry\<close> is a
  function of its state. The recorder is the outside observer 0; its methods do not panic.
\<close>

record verifyRequest =
  vrMessage :: bytes
  vrSignature :: bytes
  vrChainID :: bytes

record verifyResponse =
  vsToken :: bytes
  vsIdentityID :: bytes
  vsChecks :: "CheckInfo list"

record hub =
  hDomain :: bytes
  hRegistry :: "demo_wallets option \<Rightarrow> registry"
  hNonces :: nonce_store
  hIds :: identity_store
  hIssuer :: mockIssuer
  hRecorder :: recorder
  hStatement :: bytes
  hSolanaChain :: bytes
  hSessionTTLMin :: int
  hContractWalletDemo :: bool
  hDemoWallets :: "demo_wallets option"

record env =
  enTime :: "nat \<Rightarrow> instant"
  enWall :: clock
  enNow :: instant
  enNonceRnd :: "bytes option"
  enAttemptRnd :: "bytes option"
  enRegistryRnd :: "bytes option"
  enIdRnd :: "bytes option"

record request =
  rqRequestID :: bytes
  rqBody :: "verifyRequest option"
  rqOwner :: "bytes option"
  rqCookie :: bytes
  rqIdentity :: "bytes option"

datatype cookie = KeepCookie | SetCookie bytes int | ClearCookie

datatype body =
    ProblemBody problem
  | ErrorBody nat bytes
  | NonceBody bytes bytes
  | ConfigBody bytes bytes int bool
  | WalletBody bytes bytes
  | VerifyBody verifyResponse
  | LinkedBody bytes
  | JWKSBody "jwk list"
  | Recovered

type_synonym reply = "cookie \<times> body"

text \<open>The parts of go-ethereum the hub calls itself, with the other libraries, and the table of
  printing characters of the package \<open>unicode\<close>.\<close>

record HubLib =
  hlDemo :: DemoLib
  hlJwt :: JwtLib
  hlErrorText :: "gerror \<Rightarrow> bytes"
  hlIsHexAddress :: "bytes \<Rightarrow> bool"
  hlHexToAddress :: "bytes \<Rightarrow> bytes"
  hlHex :: "bytes \<Rightarrow> bytes"
  hlIsPrint :: "nat \<Rightarrow> bool"

definition no_panics :: panics where
  "no_panics = (\<lambda>_ _. False)"

section \<open>Nonces and configuration\<close>

definition nonceTTL :: int where
  "nonceTTL = 10 * 60 * 1000000000"

definition setNonceCookie :: "bytes \<Rightarrow> cookie" where
  "setNonceCookie nonce = SetCookie nonce (nonceTTL div 1000000000)"

definition clearNonceCookie :: cookie where
  "clearNonceCookie = ClearCookie"

definition getNonce :: "env \<Rightarrow> hub \<Rightarrow> reply \<times> hub" where
  "getNonce en h =
     (case Issue (enTime en) (enNonceRnd en) nonceTTL (hNonces h) of
        (Ok nonce, ns) \<Rightarrow>
          ((setNonceCookie nonce, NonceBody nonce (hDomain h)),
           h\<lparr>hNonces := ns,
             hRecorder := (hRecorder h)\<lparr>rcCounters := incNonceIssued (rcCounters (hRecorder h))\<rparr>\<rparr>)
      | (_, ns) \<Rightarrow> ((KeepCookie, ErrorBody 500 ''nonce issue failed''), h\<lparr>hNonces := ns\<rparr>))"

definition getConfig :: "hub \<Rightarrow> reply \<times> hub" where
  "getConfig h =
     ((KeepCookie, ConfigBody (hStatement h) (hSolanaChain h) (hSessionTTLMin h)
        (hContractWalletDemo h)), h)"

definition problem_reply :: "cookie \<Rightarrow> gerror \<Rightarrow> request \<Rightarrow> reply" where
  "problem_reply ck err rq = (ck, ProblemBody (writeProblem err (rqRequestID rq)))"

definition postRegisterContractWallet :: "HubLib \<Rightarrow> request \<Rightarrow> hub \<Rightarrow> reply \<times> hub" where
  "postRegisterContractWallet H rq h =
     (case hDemoWallets h of
        None \<Rightarrow> ((KeepCookie, ErrorBody 404 ''contract wallet demo disabled''), h)
      | Some d \<Rightarrow>
          (case rqOwner rq of
             None \<Rightarrow> (problem_reply KeepCookie (Sentinel ErrMalformed) rq, h)
           | Some ow \<Rightarrow>
               let owner = TrimSpace ow in
               if \<not> hlIsHexAddress H owner
               then (problem_reply KeepCookie (Sentinel ErrMalformed) rq, h)
               else
                 (case RegisterWallet (hlDemo H) (hlHexToAddress H owner) d of
                    (wallet, d) \<Rightarrow>
                      ((KeepCookie, WalletBody (hlHex H wallet) (hlHex H (hlHexToAddress H owner))),
                       h\<lparr>hDemoWallets := Some d\<rparr>))))"

section \<open>Sign-in and linking\<close>

text \<open>The body of a request: its JSON, two base64 texts and a chain id. Both handlers answer
  every failure here with the same problem.\<close>

definition read_request :: "request \<Rightarrow> (bytes \<times> bytes \<times> CAIP2) res" where
  "read_request rq =
     (case rqBody rq of
        None \<Rightarrow> Err (Sentinel ErrMalformed)
      | Some req \<Rightarrow>
          bind_res (b64_decode StdEncoding (vrMessage req)) (\<lambda>msg.
          bind_res (b64_decode StdEncoding (vrSignature req)) (\<lambda>sig.
          bind_res (ParseCAIP2 (vrChainID req)) (\<lambda>chainID. Ok (msg, sig, chainID)))))"

definition hub_newAttemptID :: "bytes option \<Rightarrow> bytes res" where
  "hub_newAttemptID rnd = (case rnd of None \<Rightarrow> Panic | Some b \<Rightarrow> Ok (hex_EncodeToString b))"

text \<open>One call of the registry with the recorder listening.\<close>

definition hub_opts :: "env \<Rightarrow> bytes \<Rightarrow> bytes \<Rightarrow> hub \<Rightarrow> VerifyOpts" where
  "hub_opts en nonce attemptID h =
     \<lparr>voExpectedDomain = hDomain h, voExpectedNonce = nonce, voObserver = Some (External 0),
      voClock = Some (enWall en), voAttemptID = attemptID\<rparr>"

definition hub_verify ::
  "HubLib \<Rightarrow> env \<Rightarrow> CAIP2 \<Rightarrow> bytes \<Rightarrow> bytes \<Rightarrow> bytes \<Rightarrow> bytes \<Rightarrow> hub \<Rightarrow> Identity res \<times> hub" where
  "hub_verify H en chainID msg sig nonce attemptID h =
     (let run = Registry_Verify no_panics (enWall en) (enRegistryRnd en)
          (hRegistry h (hDemoWallets h)) chainID msg sig (hub_opts en nonce attemptID h)
      in (snd run, h\<lparr>hRecorder := rec_events (hlErrorText H) (hRecorder h) (events_of (fst run))\<rparr>))"

definition sign_in :: "HubLib \<Rightarrow> env \<Rightarrow> Identity \<Rightarrow> CheckInfo list \<Rightarrow> hub \<Rightarrow> reply \<times> hub" where
  "sign_in H en i checks h =
     (case UpsertByWallet (enIdRnd en) (idAccount i) (hIds h) of
        (Ok (identityID, _), ids) \<Rightarrow>
          (let h = h\<lparr>hIds := ids\<rparr> in
           case Wallets identityID ids of
             Ok wallets \<Rightarrow>
               (case issuer_Issue (hlJwt H) (enNow en) (hIssuer h) identityID wallets of
                  Inr token \<Rightarrow>
                    ((clearNonceCookie, VerifyBody
                        \<lparr>vsToken = token, vsIdentityID = identityID, vsChecks = checks\<rparr>),
                     h\<lparr>hRecorder := (hRecorder h)\<lparr>rcCounters := incTokensIssued (rcCounters (hRecorder h))\<rparr>\<rparr>)
                | Inl _ \<Rightarrow> ((clearNonceCookie, ErrorBody 500 ''token issue failed''), h))
           | _ \<Rightarrow> ((clearNonceCookie, ErrorBody 500 ''wallets lookup failed''), h))
      | (_, ids) \<Rightarrow> ((clearNonceCookie, ErrorBody 500 ''identity upsert failed''), h\<lparr>hIds := ids\<rparr>))"

definition postVerify :: "HubLib \<Rightarrow> env \<Rightarrow> request \<Rightarrow> hub \<Rightarrow> reply \<times> hub" where
  "postVerify H en rq h =
     (case read_request rq of
        Ok (msg, sig, chainID) \<Rightarrow>
          if rqCookie rq = [] then (problem_reply KeepCookie (Sentinel ErrNonceMismatch) rq, h)
          else
            (case Burn (enTime en 0) (rqCookie rq) (hNonces h) of
               (Ok _, ns) \<Rightarrow>
                 (let h = h\<lparr>hNonces := ns,
                        hRecorder := (hRecorder h)\<lparr>rcCounters := incNonceBurned (rcCounters (hRecorder h))\<rparr>\<rparr> in
                  case hub_newAttemptID (enAttemptRnd en) of
                    Ok attemptID \<Rightarrow>
                      (case hub_verify H en chainID msg sig (rqCookie rq) attemptID h of
                         (Panic, h) \<Rightarrow> ((clearNonceCookie, Recovered), h)
                       | (res, h) \<Rightarrow>
                           (case DrainChecks attemptID (hRecorder h) of
                              (checks, r) \<Rightarrow>
                                (let h = h\<lparr>hRecorder := r\<rparr> in
                                 case res of
                                   Ok i \<Rightarrow> sign_in H en i checks h
                                 | Err verifyErr \<Rightarrow>
                                     (problem_reply clearNonceCookie verifyErr rq, h)
                                 | Panic \<Rightarrow> ((clearNonceCookie, Recovered), h))))
                  | _ \<Rightarrow> ((clearNonceCookie, Recovered), h))
             | (_, ns) \<Rightarrow>
                 (problem_reply clearNonceCookie (Sentinel ErrNonceMismatch) rq, h\<lparr>hNonces := ns\<rparr>))
      | _ \<Rightarrow> (problem_reply KeepCookie (Sentinel ErrMalformed) rq, h))"

definition postLink :: "HubLib \<Rightarrow> env \<Rightarrow> request \<Rightarrow> hub \<Rightarrow> reply \<times> hub" where
  "postLink H en rq h =
     (case rqIdentity rq of
        None \<Rightarrow> ((KeepCookie, ErrorBody 401 ''missing identity''), h)
      | Some identityID \<Rightarrow>
     (case read_request rq of
        Ok (msg, sig, chainID) \<Rightarrow>
          if rqCookie rq = [] then (problem_reply KeepCookie (Sentinel ErrNonceMismatch) rq, h)
          else
            (case Burn (enTime en 0) (rqCookie rq) (hNonces h) of
               (Ok _, ns) \<Rightarrow>
                 (case hub_verify H en chainID msg sig (rqCookie rq) [] (h\<lparr>hNonces := ns\<rparr>) of
                    (Ok i, h) \<Rightarrow>
                      (case LinkWallet identityID (idAccount i) (hIds h) of
                         (Ok _, ids) \<Rightarrow>
                           ((clearNonceCookie, LinkedBody (CAIP10_String (idAccount i))), h\<lparr>hIds := ids\<rparr>)
                       | (_, ids) \<Rightarrow> ((clearNonceCookie, ErrorBody 500 ''link failed''), h\<lparr>hIds := ids\<rparr>))
                  | (Err verifyErr, h) \<Rightarrow> (problem_reply clearNonceCookie verifyErr rq, h)
                  | (Panic, h) \<Rightarrow> ((clearNonceCookie, Recovered), h))
             | (_, ns) \<Rightarrow>
                 (problem_reply clearNonceCookie (Sentinel ErrNonceMismatch) rq, h\<lparr>hNonces := ns\<rparr>))
      | _ \<Rightarrow> (problem_reply KeepCookie (Sentinel ErrMalformed) rq, h)))"

definition getJWKS :: "hub \<Rightarrow> reply \<times> hub" where
  "getJWKS h = ((KeepCookie, JWKSBody (issuer_JWKS (hIssuer h))), h)"

section \<open>A sample hub\<close>

definition sample_hub_lib :: HubLib where
  "sample_hub_lib =
     \<lparr>hlDemo = sample_demo_lib, hlJwt = sample_jwt, hlErrorText = (\<lambda>_. ''error''),
      hlIsHexAddress = (\<lambda>s. length s = 40), hlHexToAddress = id, hlHex = id,
      hlIsPrint = (\<lambda>_. True)\<rparr>"

definition sample_hub :: hub where
  "sample_hub =
     \<lparr>hDomain = ''example.com'',
      hRegistry = (\<lambda>d. both_verifiers no_panics [] sample_ed sample_lib (map_option (demo_ClientFor sample_demo_lib) d)),
      hNonces = \<lparr>nsEntries = [''abcd1234'' \<mapsto> 100]\<rparr>, hIds = newIdentityStore,
      hIssuer = sample_issuer, hRecorder = newRecorder, hStatement = ''Sign in'',
      hSolanaChain = ''mainnet'', hSessionTTLMin = 10, hContractWalletDemo = True,
      hDemoWallets = Some newDemoContractWallets\<rparr>"

definition sample_env :: env where
  "sample_env =
     \<lparr>enTime = (\<lambda>_. 50), enWall = (\<lambda>_. 50), enNow = 50, enNonceRnd = Some ''a'',
      enAttemptRnd = Some ''b'', enRegistryRnd = Some ''c'', enIdRnd = Some ''d''\<rparr>"

text \<open>The request of a client that signed a message and got its nonce from the hub.\<close>

definition request_for :: "Message \<Rightarrow> request" where
  "request_for m =
     \<lparr>rqRequestID = [],
      rqBody = Some \<lparr>vrMessage = b64_encode StdEncoding (Message_String m),
        vrSignature = b64_encode StdEncoding sample_sig, vrChainID = ''solana:mainnet''\<rparr>,
      rqOwner = None, rqCookie = mNonce m, rqIdentity = Some ''id_61''\<rparr>"

lemma read_request_for:
  "read_request (request_for m) =
     Ok (Message_String m, sample_sig, \<lparr>cNamespace = ''solana'', cReference = ''mainnet''\<rparr>)"
proof -
  have "valid_CAIP2 \<lparr>cNamespace = ''solana'', cReference = ''mainnet''\<rparr>" by code_simp
  from ParseCAIP2_String [OF this] show ?thesis
    by (simp add: read_request_def request_for_def std.b64_decode_encode CAIP2_String_def)
qed

end
