(* ===== verification/HubNonces.thy ===== *)
theory HubNonces
  imports Hub
begin

text \<open>
  What the handlers do to the nonce store, and the anti-replay property of the whole hub: each
  call is at most one transition of the nonce store, and no sign-in or linking is accepted
  without burning the nonce of its cookie.
\<close>

section \<open>Calls of the hub\<close>

datatype hub_call =
    CallNonce env
  | CallConfig
  | CallWallet request
  | CallVerify env request
  | CallLink2 env request
  | CallJWKS

fun hub_exec :: "HubLib \<Rightarrow> hub \<Rightarrow> hub_call \<Rightarrow> reply \<times> hub" where
  "hub_exec H h (CallNonce en) = getNonce en h"
| "hub_exec H h CallConfig = getConfig h"
| "hub_exec H h (CallWallet rq) = postRegisterContractWallet H rq h"
| "hub_exec H h (CallVerify en rq) = postVerify H en rq h"
| "hub_exec H h (CallLink2 en rq) = postLink H en rq h"
| "hub_exec H h CallJWKS = getJWKS h"

text \<open>The nonce a request has burned, if it gets that far.\<close>

definition presents :: "request \<Rightarrow> bytes option" where
  "presents rq = (case read_request rq of
     Ok _ \<Rightarrow> if rqCookie rq = [] then None else Some (rqCookie rq) | _ \<Rightarrow> None)"

fun call_presents :: "hub_call \<Rightarrow> (env \<times> bytes) option" where
  "call_presents (CallVerify en rq) = map_option (Pair en) (presents rq)"
| "call_presents (CallLink2 en rq) =
     (case rqIdentity rq of None \<Rightarrow> None | Some _ \<Rightarrow> map_option (Pair en) (presents rq))"
| "call_presents c = None"

section \<open>The handlers and the nonce store\<close>

lemma hNonces_hub_verify [simp]: "hNonces (snd (hub_verify H en c msg sig n i h)) = hNonces h"
  by (simp add: hub_verify_def Let_def)

lemma hub_verify_eqD: "hub_verify H en c msg sig n i h = (r, h') \<Longrightarrow> hNonces h' = hNonces h"
  using hNonces_hub_verify [of H en c msg sig n i h] by simp

lemma hNonces_sign_in [simp]: "hNonces (snd (sign_in H en i checks h)) = hNonces h"
  by (auto simp: sign_in_def Let_def split: prod.split res.split sum.split)

lemma Burn_res:
  obtains (burned) "Burn t n s = (Ok (), snd (Burn t n s))"
    | (refused) "Burn t n s = (Err (Sentinel ErrNonceMismatch), snd (Burn t n s))"
  using Burn_cases [of t n s] by (metis prod.collapse)

lemma postVerify_stops:
  assumes "presents rq = None"
  shows "\<exists>e. postVerify H en rq h = (problem_reply KeepCookie (Sentinel e) rq, h)"
  using assms by (auto simp: postVerify_def presents_def split: res.splits if_splits)

lemma postVerify_refuses:
  assumes "presents rq = Some n" and "Burn (enTime en 0) n (hNonces h) = (Err e, ns)"
  shows "postVerify H en rq h =
     (problem_reply clearNonceCookie (Sentinel ErrNonceMismatch) rq, h\<lparr>hNonces := ns\<rparr>)"
  using assms by (auto simp: postVerify_def presents_def split: res.splits if_splits)

lemma postVerify_nonces:
  "hNonces (snd (postVerify H en rq h)) = (case presents rq of
     None \<Rightarrow> hNonces h | Some n \<Rightarrow> snd (Burn (enTime en 0) n (hNonces h)))"
proof (cases "presents rq")
  case None
  then show ?thesis using postVerify_stops [of rq H en h] by auto
next
  case (Some n)
  show ?thesis
  proof (cases "Burn (enTime en 0) n (hNonces h)")
    case (Pair r ns)
    then show ?thesis
      using Some
      by (auto simp: postVerify_def presents_def DrainChecks_def Let_def dest!: hub_verify_eqD
          split: res.splits if_splits prod.splits)
  qed
qed

lemma postLink_nonces:
  "hNonces (snd (postLink H en rq h)) = (case call_presents (CallLink2 en rq) of
     None \<Rightarrow> hNonces h | Some (en, n) \<Rightarrow> snd (Burn (enTime en 0) n (hNonces h)))"
  by (cases "Burn (enTime en 0) (rqCookie rq) (hNonces h)")
     (auto simp: postLink_def presents_def Let_def dest!: hub_verify_eqD
       split: res.splits if_splits prod.splits option.splits)

text \<open>The sign-in handler from the point where the nonce is burned.\<close>

definition burned_hub :: "env \<Rightarrow> bytes \<Rightarrow> hub \<Rightarrow> hub" where
  "burned_hub en n h = h\<lparr>hNonces := snd (Burn (enTime en 0) n (hNonces h)),
     hRecorder := (hRecorder h)\<lparr>rcCounters := incNonceBurned (rcCounters (hRecorder h))\<rparr>\<rparr>"

definition verify_burned ::
  "HubLib \<Rightarrow> env \<Rightarrow> request \<Rightarrow> bytes \<times> bytes \<times> CAIP2 \<Rightarrow> hub \<Rightarrow> reply \<times> hub" where
  "verify_burned H en rq body h1 = (case body of (msg, sig, c) \<Rightarrow>
     (case hub_newAttemptID (enAttemptRnd en) of
        Ok aid \<Rightarrow>
          (case hub_verify H en c msg sig (rqCookie rq) aid h1 of
             (Panic, h) \<Rightarrow> ((clearNonceCookie, Recovered), h)
           | (res, h) \<Rightarrow>
               (case DrainChecks aid (hRecorder h) of
                  (checks, r) \<Rightarrow>
                    (let h = h\<lparr>hRecorder := r\<rparr> in
                     case res of
                       Ok i \<Rightarrow> sign_in H en i checks h
                     | Err verifyErr \<Rightarrow> (problem_reply clearNonceCookie verifyErr rq, h)
                     | Panic \<Rightarrow> ((clearNonceCookie, Recovered), h))))
      | _ \<Rightarrow> ((clearNonceCookie, Recovered), h1)))"

lemma postVerify_burned:
  assumes "read_request rq = Ok body" and "rqCookie rq \<noteq> []"
    and "fst (Burn (enTime en 0) (rqCookie rq) (hNonces h)) = Ok ()"
  shows "postVerify H en rq h = verify_burned H en rq body (burned_hub en (rqCookie rq) h)"
proof -
  obtain msg sig c where body: "body = (msg, sig, c)" by (cases body)
  obtain ns where "Burn (enTime en 0) (rqCookie rq) (hNonces h) = (Ok (), ns)"
    using assms(3) by (metis prod.collapse)
  then show ?thesis
    by (simp add: postVerify_def verify_burned_def burned_hub_def assms(1,2) body Let_def)
qed

text \<open>The events of the nonce store in a call.\<close>

definition hub_events :: "hub \<Rightarrow> hub_call \<Rightarrow> nonce_event list" where
  "hub_events h c =
     (case call_presents c of
        Some (en, n) \<Rightarrow> (case fst (Burn (enTime en 0) n (hNonces h)) of
            Ok _ \<Rightarrow> [Burned n] | _ \<Rightarrow> [Refused n])
      | None \<Rightarrow> (case c of
            CallNonce en \<Rightarrow> (case fst (Issue (enTime en) (enNonceRnd en) nonceTTL (hNonces h)) of
                Ok n \<Rightarrow> [Issued n] | _ \<Rightarrow> [IssueFailed])
          | _ \<Rightarrow> []))"

lemma burn_run:
  "nonces.run s (case fst (Burn t n s) of Ok _ \<Rightarrow> [Burned n] | _ \<Rightarrow> [Refused n]) (snd (Burn t n s))"
proof (cases rule: Burn_res [of t n s])
  case burned
  then have "fst (Burn t n s) = Ok ()" by (metis fst_conv)
  with nonce_step.burn [OF burned] show ?thesis by simp
next
  case refused
  then have "fst (Burn t n s) = Err (Sentinel ErrNonceMismatch)" by (metis fst_conv)
  with nonce_step.refuse [OF refused] show ?thesis by simp
qed

lemma Issue_res:
  obtains (issued) n where "Issue cl rnd ttl s = (Ok n, snd (Issue cl rnd ttl s))"
    | (failed) e where "Issue cl rnd ttl s = (Err e, snd (Issue cl rnd ttl s))"
  by (cases rnd) (auto simp: Issue_def Let_def)

lemma issue_run:
  "nonces.run s (case fst (Issue cl rnd ttl s) of Ok n \<Rightarrow> [Issued n] | _ \<Rightarrow> [IssueFailed])
     (snd (Issue cl rnd ttl s))"
proof (cases rule: Issue_res [of cl rnd ttl s])
  case (issued n)
  then have "fst (Issue cl rnd ttl s) = Ok n" by (metis fst_conv)
  with nonce_step.issue [OF issued] show ?thesis by simp
next
  case (failed e)
  then have "fst (Issue cl rnd ttl s) = Err e" by (metis fst_conv)
  with nonce_step.issue_failed [OF failed] show ?thesis by simp
qed

lemma getNonce_nonces:
  "hNonces (snd (getNonce en h)) = snd (Issue (enTime en) (enNonceRnd en) nonceTTL (hNonces h))"
  by (auto simp: getNonce_def split: prod.split res.split)

lemma register_nonces: "hNonces (snd (postRegisterContractWallet H rq h)) = hNonces h"
  by (auto simp: postRegisterContractWallet_def Let_def split: option.split prod.split)

text \<open>The hub simulates the nonce store: every call is a run of it.\<close>

lemma hub_simulates:
  "nonces.run (hNonces h) (hub_events h c) (hNonces (snd (hub_exec H h c)))"
proof (cases c)
  case (CallNonce en)
  then show ?thesis using issue_run by (simp add: hub_events_def getNonce_nonces)
next
  case (CallVerify en rq)
  then show ?thesis
    using burn_run by (cases "presents rq") (simp_all add: hub_events_def postVerify_nonces)
next
  case (CallLink2 en rq)
  then show ?thesis
    using burn_run
    by (cases "call_presents (CallLink2 en rq)") (auto simp add: hub_events_def postLink_nonces)
qed (simp_all add: hub_events_def getConfig_def getJWKS_def register_nonces)

section \<open>Replies\<close>

lemma sign_in_body:
  "(\<exists>v. snd (fst (sign_in H en i checks h)) = VerifyBody v)
   \<or> (\<exists>t. snd (fst (sign_in H en i checks h)) = ErrorBody 500 t)"
  by (auto simp: sign_in_def Let_def split: prod.split res.split sum.split)

lemma problem_reply_body [simp]:
  "snd (problem_reply ck e rq) = ProblemBody (writeProblem e (rqRequestID rq))"
  "fst (problem_reply ck e rq) = ck"
  by (simp_all add: problem_reply_def)

text \<open>A call that is accepted: a session token or a link.\<close>

fun accepted :: "body \<Rightarrow> bool" where
  "accepted (VerifyBody v) \<longleftrightarrow> True"
| "accepted (LinkedBody a) \<longleftrightarrow> True"
| "accepted b \<longleftrightarrow> False"

lemma postVerify_accepted:
  assumes "accepted (snd (fst (postVerify H en rq h)))"
  shows "\<exists>n. presents rq = Some n \<and> fst (Burn (enTime en 0) n (hNonces h)) = Ok ()"
proof (cases "presents rq")
  case None
  then show ?thesis using postVerify_stops [of rq H en h] assms by auto
next
  case (Some n)
  show ?thesis
  proof (cases rule: Burn_res [of "enTime en 0" n "hNonces h"])
    case burned
    with Some show ?thesis by (metis fst_conv)
  next
    case refused
    then show ?thesis using postVerify_refuses [of rq n en h, OF Some refused, of H] assms by simp
  qed
qed

lemma postLink_accepted:
  assumes "accepted (snd (fst (postLink H en rq h)))"
  shows "\<exists>n. call_presents (CallLink2 en rq) = Some (en, n)
     \<and> fst (Burn (enTime en 0) n (hNonces h)) = Ok ()"
  using assms
  by (cases "Burn (enTime en 0) (rqCookie rq) (hNonces h)")
     (auto simp: postLink_def presents_def split: res.splits if_splits prod.splits option.splits)

lemma accepted_burns:
  assumes "accepted (snd (fst (hub_exec H h c)))"
  shows "\<exists>en n. call_presents c = Some (en, n) \<and> hub_events h c = [Burned n]"
proof (cases c)
  case (CallVerify en rq)
  then show ?thesis using postVerify_accepted [of H en rq h] assms by (auto simp: hub_events_def)
next
  case (CallLink2 en rq)
  then show ?thesis using postLink_accepted [of H en rq h] assms by (auto simp: hub_events_def)
qed (use assms in \<open>auto simp: getNonce_def getConfig_def getJWKS_def postRegisterContractWallet_def
      Let_def split: prod.splits res.splits option.splits if_splits\<close>)

section \<open>Histories\<close>

text \<open>The calls of a history with their replies, and the trace of the nonce store.\<close>

primrec hub_history :: "HubLib \<Rightarrow> hub \<Rightarrow> hub_call list \<Rightarrow> (hub_call \<times> reply) list" where
  "hub_history H h [] = []"
| "hub_history H h (c # cs) = (c, fst (hub_exec H h c)) # hub_history H (snd (hub_exec H h c)) cs"

primrec hub_trace :: "HubLib \<Rightarrow> hub \<Rightarrow> hub_call list \<Rightarrow> nonce_event list" where
  "hub_trace H h [] = []"
| "hub_trace H h (c # cs) = hub_events h c @ hub_trace H (snd (hub_exec H h c)) cs"

primrec hub_after :: "HubLib \<Rightarrow> hub \<Rightarrow> hub_call list \<Rightarrow> hub" where
  "hub_after H h [] = h"
| "hub_after H h (c # cs) = hub_after H (snd (hub_exec H h c)) cs"

lemma hub_trace_run: "nonces.run (hNonces h) (hub_trace H h cs) (hNonces (hub_after H h cs))"
proof (induction cs arbitrary: h)
  case (Cons c cs)
  then show ?case using hub_simulates [of h c H] by (auto simp: nonces.run_append)
qed simp

text \<open>A reply that accepts the nonce \<open>n\<close>, and one that hands it out.\<close>

definition accepts_nonce :: "bytes \<Rightarrow> hub_call \<times> reply \<Rightarrow> bool" where
  "accepts_nonce n x \<longleftrightarrow> accepted (snd (snd x)) \<and> map_option snd (call_presents (fst x)) = Some n"

definition hands_out :: "bytes \<Rightarrow> hub_call \<times> reply \<Rightarrow> bool" where
  "hands_out n x = (case snd (snd x) of NonceBody k d \<Rightarrow> k = n | _ \<Rightarrow> False)"

lemma accepts_count:
  "length (filter (accepts_nonce n) (hub_history H h cs)) \<le> count_list (hub_trace H h cs) (Burned n)"
proof (induction cs arbitrary: h)
  case (Cons c cs)
  have "1 \<le> count_list (hub_events h c) (Burned n)" if "accepts_nonce n (c, fst (hub_exec H h c))"
    using that accepted_burns [of H h c] by (auto simp: accepts_nonce_def)
  then show ?case using Cons [of "snd (hub_exec H h c)"] by (auto simp: le_add2 intro: add_mono)
qed simp

lemma sign_in_not_nonce: "snd (fst (sign_in H en i checks h)) \<noteq> NonceBody k d"
  using sign_in_body [of H en i checks h] by auto

lemma postVerify_not_nonce: "snd (fst (postVerify H en rq h)) \<noteq> NonceBody k d"
  using sign_in_not_nonce
  by (auto simp: postVerify_def Let_def split: res.split prod.split)

lemma postLink_not_nonce: "snd (fst (postLink H en rq h)) \<noteq> NonceBody k d"
  by (auto simp: postLink_def split: res.split prod.split option.split)

lemma no_issue_in_burn:
  "Issued n \<notin> set (case r of Ok x \<Rightarrow> [Burned m] | _ \<Rightarrow> [Refused m])"
  by (simp split: res.split)

lemma Issued_hands_out:
  "count_list (hub_events h c) (Issued n) = (if hands_out n (c, fst (hub_exec H h c)) then 1 else 0)"
proof (cases c)
  case (CallNonce en)
  then show ?thesis
    by (auto simp: hub_events_def getNonce_def hands_out_def split: prod.splits res.splits)
next
  case (CallVerify en rq)
  then have "\<not> hands_out n (c, fst (hub_exec H h c))"
    using postVerify_not_nonce [of H en rq h] by (auto simp: hands_out_def split: body.split)
  moreover have "Issued n \<notin> set (hub_events h c)"
    using CallVerify no_issue_in_burn by (auto simp: hub_events_def split: option.split)
  ultimately show ?thesis by simp
next
  case (CallLink2 en rq)
  then have "\<not> hands_out n (c, fst (hub_exec H h c))"
    using postLink_not_nonce [of H en rq h] by (auto simp: hands_out_def split: body.split)
  moreover have "Issued n \<notin> set (hub_events h c)"
    using CallLink2 no_issue_in_burn by (auto simp: hub_events_def split: option.splits prod.splits)
  ultimately show ?thesis by simp
qed (auto simp: hub_events_def getConfig_def getJWKS_def hands_out_def postRegisterContractWallet_def
      Let_def split: option.split prod.split)

lemma Issued_count:
  "count_list (hub_trace H h cs) (Issued n) = length (filter (hands_out n) (hub_history H h cs))"
  by (induction cs arbitrary: h) (simp_all add: Issued_hands_out [of _ _ n H])

section \<open>Properties\<close>

text \<open>Anti-replay, over the whole hub: starting from an empty nonce store, in every sequence of
  requests to any of its endpoints, with any clocks, random bytes and libraries, a nonce is
  accepted for a sign-in or a linking at most as often as \<open>GET /auth/nonce\<close> handed it out.\<close>

theorem hub_accepts_once:
  assumes "hNonces h = newNonceStore"
  shows "length (filter (accepts_nonce n) (hub_history H h cs))
     \<le> length (filter (hands_out n) (hub_history H h cs))"
proof -
  have "n \<notin> held_nonces (hNonces h)" by (simp add: assms held_nonces_def newNonceStore_def)
  then have "count_list (hub_trace H h cs) (Burned n) \<le> count_list (hub_trace H h cs) (Issued n)"
    using nonces.burns_le_issues [OF hub_trace_run [of h H cs], of n] by simp
  with accepts_count [of n H h cs] show ?thesis by (simp add: Issued_count)
qed

theorem hub_accepts_once_witness:
  "length (filter (accepts_nonce ''61'')
       (hub_history sample_hub_lib (sample_hub\<lparr>hNonces := newNonceStore\<rparr>)
          [CallNonce sample_env, CallVerify sample_env (request_for sample_message), CallConfig]))
   \<le> length (filter (hands_out ''61'')
       (hub_history sample_hub_lib (sample_hub\<lparr>hNonces := newNonceStore\<rparr>)
          [CallNonce sample_env, CallVerify sample_env (request_for sample_message), CallConfig]))"
  by (rule hub_accepts_once) simp

text \<open>C14. A replay is refused by the hub itself, whatever the wallet signs: once a request with a
  well-formed body has presented a nonce, accepted or not, every later request that presents
  it is answered with the nonce problem, status 401, until the nonce is handed out again.\<close>

theorem hub_replay_refused:
  assumes "presents rq = Some n" and "presents rq' = Some n"
    and "Issued n \<notin> set (hub_trace H (snd (postVerify H en rq h)) cs)"
  shows "\<exists>p. fst (postVerify H en' rq' (hub_after H (snd (postVerify H en rq h)) cs))
       = (ClearCookie, ProblemBody p) \<and> prStatus p = 401"
proof -
  let ?h = "snd (postVerify H en rq h)"
  have "n \<notin> held_nonces (hNonces ?h)"
    by (simp add: postVerify_nonces assms(1) held_nonces_def Burn_removes dom_def)
  then have "n \<notin> held_nonces (hNonces (hub_after H ?h cs))"
    using nonces.held_later [OF hub_trace_run [of ?h H cs], of n] assms(3) by blast
  then have "Burn (enTime en' 0) n (hNonces (hub_after H ?h cs))
      = (Err (Sentinel ErrNonceMismatch), hNonces (hub_after H ?h cs))"
    by (simp add: Burn_def held_nonces_def dom_def)
  from postVerify_refuses [of rq' n en', OF assms(2) this, of H]
  have "fst (postVerify H en' rq' (hub_after H ?h cs))
      = (ClearCookie, ProblemBody (writeProblem (Sentinel ErrNonceMismatch) (rqRequestID rq')))"
    by (simp add: problem_reply_def clearNonceCookie_def)
  moreover have "prStatus (writeProblem (Sentinel ErrNonceMismatch) (rqRequestID rq')) = 401"
    using problem_status [of "Sentinel ErrNonceMismatch" ErrNonceMismatch] by auto
  ultimately show ?thesis by blast
qed

theorem hub_replay_refused_witness:
  "\<exists>p. fst (postVerify sample_hub_lib sample_env (request_for sample_message)
       (snd (postVerify sample_hub_lib sample_env (request_for sample_message) sample_hub)))
     = (ClearCookie, ProblemBody p) \<and> prStatus p = 401"
proof -
  have "presents (request_for sample_message) = Some ''abcd1234''"
    by (simp add: presents_def read_request_for) (simp add: request_for_def sample_message_def)
  from hub_replay_refused [OF this this, of sample_hub_lib sample_env sample_hub "[]" sample_env]
  show ?thesis by simp
qed

end
