(* ===== verification/HubSignIn.thy ===== *)
theory HubSignIn
  imports HubNonces
begin

text \<open>
  The sign-in and linking handlers over the registry that the hub builds: what a sign-in
  returns, end to end, and what the handlers keep of the identity store and the recorder.
\<close>

section \<open>One verification with the recorder listening\<close>

definition all_passed :: "CheckInfo list" where
  "all_passed = map (\<lambda>c. check_info c True) check_order"

lemma checks_of_append [simp]: "checks_of (es @ es') = checks_of es @ checks_of es'"
  by (induction es rule: checks_of.induct) simp_all

lemma checks_of_passed: "checks_of (passed i 5) = all_passed"
  by (simp add: passed_def all_passed_def take_check_order) (simp add: check_order_def)

lemma trace_ok_checks: "trace_ok i n tr (Ok x) \<Longrightarrow> checks_of tr = all_passed"
  by (simp add: trace_ok_def checks_of_passed)

text \<open>The random source is not asked when an attempt id is given.\<close>

lemma Registry_Verify_rnd:
  "voAttemptID o' \<noteq> [] \<Longrightarrow> Registry_Verify pan wall rnd r c msg sig o' = Registry_Verify pan wall (Some b) r c msg sig o'"
  by (simp add: Registry_Verify_def default_attempt_def default_clock_def default_observer_def)

context verifier
begin

text \<open>The run of a registered verifier whose events have the shape of a trace, for an outside
  listener that does not panic.\<close>

lemma dispatch_run:
  fixes wall b opts msg sig r c
  assumes reg: "rVerifiers r (cNamespace c) = Some V"
    and opts: "voObserver opts = Some (External n)" "\<forall>e. \<not> pan n e"
    and trace: "\<And>o'. voObserver o' = Some (External n) \<Longrightarrow> voClock o' \<noteq> None \<Longrightarrow>
       trace_ok (voAttemptID o') (length msg) (events_of (fst (vVerify V msg sig o'))) (snd (vVerify V msg sig o'))"
  defines "i \<equiv> voAttemptID (prepared wall b opts)"
    and "run \<equiv> Registry_Verify pan wall (Some b) r c msg sig opts"
  shows "(\<forall>e \<in> set (events_of (fst run)). attempt_id e = i)
     \<and> (\<forall>x. snd run = Ok x \<longrightarrow> checks_of (events_of (fst run)) = all_passed)
     \<and> snd run \<noteq> Panic"
proof -
  let ?o = "prepared wall b opts"
  have h: "harmless pan opts" using opts by (simp add: harmless_def)
  have ob: "voObserver ?o = Some (External n)" "voClock ?o \<noteq> None" by (simp_all add: prepared_def opts)
  have run: "events_of (fst run) = VerifyAttempt i (cNamespace c) (voExpectedDomain opts) []
      # events_of (fst (vVerify V msg sig ?o))
      @ [VerifyResult i (error_of (snd (vVerify V msg sig ?o)) = None)
          (sentinelFor (error_of (snd (vVerify V msg sig ?o)))) (cNamespace c)]"
    "snd run = snd (vVerify V msg sig ?o)"
    using dispatch [OF reg h, of wall b msg sig] by (simp_all add: run_def i_def ob)
  have "attempt_id e = i" if "e \<in> set (events_of (fst (vVerify V msg sig ?o)))" for e
    using that inner by (auto simp: events_of_def i_def)
  moreover have "checks_of (events_of (fst (vVerify V msg sig ?o))) = all_passed" if "snd run = Ok x" for x
    using trace [OF ob] that run(2) trace_ok_checks by metis
  ultimately show ?thesis using run total [OF ready_prepared [OF h, of wall b], of msg sig] by auto
qed

end

lemma unsupported_run:
  assumes "cNamespace c \<notin> {''solana'', ''eip155''}" and "voObserver opts = Some (External n)"
    and "\<forall>e. \<not> pan n e"
  shows "events_of (fst (Registry_Verify pan wall (Some b) (both_verifiers pan pick ed L R) c msg sig opts)) =
     [VerifyAttempt (voAttemptID (prepared wall b opts)) (cNamespace c) (voExpectedDomain opts) [],
      VerifyResult (voAttemptID (prepared wall b opts)) False (Some (Sentinel ErrUnsupportedNamespace)) (cNamespace c)]"
  using assms
  by (simp add: Registry_Verify_def default_attempt_prepared both_verifiers_lookup Let_def)
     (simp add: prepared_def)

lemma registry_run:
  fixes wall b c msg sig opts pick ed L R
  assumes opts: "voObserver opts = Some (External n)" "\<forall>e. \<not> pan n e"
  defines "i \<equiv> voAttemptID (prepared wall b opts)"
    and "run \<equiv> Registry_Verify pan wall (Some b) (both_verifiers pan pick ed L R) c msg sig opts"
  shows "(\<forall>e \<in> set (events_of (fst run)). attempt_id e = i)
     \<and> (\<forall>x. snd run = Ok x \<longrightarrow> checks_of (events_of (fst run)) = all_passed)
     \<and> snd run \<noteq> Panic"
proof -
  consider (sol) "cNamespace c = ''solana''" | (evm) "cNamespace c = ''eip155''"
    | (other) "cNamespace c \<notin> {''solana'', ''eip155''}" by auto
  then show ?thesis
  proof cases
    case sol
    have "rVerifiers (both_verifiers pan pick ed L R) (cNamespace c) = Some (solana_New pan pick ed)"
      by (simp add: both_verifiers_lookup sol)
    moreover have "trace_ok (voAttemptID o') (length msg) (events_of (fst (vVerify (solana_New pan pick ed) msg sig o')))
        (snd (vVerify (solana_New pan pick ed) msg sig o'))"
      if "voObserver o' = Some (External n)" "voClock o' \<noteq> None" for o'
      using that solana_trace [where pan = pan and n = n, OF that(1) opts(2)] by (auto simp: solana_New_def)
    ultimately show ?thesis unfolding run_def i_def by (intro solana.dispatch_run [where pan = pan and n = n, OF _ opts])
  next
    case evm
    have "rVerifiers (both_verifiers pan pick ed L R) (cNamespace c) = Some (evm_New pan L R)"
      by (simp add: both_verifiers_lookup evm)
    moreover have "trace_ok (voAttemptID o') (length msg) (events_of (fst (vVerify (evm_New pan L R) msg sig o')))
        (snd (vVerify (evm_New pan L R) msg sig o'))"
      if "voObserver o' = Some (External n)" "voClock o' \<noteq> None" for o'
      using that evm_trace [where pan = pan and n = n, OF that(1) opts(2)] by (auto simp: evm_New_def)
    ultimately show ?thesis unfolding run_def i_def by (intro evm.dispatch_run [where pan = pan and n = n, OF _ opts])
  next
    case other
    have "harmless pan opts" using opts by (simp add: harmless_def)
    from other_dispatch [OF other this] unsupported_run [where pan = pan and n = n, OF other opts] show ?thesis
      unfolding run_def i_def by simp
  qed
qed

section \<open>The sign-in handler\<close>

text \<open>A hub whose registry is the one \<open>main\<close> builds.\<close>

definition registry_of ::
  "sentinel list \<Rightarrow> ed_verify \<Rightarrow> SiweLib \<Rightarrow> Resolver option \<Rightarrow> hub \<Rightarrow> bool" where
  "registry_of pick ed L R h \<longleftrightarrow> hRegistry h (hDemoWallets h) = both_verifiers no_panics pick ed L R"

lemma sign_in_iff:
  "snd (fst (sign_in H en i checks h)) = VerifyBody v \<longleftrightarrow>
     (\<exists>created ids ws.
        UpsertByWallet (enIdRnd en) (idAccount i) (hIds h) = (Ok (vsIdentityID v, created), ids)
        \<and> Wallets (vsIdentityID v) ids = Ok ws
        \<and> issuer_Issue (hlJwt H) (enNow en) (hIssuer h) (vsIdentityID v) ws = Inr (vsToken v))
     \<and> vsChecks v = checks"
proof (cases "UpsertByWallet (enIdRnd en) (idAccount i) (hIds h)")
  case (Pair r ids)
  show ?thesis
  proof (cases r)
    case (Ok x)
    obtain j created where x: "x = (j, created)" by (cases x)
    have body: "snd (fst (sign_in H en i checks h)) = (case Wallets j ids of
          Ok ws \<Rightarrow> (case issuer_Issue (hlJwt H) (enNow en) (hIssuer h) j ws of
              Inr t \<Rightarrow> VerifyBody \<lparr>vsToken = t, vsIdentityID = j, vsChecks = checks\<rparr>
            | Inl _ \<Rightarrow> ErrorBody 500 ''token issue failed'')
        | _ \<Rightarrow> ErrorBody 500 ''wallets lookup failed'')"
      by (simp add: sign_in_def Pair Ok x Let_def split: res.split sum.split)
    have "snd (fst (sign_in H en i checks h)) = VerifyBody v \<longleftrightarrow>
        (\<exists>ws. Wallets j ids = Ok ws
           \<and> issuer_Issue (hlJwt H) (enNow en) (hIssuer h) j ws = Inr (vsToken v))
        \<and> vsIdentityID v = j \<and> vsChecks v = checks"
      unfolding body by (cases v) (simp split: res.split sum.split, blast)
    then show ?thesis unfolding Pair Ok x by auto
  qed (simp_all add: sign_in_def Pair)
qed

text \<open>The buffer does not depend on the counters.\<close>

lemma rec_events_checks_cong:
  "rcChecks r = rcChecks r' \<Longrightarrow> rcChecks (rec_events etext r es) = rcChecks (rec_events etext r' es)"
proof (induction es arbitrary: r r')
  case (Cons e es)
  have "rcChecks (rec_event etext r e) = rcChecks (rec_event etext r' e)"
    using Cons.prems
    by (cases e) (simp_all add: rec_event_checks buffer_check_def del: rec_event.simps)
  then show ?case unfolding rec_events_simps by (rule Cons.IH)
qed simp

text \<open>The registry's run within the handler, for a non-empty attempt id.\<close>

lemma hub_verify_run:
  fixes n c msg sig aid h en
  assumes reg: "registry_of pick ed L R h" and aid: "aid \<noteq> []"
  defines "run \<equiv> Registry_Verify no_panics (enWall en) (Some []) (both_verifiers no_panics pick ed L R)
     c msg sig (hub_opts en n aid h)"
  shows "hub_verify H en c msg sig n aid h =
       (snd run, h\<lparr>hRecorder := rec_events (hlErrorText H) (hRecorder h) (events_of (fst run))\<rparr>)"
    and "\<forall>e \<in> set (events_of (fst run)). attempt_id e = aid"
    and "snd run = Ok x \<Longrightarrow> checks_of (events_of (fst run)) = all_passed"
    and "snd run \<noteq> Panic"
proof -
  let ?o = "hub_opts en n aid h"
  have o: "voAttemptID ?o \<noteq> []" "voObserver ?o = Some (External 0)" "\<forall>e. \<not> no_panics 0 e"
    by (simp_all add: hub_opts_def aid no_panics_def)
  have i: "voAttemptID (prepared (enWall en) [] ?o) = aid" by (simp add: prepared_def hub_opts_def aid)
  show "hub_verify H en c msg sig n aid h =
       (snd run, h\<lparr>hRecorder := rec_events (hlErrorText H) (hRecorder h) (events_of (fst run))\<rparr>)"
    using reg Registry_Verify_rnd [OF o(1), of no_panics "enWall en" "enRegistryRnd en" _ c msg sig "[]"]
    by (simp add: hub_verify_def registry_of_def run_def Let_def)
  note r = registry_run [where pan = no_panics and n = 0 and wall = "enWall en" and b = "[]" and c = c
      and msg = msg and sig = sig and opts = ?o and pick = pick and ed = ed and L = L and R = R, OF o(2,3)]
  show "\<forall>e \<in> set (events_of (fst run)). attempt_id e = aid" "snd run \<noteq> Panic"
    "snd run = Ok x \<Longrightarrow> checks_of (events_of (fst run)) = all_passed"
    using r unfolding run_def i by blast+
qed

text \<open>What the handler does once the nonce is burned: the registry decides.\<close>

lemma postVerify_decides:
  fixes h en rq
  assumes reg: "registry_of pick ed L R h" and rd: "read_request rq = Ok (msg, sig, c)"
    and ck: "rqCookie rq \<noteq> []" and bn: "Burn (enTime en 0) (rqCookie rq) (hNonces h) = (Ok (), ns)"
    and at: "enAttemptRnd en = Some b" "b \<noteq> []"
  defines "run \<equiv> Registry_Verify no_panics (enWall en) (Some []) (both_verifiers no_panics pick ed L R)
     c msg sig (hub_opts en (rqCookie rq) (hex_EncodeToString b) h)"
  obtains h' where "hIds h' = hIds h" and "hIssuer h' = hIssuer h" and "hNonces h' = ns"
    and "postVerify H en rq h =
       (case snd run of
          Ok i \<Rightarrow> sign_in H en i (buffered (hex_EncodeToString b)
            (rec_events (hlErrorText H) (hRecorder h) (events_of (fst run)))) h'
        | Err e \<Rightarrow> (problem_reply clearNonceCookie e rq, h')
        | Panic \<Rightarrow> ((clearNonceCookie, Recovered), h'))"
proof -
  let ?aid = "hex_EncodeToString b"
  let ?h1 = "h\<lparr>hNonces := ns,
      hRecorder := (hRecorder h)\<lparr>rcCounters := incNonceBurned (rcCounters (hRecorder h))\<rparr>\<rparr>"
  have reg1: "registry_of pick ed L R ?h1" using reg by (simp add: registry_of_def)
  have aid: "?aid \<noteq> []" using at(2) length_hex [of b] by (metis length_0_conv mult_eq_0_iff zero_neq_numeral)
  have o: "hub_opts en (rqCookie rq) ?aid ?h1 = hub_opts en (rqCookie rq) ?aid h" by (simp add: hub_opts_def)
  let ?r = "rec_events (hlErrorText H) (hRecorder ?h1) (events_of (fst run))"
  let ?h' = "?h1\<lparr>hRecorder := snd (DrainChecks ?aid ?r)\<rparr>"
  note v = hub_verify_run(1) [where H = H and en = en and c = c and msg = msg and sig = sig
      and n = "rqCookie rq", OF reg1 aid, unfolded o, folded run_def]
    hub_verify_run(4) [where en = en and c = c and msg = msg and sig = sig
      and n = "rqCookie rq", OF reg1 aid, unfolded o, folded run_def]
  let ?before = "hRecorder ?h1"
  have checks: "buffered ?aid ?r = buffered ?aid (rec_events (hlErrorText H) (hRecorder h) (events_of (fst run)))"
    unfolding buffered_def by (subst rec_events_checks_cong [of ?before "hRecorder h"]) simp_all
  have pv: "postVerify H en rq h =
       (case snd run of
          Ok i \<Rightarrow> sign_in H en i (fst (DrainChecks ?aid ?r)) ?h'
        | Err e \<Rightarrow> (problem_reply clearNonceCookie e rq, ?h')
        | Panic \<Rightarrow> ((clearNonceCookie, Recovered), ?h'))"
    using v by (simp add: postVerify_def rd ck bn hub_newAttemptID_def at(1) Let_def split: res.split prod.split)
  show thesis
  proof (rule that [of ?h'])
    show "postVerify H en rq h =
       (case snd run of
          Ok i \<Rightarrow> sign_in H en i (buffered ?aid
            (rec_events (hlErrorText H) (hRecorder h) (events_of (fst run)))) ?h'
        | Err e \<Rightarrow> (problem_reply clearNonceCookie e rq, ?h')
        | Panic \<Rightarrow> ((clearNonceCookie, Recovered), ?h'))"
      unfolding pv fst_DrainChecks checks by (rule refl)
  qed simp_all
qed

text \<open>A Solana message that verifies for a domain and a nonce at a time.\<close>

definition solana_verified :: "ed_verify \<Rightarrow> bytes \<Rightarrow> bytes \<Rightarrow> instant \<Rightarrow> bytes \<Rightarrow> bytes \<Rightarrow> Message \<Rightarrow> bool" where
  "solana_verified ed site n t msg sig m \<longleftrightarrow>
     ParseMessage msg = Ok m \<and> site \<noteq> [] \<and> mDomain m = site \<and> mNonce m = n
     \<and> in_window m t \<and> signed_by ed (mAddress m) msg sig"

text \<open>The nonce of a cookie is live: issued, not burned, not past its deadline.\<close>

definition live_nonce :: "instant \<Rightarrow> bytes \<Rightarrow> hub \<Rightarrow> bool" where
  "live_nonce t n h \<longleftrightarrow> n \<noteq> [] \<and> (\<exists>e. nsEntries (hNonces h) n = Some e \<and> t \<le> e)"

text \<open>The recorder can take the checks of a new attempt.\<close>

definition recorder_free :: "bytes \<Rightarrow> hub \<Rightarrow> bool" where
  "recorder_free i h \<longleftrightarrow> room i (hRecorder h) \<and> rcChecks (hRecorder h) i = None"

text \<open>The session a verified account gets.\<close>

definition session ::
  "HubLib \<Rightarrow> env \<Rightarrow> hub \<Rightarrow> CAIP10 \<Rightarrow> bytes \<Rightarrow> bytes \<Rightarrow> bool" where
  "session H en h acc identityID token \<longleftrightarrow>
     (\<exists>created ids ws. UpsertByWallet (enIdRnd en) acc (hIds h) = (Ok (identityID, created), ids)
        \<and> Wallets identityID ids = Ok ws
        \<and> issuer_Issue (hlJwt H) (enNow en) (hIssuer h) identityID ws = Inr token)"

lemma sign_in_session:
  assumes "hIds h' = hIds h" and "hIssuer h' = hIssuer h"
  shows "snd (fst (sign_in H en i checks h')) = VerifyBody v \<longleftrightarrow>
     session H en h (idAccount i) (vsIdentityID v) (vsToken v) \<and> vsChecks v = checks"
  unfolding sign_in_iff session_def assms by blast

lemma not_live_refused:
  assumes "read_request rq = Ok x" and "\<not> live_nonce (enTime en 0) (rqCookie rq) h"
  shows "snd (fst (postVerify H en rq h)) \<noteq> VerifyBody v"
proof (cases "presents rq")
  case None
  then show ?thesis using postVerify_stops [of rq H en h] by auto
next
  case (Some n)
  then have n: "n = rqCookie rq" "n \<noteq> []" using assms(1) by (auto simp: presents_def split: if_splits)
  then have "fst (Burn (enTime en 0) n (hNonces h)) \<noteq> Ok ()"
    using assms(2) by (auto simp: live_nonce_def Burn_def After_def Let_def split: option.splits)
  then obtain ns where "Burn (enTime en 0) n (hNonces h) = (Err (Sentinel ErrNonceMismatch), ns)"
    by (cases rule: Burn_res [of "enTime en 0" n "hNonces h"]) (metis fst_conv)+
  from postVerify_refuses [of rq n en h, OF Some this, of H] show ?thesis by simp
qed

lemma live_burns:
  assumes "live_nonce t n h"
  obtains ns where "Burn t n (hNonces h) = (Ok (), ns)"
  using assms by (auto simp: live_nonce_def Burn_def After_def Let_def)

lemma buffered_run:
  assumes "recorder_free i h" and "\<forall>e \<in> set es. attempt_id e = i"
  shows "buffered i (rec_events etext (hRecorder h) es) = checks_of es"
  using assms rec_events_room [of i "hRecorder h" es etext]
  by (simp add: recorder_free_def buffered_def)

text \<open>A sign-in succeeds exactly when the nonce is live, the registry accepts and a session can
  be made for the account; all five checks are then reported.\<close>

lemma postVerify_registry:
  assumes reg: "registry_of pick ed L R h" and rd: "read_request rq = Ok (msg, sig, c)"
    and at: "enAttemptRnd en = Some b" "b \<noteq> []" and free: "recorder_free (hex_EncodeToString b) h"
  shows "snd (fst (postVerify H en rq h)) = VerifyBody v \<longleftrightarrow>
     live_nonce (enTime en 0) (rqCookie rq) h
     \<and> (\<exists>i. snd (Registry_Verify no_panics (enWall en) (Some []) (both_verifiers no_panics pick ed L R)
             c msg sig (hub_opts en (rqCookie rq) (hex_EncodeToString b) h)) = Ok i
          \<and> session H en h (idAccount i) (vsIdentityID v) (vsToken v))
     \<and> vsChecks v = all_passed"
proof (cases "live_nonce (enTime en 0) (rqCookie rq) h")
  case False
  then show ?thesis using not_live_refused [OF rd False] by blast
next
  case True
  obtain ns where burn: "Burn (enTime en 0) (rqCookie rq) (hNonces h) = (Ok (), ns)"
    using live_burns [OF True] .
  have ck: "rqCookie rq \<noteq> []" using True by (simp add: live_nonce_def)
  let ?aid = "hex_EncodeToString b"
  have aid: "?aid \<noteq> []" using at(2) length_hex [of b] by (metis length_0_conv mult_eq_0_iff zero_neq_numeral)
  let ?run = "Registry_Verify no_panics (enWall en) (Some []) (both_verifiers no_panics pick ed L R)
             c msg sig (hub_opts en (rqCookie rq) ?aid h)"
  note v = hub_verify_run(2-4) [where en = en and c = c and msg = msg and sig = sig
      and n = "rqCookie rq", OF reg aid]
  have buf: "buffered ?aid (rec_events (hlErrorText H) (hRecorder h) (events_of (fst ?run))) = all_passed"
    if "snd ?run = Ok i" for i
    using buffered_run [OF free v(1)] v(2) [OF that] by simp
  obtain h' where h': "hIds h' = hIds h" "hIssuer h' = hIssuer h" and eq: "postVerify H en rq h =
       (case snd ?run of
          Ok i \<Rightarrow> sign_in H en i (buffered ?aid
            (rec_events (hlErrorText H) (hRecorder h) (events_of (fst ?run)))) h'
        | Err e \<Rightarrow> (problem_reply clearNonceCookie e rq, h')
        | Panic \<Rightarrow> ((clearNonceCookie, Recovered), h'))"
    using postVerify_decides [OF reg rd ck burn at] by metis
  show ?thesis
  proof (cases "snd ?run")
    case (Ok i)
    then show ?thesis
      unfolding eq using sign_in_session [OF h', of H en i] buf [OF Ok] True by auto
  qed (simp_all add: eq)
qed

text \<open>The verdict of the registry within the handler.\<close>

lemma hub_opts_simps [simp]:
  "voExpectedDomain (hub_opts en n i h) = hDomain h" "voExpectedNonce (hub_opts en n i h) = n"
  "voClock (hub_opts en n i h) = Some (enWall en)" "harmless no_panics (hub_opts en n i h)"
  "voAttemptID (hub_opts en n i h) = i" "voObserver (hub_opts en n i h) = Some (External 0)"
  by (simp_all add: hub_opts_def harmless_def no_panics_def)

lemma hub_solana_verdict:
  assumes "cNamespace c = ''solana''" and "enWall en = (\<lambda>_. t)"
  shows "snd (Registry_Verify no_panics (enWall en) (Some b) (both_verifiers no_panics pick ed L R)
        c msg sig (hub_opts en n i h)) = Ok x \<longleftrightarrow>
     (\<exists>m. solana_verified ed (hDomain h) n t msg sig m \<and> x = solana_identity m)"
  using registry_solana_Ok [OF assms(1), of no_panics "hub_opts en n i h" t "enWall en" b pick ed L R msg sig x]
    assms(2)
  by (auto simp: solana_verified_def)

lemma evm_Verify_Ok:
  assumes "ready pan opts" and "voClock opts = Some c"
  shows "snd (evm_Verify pan L R msg sig opts) = Ok i \<longleftrightarrow>
     (\<exists>m. lParseMessage L msg = Inr m \<and> i = evm_identity L m
        \<and> voExpectedDomain opts \<noteq> [] \<and> swDomain m = voExpectedDomain opts
        \<and> evm_in_window m (c 0) \<and> swNonce m = voExpectedNonce opts \<and> authorized L R m sig)"
  unfolding evm_Verify_eq_spec [OF assms]
  by (auto simp: evm_spec_def res_simps evm_checks_Ok verifySignature_Ok split: sum.split)

text \<open>A SIWE message that verifies for a domain and a nonce at a time.\<close>

definition evm_verified ::
  "SiweLib \<Rightarrow> Resolver option \<Rightarrow> bytes \<Rightarrow> bytes \<Rightarrow> instant \<Rightarrow> bytes \<Rightarrow> bytes \<Rightarrow> SiweMsg \<Rightarrow> bool" where
  "evm_verified L R site n t msg sig m \<longleftrightarrow>
     lParseMessage L msg = Inr m \<and> site \<noteq> [] \<and> swDomain m = site \<and> swNonce m = n
     \<and> evm_in_window m t \<and> authorized L R m sig"

lemma hub_evm_verdict:
  assumes "cNamespace c = ''eip155''"
  shows "snd (Registry_Verify no_panics (enWall en) (Some b) (both_verifiers no_panics pick ed L R)
        c msg sig (hub_opts en n i h)) = Ok x \<longleftrightarrow>
     (\<exists>m. evm_verified L R (hDomain h) n (enWall en 0) msg sig m \<and> x = evm_identity L m)"
proof -
  let ?o = "prepared (enWall en) b (hub_opts en n i h)"
  have r: "ready no_panics ?o" by (rule ready_prepared) simp
  have c: "voClock ?o = Some (enWall en)" by (simp add: prepared_def)
  show ?thesis
    unfolding evm_dispatch [OF assms, of no_panics "hub_opts en n i h", simplified] evm_Verify_Ok [OF r c]
    by (auto simp: evm_verified_def)
qed

section \<open>Nonces stay live\<close>

text \<open>A call that leaves the nonce \<open>n\<close>, with deadline \<open>d\<close>, alone.\<close>

definition spares :: "bytes \<Rightarrow> instant \<Rightarrow> hub_call \<Rightarrow> bool" where
  "spares n d c \<longleftrightarrow> (case c of
       CallNonce en \<Rightarrow> leaves n d (CallIssue (enTime en) (enNonceRnd en) nonceTTL)
     | _ \<Rightarrow> map_option snd (call_presents c) \<noteq> Some n)"

lemma hub_exec_spares:
  assumes "spares n d c" and "nsEntries (hNonces h) n = Some d"
  shows "nsEntries (hNonces (snd (hub_exec H h c))) n = Some d"
proof (cases c)
  case (CallNonce en)
  then show ?thesis
    using assms nonce_exec_keeps [of n d "CallIssue (enTime en) (enNonceRnd en) nonceTTL" "hNonces h"]
    by (simp add: spares_def getNonce_nonces)
next
  case (CallVerify en rq)
  then show ?thesis
    using assms by (cases "presents rq") (auto simp: spares_def postVerify_nonces Burn_other)
next
  case (CallLink2 en rq)
  then show ?thesis
    using assms
    by (cases "call_presents (CallLink2 en rq)") (auto simp: spares_def postLink_nonces Burn_other)
qed (use assms in \<open>simp_all add: getConfig_def getJWKS_def register_nonces\<close>)

lemma hub_after_spares:
  "list_all (spares n d) cs \<Longrightarrow> nsEntries (hNonces h) n = Some d \<Longrightarrow>
     nsEntries (hNonces (hub_after H h cs)) n = Some d"
  by (induction cs arbitrary: h) (simp_all add: hub_exec_spares)

lemma getNonce_live:
  assumes "snd (fst (getNonce en h)) = NonceBody n site"
  shows "nsEntries (hNonces (snd (getNonce en h))) n = Some (enTime en 1 + nonceTTL) \<and> site = hDomain h"
  using assms
  by (auto simp: getNonce_def Issue_def Let_def split: option.splits)

section \<open>The sample hub\<close>

lemma sample_registry_of: "registry_of [] sample_ed sample_lib
    (Some (demo_ClientFor sample_demo_lib newDemoContractWallets)) sample_hub"
  by (simp add: registry_of_def sample_hub_def)

lemma sample_recorder_free: "recorder_free i sample_hub"
  by (simp add: recorder_free_def sample_hub_def room_def newRecorder_def)

lemma sample_live: "live_nonce 50 (mNonce sample_message) sample_hub"
  by (simp add: live_nonce_def sample_hub_def sample_message_def)

lemma sample_verified:
  "solana_verified sample_ed (hDomain sample_hub) (mNonce sample_message) 50
     (Message_String sample_message) sample_sig sample_message"
  using sample_facts [OF sample_message_printable sample_message_fields] sample_message_fields
  by (simp add: solana_verified_def sample_hub_def)

lemma sample_session:
  assumes "valid_CAIP10 acc"
  shows "session sample_hub_lib sample_env sample_hub acc ''id_64'' ''tok''"
proof -
  have p: "ParseCAIP10 (CAIP10_String acc) = Ok acc" by (rule ParseCAIP10_String [OF assms])
  have "hex_EncodeToString ''d'' = ''64''" by code_simp
  then have "UpsertByWallet (enIdRnd sample_env) acc (hIds sample_hub) =
      (Ok (''id_64'', True), \<lparr>walletToID = [CAIP10_String acc \<mapsto> ''id_64''],
         idToWallets = [''id_64'' \<mapsto> [CAIP10_String acc]]\<rparr>)"
    by (simp add: UpsertByWallet_def Let_def sample_env_def sample_hub_def newIdentityStore_def)
  moreover have "Wallets ''id_64'' \<lparr>walletToID = [CAIP10_String acc \<mapsto> ''id_64''],
         idToWallets = [''id_64'' \<mapsto> [CAIP10_String acc]]\<rparr> = Ok [acc]"
    using p by (simp add: Wallets_def)
  moreover have "issuer_Issue (hlJwt sample_hub_lib) (enNow sample_env) (hIssuer sample_hub) ''id_64'' [acc] = Inr ''tok''"
    by (simp add: issuer_Issue_def sample_hub_lib_def sample_jwt_def)
  ultimately show ?thesis unfolding session_def by blast
qed

lemma sample_env_simps:
  "enWall sample_env = (\<lambda>_. 50)" "enTime sample_env = (\<lambda>_. 50)" "enAttemptRnd sample_env = Some ''b''"
  by (simp_all add: sample_env_def)

text \<open>The sign-in of the sample client, as far as the session.\<close>

lemma sample_sign_in:
  obtains h' where "hIds h' = hIds sample_hub" and "hIssuer h' = hIssuer sample_hub"
    and "postVerify sample_hub_lib sample_env (request_for sample_message) sample_hub
       = sign_in sample_hub_lib sample_env (solana_identity sample_message) all_passed h'"
proof -
  let ?c = "\<lparr>cNamespace = ''solana'', cReference = ''mainnet''\<rparr>"
  let ?rq = "request_for sample_message"
  have ck: "rqCookie ?rq = mNonce sample_message" "rqCookie ?rq \<noteq> []"
    by (simp_all add: request_for_def sample_message_fields(3))
  obtain ns where burn: "Burn (enTime sample_env 0) (rqCookie ?rq) (hNonces sample_hub) = (Ok (), ns)"
    using live_burns [OF sample_live] by (auto simp: sample_env_simps ck)
  let ?run = "Registry_Verify no_panics (enWall sample_env) (Some []) (both_verifiers no_panics [] sample_ed
      sample_lib (Some (demo_ClientFor sample_demo_lib newDemoContractWallets))) ?c
      (Message_String sample_message) sample_sig
      (hub_opts sample_env (rqCookie ?rq) (hex_EncodeToString ''b'') sample_hub)"
  have run: "snd ?run = Ok (solana_identity sample_message)"
    using hub_solana_verdict [of ?c sample_env 50] sample_env_simps(1) sample_verified by (auto simp: ck)
  have aid: "hex_EncodeToString ''b'' \<noteq> []" by code_simp
  note v = hub_verify_run(2-3) [where en = sample_env and c = ?c and msg = "Message_String sample_message"
      and sig = sample_sig and n = "rqCookie ?rq", OF sample_registry_of aid]
  have buf: "buffered (hex_EncodeToString ''b'') (rec_events (hlErrorText sample_hub_lib) (hRecorder sample_hub)
      (events_of (fst ?run))) = all_passed"
    using buffered_run [OF sample_recorder_free v(1)] v(2) [OF run] by simp
  have b: "[CHR ''b''] \<noteq> []" by simp
  obtain h' where h': "hIds h' = hIds sample_hub" "hIssuer h' = hIssuer sample_hub"
    and eq: "postVerify sample_hub_lib sample_env ?rq sample_hub =
       (case snd ?run of
          Ok i \<Rightarrow> sign_in sample_hub_lib sample_env i (buffered (hex_EncodeToString ''b'')
            (rec_events (hlErrorText sample_hub_lib) (hRecorder sample_hub) (events_of (fst ?run)))) h'
        | Err e \<Rightarrow> (problem_reply clearNonceCookie e ?rq, h')
        | Panic \<Rightarrow> ((clearNonceCookie, Recovered), h'))"
    by (rule postVerify_decides [where H = sample_hub_lib, OF sample_registry_of
        read_request_for [of sample_message] ck(2) burn sample_env_simps(3) b])
  show thesis
  proof (rule that [OF h'])
    show "postVerify sample_hub_lib sample_env ?rq sample_hub
       = sign_in sample_hub_lib sample_env (solana_identity sample_message) all_passed h'"
      unfolding eq run res.case buf by (rule refl)
  qed
qed

section \<open>Properties\<close>

text \<open>C5. The Solana sign-in of the hub, from the request to the reply: a session is returned exactly
  when the nonce of the cookie is live, the decoded message parses, names the hub's domain
  and that nonce, is inside its window and is signed by the key of its address, and the
  identity store and the issuer give the account a session; the reply then reports all five
  checks as passed.\<close>

theorem hub_solana_sign_in:
  assumes "registry_of pick ed L R h" and "enWall en = (\<lambda>_. t)"
    and "enAttemptRnd en = Some b" and "b \<noteq> []" and "recorder_free (hex_EncodeToString b) h"
    and "read_request rq = Ok (msg, sig, c)" and "cNamespace c = ''solana''"
  shows "snd (fst (postVerify H en rq h)) = VerifyBody v \<longleftrightarrow>
     live_nonce (enTime en 0) (rqCookie rq) h
     \<and> (\<exists>m. solana_verified ed (hDomain h) (rqCookie rq) t msg sig m
          \<and> session H en h (idAccount (solana_identity m)) (vsIdentityID v) (vsToken v))
     \<and> vsChecks v = all_passed"
  unfolding postVerify_registry [OF assms(1,6,3,4,5)] hub_solana_verdict [OF assms(7,2)] by blast

theorem hub_solana_sign_in_witness:
  "snd (fst (postVerify sample_hub_lib sample_env (request_for sample_message) sample_hub))
     = VerifyBody \<lparr>vsToken = ''tok'', vsIdentityID = ''id_64'', vsChecks = all_passed\<rparr>"
proof -
  have "rqCookie (request_for sample_message) = mNonce sample_message" by (simp add: request_for_def)
  moreover have "valid_CAIP10 (idAccount (solana_identity sample_message))" by code_simp
  ultimately show ?thesis
    using hub_solana_sign_in [where H = sample_hub_lib, OF sample_registry_of sample_env_simps(1,3) _
        sample_recorder_free read_request_for [of sample_message]]
      sample_verified sample_session sample_live
    by (simp add: sample_env_simps) blast
qed

text \<open>C13. The same for an Ethereum account, ordinary or contract: the session is returned exactly
  when the nonce is live and siwe-go parses the message, the domain, the nonce and the window
  are right, and the signature stage authorises it.\<close>

theorem hub_evm_sign_in:
  assumes "registry_of pick ed L R h"
    and "enAttemptRnd en = Some b" and "b \<noteq> []" and "recorder_free (hex_EncodeToString b) h"
    and "read_request rq = Ok (msg, sig, c)" and "cNamespace c = ''eip155''"
  shows "snd (fst (postVerify H en rq h)) = VerifyBody v \<longleftrightarrow>
     live_nonce (enTime en 0) (rqCookie rq) h
     \<and> (\<exists>m. evm_verified L R (hDomain h) (rqCookie rq) (enWall en 0) msg sig m
          \<and> session H en h (idAccount (evm_identity L m)) (vsIdentityID v) (vsToken v))
     \<and> vsChecks v = all_passed"
  unfolding postVerify_registry [OF assms(1,5,2,3,4)] hub_evm_verdict [OF assms(6)] by blast

definition evm_request :: request where
  "evm_request =
     \<lparr>rqRequestID = [],
      rqBody = Some \<lparr>vrMessage = b64_encode StdEncoding ''m'', vrSignature = b64_encode StdEncoding ''ok'',
        vrChainID = ''eip155:1''\<rparr>,
      rqOwner = None, rqCookie = ''abcd1234'', rqIdentity = None\<rparr>"

lemma read_evm_request:
  "read_request evm_request = Ok (''m'', ''ok'', \<lparr>cNamespace = ''eip155'', cReference = ''1''\<rparr>)"
proof -
  have "valid_CAIP2 \<lparr>cNamespace = ''eip155'', cReference = ''1''\<rparr>" by code_simp
  from ParseCAIP2_String [OF this] show ?thesis
    by (simp add: read_request_def evm_request_def std.b64_decode_encode CAIP2_String_def
        del: b64_encode.simps)
qed

lemma sample_evm_verified:
  "evm_verified sample_lib (Some (demo_ClientFor sample_demo_lib newDemoContractWallets))
     (hDomain sample_hub) ''abcd1234'' t ''m'' ''ok'' sample_siwe"
proof -
  have "hex_EncodeToString ''ok'' = ''6f6b''" by code_simp
  then have "authorized sample_lib (Some (demo_ClientFor sample_demo_lib newDemoContractWallets)) sample_siwe ''ok''"
    using not_wrapped_ok
    by (simp add: authorized_def demo_client_of demo_eoa_valid newDemoContractWallets_def)
       (simp add: sample_lib_def)
  then show ?thesis
    by (simp add: evm_verified_def evm_in_window_def opt_ok_def sample_hub_def)
       (simp add: sample_siwe_def sample_lib_def)
qed

theorem hub_evm_sign_in_witness:
  "snd (fst (postVerify sample_hub_lib sample_env evm_request sample_hub))
     = VerifyBody \<lparr>vsToken = ''tok'', vsIdentityID = ''id_64'', vsChecks = all_passed\<rparr>"
proof -
  have "valid_CAIP10 (idAccount (evm_identity sample_lib sample_siwe))" by code_simp
  moreover have "rqCookie evm_request = ''abcd1234''" by (simp add: evm_request_def)
  moreover have "live_nonce 50 ''abcd1234'' sample_hub" using sample_live by (simp add: sample_message_def)
  ultimately show ?thesis
    using hub_evm_sign_in [where H = sample_hub_lib, OF sample_registry_of sample_env_simps(3) _
        sample_recorder_free read_evm_request]
      sample_evm_verified sample_session
    by (simp add: sample_env_simps) blast
qed


definition fresh_hub :: hub where
  "fresh_hub = sample_hub\<lparr>hNonces := newNonceStore\<rparr>"


end
