(* ===== verification/HubSafety.thy ===== *)
theory HubSafety
  imports HubSignIn
begin

text \<open>
  What every handler keeps: the invariants of the stores, and the settings of the hub; and two
  behaviours that follow from how the parts meet: accounts that can never get a session, and
  checks that linking leaves in the recorder.
\<close>

section \<open>The invariant of the hub\<close>

text \<open>Settings that no handler changes.\<close>

definition same_settings :: "hub \<Rightarrow> hub \<Rightarrow> bool" where
  "same_settings h h' \<longleftrightarrow> hDomain h' = hDomain h \<and> hRegistry h' = hRegistry h
     \<and> hIssuer h' = hIssuer h \<and> (hDemoWallets h' = None \<longleftrightarrow> hDemoWallets h = None)"

definition hub_wf :: "HubLib \<Rightarrow> hub \<Rightarrow> bool" where
  "hub_wf H h \<longleftrightarrow> ids_wf (hIds h) \<and> buffer_ok (hRecorder h)
     \<and> (\<forall>d w ow. hDemoWallets h = Some d \<longrightarrow> dwOwners d w = Some ow \<longrightarrow> w = deriveWallet (hlDemo H) ow)"

text \<open>The random id of a new identity is not in use.\<close>

definition fresh_call :: "hub \<Rightarrow> hub_call \<Rightarrow> bool" where
  "fresh_call h c \<longleftrightarrow> (case c of CallVerify en rq \<Rightarrow> fresh_id (enIdRnd en) (hIds h) | _ \<Rightarrow> True)"

lemma hub_verify_keeps:
  "hub_verify H en c msg sig n i h = (r, h') \<Longrightarrow>
     hIds h' = hIds h \<and> same_settings h h' \<and> hDemoWallets h' = hDemoWallets h
     \<and> (buffer_ok (hRecorder h) \<longrightarrow> buffer_ok (hRecorder h'))"
  by (auto simp: hub_verify_def Let_def same_settings_def rec_events_ok)

lemma sign_in_keeps:
  assumes "ids_wf (hIds h)" and "fresh_id (enIdRnd en) (hIds h)"
  shows "ids_wf (hIds (snd (sign_in H en i checks h))) \<and> same_settings h (snd (sign_in H en i checks h))
     \<and> hDemoWallets (snd (sign_in H en i checks h)) = hDemoWallets h
     \<and> rcChecks (hRecorder (snd (sign_in H en i checks h))) = rcChecks (hRecorder h)"
proof -
  have "ids_wf (snd (UpsertByWallet (enIdRnd en) (idAccount i) (hIds h)))"
    by (rule ids_wf_Upsert [OF assms])
  then show ?thesis
    by (cases "UpsertByWallet (enIdRnd en) (idAccount i) (hIds h)")
       (auto simp: sign_in_def Let_def same_settings_def split: res.split sum.split prod.split)
qed

lemma buffer_ok_checks: "rcChecks r = rcChecks r' \<Longrightarrow> buffer_ok r = buffer_ok r'"
  by (simp add: buffer_ok_def)

lemma same_settings_trans: "same_settings h h' \<Longrightarrow> same_settings h' h'' \<Longrightarrow> same_settings h h''"
  by (simp add: same_settings_def)

lemma buffer_ok_counters [simp]: "buffer_ok (r\<lparr>rcCounters := c\<rparr>) = buffer_ok r"
  by (simp add: buffer_ok_def)

definition kept :: "HubLib \<Rightarrow> hub \<Rightarrow> hub \<Rightarrow> bool" where
  "kept H h h' \<longleftrightarrow> hub_wf H h' \<and> same_settings h h'"

lemma kept_hub_verify:
  assumes "hub_wf H h1" and "same_settings h h1" and "hub_verify H en c msg sig n i h1 = (r, h2)"
  shows "kept H h h2"
  using assms hub_verify_keeps [OF assms(3)]
  by (auto simp: kept_def hub_wf_def intro: same_settings_trans)

lemma kept_drain: "kept H h h1 \<Longrightarrow> kept H h (h1\<lparr>hRecorder := snd (DrainChecks i (hRecorder h1))\<rparr>)"
  by (auto simp: kept_def hub_wf_def same_settings_def drain_ok)

lemma kept_sign_in:
  assumes "kept H h h1" and "fresh_id (enIdRnd en) (hIds h1)"
  shows "kept H h (snd (sign_in H en i checks h1))"
  using assms sign_in_keeps [of h1 en H i checks]
    buffer_ok_checks [of "hRecorder (snd (sign_in H en i checks h1))" "hRecorder h1"]
  by (auto simp: kept_def hub_wf_def intro: same_settings_trans)

lemma kept_refl: "hub_wf H h \<Longrightarrow> kept H h h"
  by (simp add: kept_def same_settings_def)

text \<open>Replacing the nonce store or the counters keeps everything.\<close>

lemma kept_nonces: "kept H h h1 \<Longrightarrow> kept H h (h1\<lparr>hNonces := ns\<rparr>)"
  and kept_counters: "kept H h h1 \<Longrightarrow> kept H h (h1\<lparr>hRecorder := (hRecorder h1)\<lparr>rcCounters := c\<rparr>\<rparr>)"
  by (auto simp: kept_def hub_wf_def same_settings_def)

lemma postVerify_kept:
  assumes "hub_wf H h" and "fresh_id (enIdRnd en) (hIds h)"
  shows "kept H h (snd (postVerify H en rq h))"
proof (cases "presents rq")
  case None
  then show ?thesis using postVerify_stops [of rq H en h] kept_refl [OF assms(1)] by auto
next
  case (Some n)
  then obtain msg sig c where rd: "read_request rq = Ok (msg, sig, c)" and n: "rqCookie rq = n" "n \<noteq> []"
    by (auto simp: presents_def split: res.splits if_splits)
  show ?thesis
  proof (cases rule: Burn_res [of "enTime en 0" n "hNonces h"])
    case refused
    from postVerify_refuses [of rq n en h, OF Some this, of H] show ?thesis
      using kept_nonces [OF kept_refl [OF assms(1)]] by simp
  next
    case burned
    define h1 where "h1 = burned_hub en n h"
    have k1: "kept H h h1"
      using kept_counters [OF kept_nonces [OF kept_refl [OF assms(1)]]] by (simp add: h1_def burned_hub_def)
    have "fst (Burn (enTime en 0) n (hNonces h)) = Ok ()" using burned by (metis fst_conv)
    then have pv: "postVerify H en rq h = verify_burned H en rq (msg, sig, c) h1"
      using postVerify_burned [of rq, OF rd] n by (simp add: h1_def)
    have ids1: "hIds h1 = hIds h" by (simp add: h1_def burned_hub_def)
    show ?thesis
    proof (cases "hub_newAttemptID (enAttemptRnd en)")
      case (Ok aid)
      obtain res h2 where v: "hub_verify H en c msg sig n aid h1 = (res, h2)" by fastforce
      have k2: "kept H h h2" using k1 v by (intro kept_hub_verify) (auto simp: kept_def)
      have ids: "hIds h2 = hIds h" using hub_verify_keeps [OF v] ids1 by simp
      note k3 = kept_drain [OF k2, of aid]
      have "kept H h (snd (sign_in H en i checks (h2\<lparr>hRecorder := snd (DrainChecks aid (hRecorder h2))\<rparr>)))"
        for i checks using k3 by (rule kept_sign_in) (simp add: ids assms(2))
      then show ?thesis
        using k2 k3 by (cases res; cases "DrainChecks aid (hRecorder h2)") (simp_all add: pv verify_burned_def n(1) Ok v)
    qed (simp_all add: pv verify_burned_def k1)
  qed
qed

lemma kept_link:
  assumes "kept H h h1" and "LinkWallet i w (hIds h1) = (r, ids)"
  shows "kept H h (h1\<lparr>hIds := ids\<rparr>)"
  using assms ids_wf_Link [of "hIds h1" i w] by (auto simp: kept_def hub_wf_def same_settings_def)

lemma postLink_kept:
  assumes "hub_wf H h"
  shows "kept H h (snd (postLink H en rq h))"
proof -
  have k: "kept H h (h\<lparr>hNonces := ns\<rparr>)" for ns by (intro kept_nonces kept_refl assms)
  have v: "kept H h h2" if "hub_verify H en c msg sig n [] (h\<lparr>hNonces := ns\<rparr>) = (r, h2)"
    for c msg sig n ns r h2
    using k [of ns] that by (intro kept_hub_verify) (auto simp: kept_def)
  show ?thesis
    using k v kept_refl [OF assms]
    by (auto simp: postLink_def split: option.split res.split prod.split intro: kept_link)
qed

lemma hub_exec_kept:
  assumes "hub_wf H h" and "fresh_call h c"
  shows "kept H h (snd (hub_exec H h c))"
proof (cases c)
  case (CallNonce en)
  have k: "kept H h (h\<lparr>hNonces := ns\<rparr>)" for ns by (intro kept_nonces kept_refl assms)
  show ?thesis
    using CallNonce k kept_counters [OF k]
    by (auto simp: getNonce_def split: prod.split res.split)
next
  case (CallWallet rq)
  then show ?thesis
    using assms(1)
    by (auto simp: postRegisterContractWallet_def RegisterWallet_def Let_def kept_def hub_wf_def
        same_settings_def split: option.splits if_splits)
next
  case (CallVerify en rq)
  then show ?thesis using postVerify_kept [OF assms(1)] assms(2) by (simp add: fresh_call_def)
next
  case (CallLink2 en rq)
  then show ?thesis using postLink_kept [OF assms(1)] by simp
qed (use kept_refl [OF assms(1)] in \<open>simp_all add: getConfig_def getJWKS_def\<close>)

text \<open>Histories in which every new identity gets an unused id.\<close>

primrec fresh_calls :: "HubLib \<Rightarrow> hub \<Rightarrow> hub_call list \<Rightarrow> bool" where
  "fresh_calls H h [] \<longleftrightarrow> True"
| "fresh_calls H h (c # cs) \<longleftrightarrow> fresh_call h c \<and> fresh_calls H (snd (hub_exec H h c)) cs"

lemma hub_after_kept: "hub_wf H h \<Longrightarrow> fresh_calls H h cs \<Longrightarrow> kept H h (hub_after H h cs)"
proof (induction cs arbitrary: h)
  case (Cons c cs)
  then have "kept H h (snd (hub_exec H h c))" by (intro hub_exec_kept) auto
  then show ?case
    using Cons.IH [of "snd (hub_exec H h c)"] Cons.prems(2)
    by (auto simp: kept_def intro: same_settings_trans)
qed (simp add: kept_refl)

section \<open>Accounts without a session\<close>

lemma parse_all_each:
  "parse_all strs [] = Ok ws \<Longrightarrow> k \<in> set strs \<Longrightarrow> \<exists>a. ParseCAIP10 k = Ok a"
  using parse_all_Ok [of strs ws] ParseCAIP10_String
  by (metis (no_types, lifting) in_set_conv_nth length_map list_all_length nth_map)

lemma session_parses:
  assumes "ids_wf (hIds h)" and "fresh_id (enIdRnd en) (hIds h)" and "session H en h acc i tok"
  shows "\<exists>a. ParseCAIP10 (CAIP10_String acc) = Ok a"
proof -
  from assms(3) obtain created ids ws where
    u: "UpsertByWallet (enIdRnd en) acc (hIds h) = (Ok (i, created), ids)" and w: "Wallets i ids = Ok ws"
    by (auto simp: session_def)
  have "ids_wf ids" using ids_wf_Upsert [OF assms(1,2), of acc] u by simp
  moreover have "walletToID ids (CAIP10_String acc) = Some i"
    using Upsert_resolves [of "enIdRnd en" acc "hIds h" i created] u by simp
  ultimately have "\<exists>ks. idToWallets ids i = Some ks \<and> CAIP10_String acc \<in> set ks"
    unfolding ids_wf_def by blast
  then obtain ks where "idToWallets ids i = Some ks" "CAIP10_String acc \<in> set ks" by blast
  then show ?thesis using w parse_all_each by (auto simp: Wallets_def)
qed

lemma sign_in_registers:
  assumes "enIdRnd en \<noteq> None"
  shows "walletToID (hIds (snd (sign_in H en i checks h))) (CAIP10_String (idAccount i)) \<noteq> None"
  using assms
  by (auto simp: sign_in_def UpsertByWallet_def Let_def split: option.splits prod.splits res.splits sum.splits)

section \<open>Checks that linking leaves behind\<close>

lemma rec_events_other:
  assumes "\<forall>e \<in> set es. attempt_id e = i" and "j \<noteq> i"
  shows "rcChecks (rec_events etext r es) j = rcChecks r j"
  using assms(1)
proof (induction es arbitrary: r)
  case (Cons e es)
  have "rcChecks (rec_event etext r e) j = rcChecks r j"
    using Cons.prems assms(2)
    by (cases e) (auto simp: rec_event_checks buffer_check_def simp del: rec_event.simps)
  then show ?case using Cons by simp
qed simp

lemma postLink_accepted_run:
  assumes reg: "registry_of pick ed L R h" and rnd: "enRegistryRnd en = Some b"
    and free: "recorder_free (hex_EncodeToString b) h"
    and ok: "snd (fst (postLink H en rq h)) = LinkedBody a"
  shows "rcChecks (hRecorder (snd (postLink H en rq h))) (hex_EncodeToString b) = Some all_passed
     \<and> (\<forall>j. j \<noteq> hex_EncodeToString b \<longrightarrow>
          rcChecks (hRecorder (snd (postLink H en rq h))) j = rcChecks (hRecorder h) j)"
proof -
  from ok obtain identityID msg sig c where rd: "rqIdentity rq = Some identityID"
    "read_request rq = Ok (msg, sig, c)" "rqCookie rq \<noteq> []"
    by (auto simp: postLink_def split: option.splits res.splits if_splits prod.splits)
  obtain ns where burn: "Burn (enTime en 0) (rqCookie rq) (hNonces h) = (Ok (), ns)"
    using ok rd by (cases rule: Burn_res [of "enTime en 0" "rqCookie rq" "hNonces h"])
      (auto simp: postLink_def split: prod.splits res.splits)
  let ?h1 = "h\<lparr>hNonces := ns\<rparr>"
  let ?o = "hub_opts en (rqCookie rq) [] ?h1"
  let ?run = "Registry_Verify no_panics (enWall en) (Some b) (both_verifiers no_panics pick ed L R) c msg sig ?o"
  let ?aid = "hex_EncodeToString b"
  have aid: "voAttemptID (prepared (enWall en) b ?o) = ?aid" by (simp add: prepared_def)
  have "voObserver ?o = Some (External 0)" "\<forall>e. \<not> no_panics 0 e" by (simp_all add: no_panics_def)
  note r = registry_run [where pan = no_panics and n = 0 and wall = "enWall en" and b = b and c = c
      and msg = msg and sig = sig and opts = ?o and pick = pick and ed = ed and L = L and R = R,
      OF this, unfolded aid]
  have v: "hub_verify H en c msg sig (rqCookie rq) [] ?h1 = (snd ?run,
      ?h1\<lparr>hRecorder := rec_events (hlErrorText H) (hRecorder h) (events_of (fst ?run))\<rparr>)"
    using reg by (simp add: hub_verify_def registry_of_def rnd Let_def)
  obtain i where i: "snd ?run = Ok i"
    using ok r by (cases "snd ?run") (auto simp: postLink_def rd burn v)
  have rec: "hRecorder (snd (postLink H en rq h)) = rec_events (hlErrorText H) (hRecorder h) (events_of (fst ?run))"
    using i by (auto simp: postLink_def rd burn v split: prod.split res.split)
  have "all_passed \<noteq> []" by (simp add: all_passed_def check_order_def)
  moreover have "buffered ?aid (hRecorder (snd (postLink H en rq h))) = all_passed"
    unfolding rec using buffered_run [OF free, of "events_of (fst ?run)"] r i by simp
  ultimately have "rcChecks (hRecorder (snd (postLink H en rq h))) ?aid = Some all_passed"
    by (auto simp: buffered_def split: option.splits)
  then show ?thesis unfolding rec using rec_events_other r by blast
qed

lemma full_recorder_checks:
  assumes reg: "registry_of pick ed L R h" and at: "enAttemptRnd en = Some b" "b \<noteq> []"
    and full: "card (dom (rcChecks (hRecorder h))) = 1024" "rcChecks (hRecorder h) (hex_EncodeToString b) = None"
    and ok: "snd (fst (postVerify H en rq h)) = VerifyBody v"
  shows "vsChecks v = []"
proof -
  obtain n where n: "presents rq = Some n" "fst (Burn (enTime en 0) n (hNonces h)) = Ok ()"
    using postVerify_accepted [of H en rq h] ok by auto
  then obtain msg sig c where rd: "read_request rq = Ok (msg, sig, c)" and ck: "rqCookie rq = n" "rqCookie rq \<noteq> []"
    by (auto simp: presents_def split: res.splits if_splits)
  from n obtain ns where burn: "Burn (enTime en 0) (rqCookie rq) (hNonces h) = (Ok (), ns)"
    unfolding ck by (metis prod.collapse)
  let ?run = "Registry_Verify no_panics (enWall en) (Some []) (both_verifiers no_panics pick ed L R)
     c msg sig (hub_opts en (rqCookie rq) (hex_EncodeToString b) h)"
  have buf: "buffered (hex_EncodeToString b) (rec_events (hlErrorText H) (hRecorder h) (events_of (fst ?run))) = []"
    using full_stays [OF full(1)] full(2) by (simp add: buffered_def)
  obtain h' where eq: "postVerify H en rq h =
       (case snd ?run of
          Ok i \<Rightarrow> sign_in H en i (buffered (hex_EncodeToString b)
            (rec_events (hlErrorText H) (hRecorder h) (events_of (fst ?run)))) h'
        | Err e \<Rightarrow> (problem_reply clearNonceCookie e rq, h')
        | Panic \<Rightarrow> ((clearNonceCookie, Recovered), h'))"
    using postVerify_decides [OF reg rd ck(2) burn at] by metis
  then show ?thesis
    using ok buf by (cases "snd ?run") (auto simp: sign_in_iff)
qed

section \<open>Properties\<close>

text \<open>The hub is well formed in every state it reaches: whatever requests arrive, as long as
  each new identity gets an id that is not in use, the wallet maps agree, the recorder stays
  within its bound, every demo wallet has the address derived from its owner, and no request
  changes the domain, the verifiers or the issuer.\<close>

theorem hub_invariant:
  assumes "hub_wf H h" and "fresh_calls H h cs"
  shows "hub_wf H (hub_after H h cs) \<and> same_settings h (hub_after H h cs)"
  using hub_after_kept [OF assms] by (simp add: kept_def)

lemma sample_hub_wf: "hub_wf sample_hub_lib sample_hub"
  by (simp add: hub_wf_def sample_hub_def ids_wf_new buffer_ok_def newRecorder_def newDemoContractWallets_def)

theorem hub_invariant_witness:
  "hub_wf sample_hub_lib (hub_after sample_hub_lib sample_hub
     [CallConfig, CallVerify sample_env (request_for sample_message)])"
proof -
  have "fresh_calls sample_hub_lib sample_hub
      [CallConfig, CallVerify sample_env (request_for sample_message)]"
    by (simp add: fresh_call_def fresh_id_def getConfig_def)
       (simp add: sample_hub_def newIdentityStore_def)
  from hub_invariant [OF sample_hub_wf this] show ?thesis by blast
qed

text \<open>C34. An account whose text is not a CAIP-10 id never gets a session: the hub registers it under
  an identity and answers 500, now and at every later sign-in, in every well-formed state.
  The Solana verifier produces such accounts.\<close>

theorem unparsable_account_500:
  assumes "hub_wf H h" and "fresh_id (enIdRnd en) (hIds h)" and "enIdRnd en \<noteq> None"
    and "\<forall>a. ParseCAIP10 (CAIP10_String (idAccount i)) \<noteq> Ok a"
  shows "(\<exists>t. snd (fst (sign_in H en i checks h)) = ErrorBody 500 t)
     \<and> walletToID (hIds (snd (sign_in H en i checks h))) (CAIP10_String (idAccount i)) \<noteq> None
     \<and> hub_wf H (snd (sign_in H en i checks h))"
proof -
  have "ids_wf (hIds h)" using assms(1) by (simp add: hub_wf_def)
  then have "snd (fst (sign_in H en i checks h)) \<noteq> VerifyBody v" for v
    using session_parses [of h en H "idAccount i"] assms(2,4) sign_in_session [of h h H en i checks v] by blast
  moreover have "hub_wf H (snd (sign_in H en i checks h))"
    using kept_sign_in [OF kept_refl [OF assms(1)] assms(2)] by (simp add: kept_def)
  ultimately show ?thesis
    using sign_in_body [of H en i checks h] sign_in_registers [OF assms(3)] by blast
qed

lemma odd_account: "\<forall>a. ParseCAIP10 (CAIP10_String (idAccount (solana_identity odd_chain_message))) \<noteq> Ok a"
proof -
  have "\<not> reReference ''main net''" by code_simp
  then show ?thesis
    using ParseCAIP10_split [of "''solana''" "''main net''" "mAddress odd_chain_message"]
    by (simp add: CAIP10_String_def CAIP2_String_def solana_identity_def odd_chain_message_def)
qed

theorem unparsable_account_500_witness:
  "\<exists>t. snd (fst (sign_in sample_hub_lib sample_env (solana_identity odd_chain_message) [] sample_hub))
     = ErrorBody 500 t"
proof -
  have "fresh_id (enIdRnd sample_env) (hIds sample_hub)" "enIdRnd sample_env \<noteq> None"
    by (simp_all add: fresh_id_def sample_hub_def newIdentityStore_def sample_env_def)
  from unparsable_account_500 [OF sample_hub_wf this odd_account] show ?thesis by blast
qed

text \<open>C38. Linking leaks the recorder's buffer: a successful \<open>POST /auth/link\<close> leaves its five checks
  behind under an attempt id that no handler drains, and once 1024 attempts are left behind,
  every successful sign-in reports an empty list of checks.\<close>

theorem links_starve_checks:
  assumes "registry_of pick ed L R h"
  shows "(enRegistryRnd en = Some b \<and> recorder_free (hex_EncodeToString b) h
        \<and> snd (fst (postLink H en rq h)) = LinkedBody a \<longrightarrow>
      rcChecks (hRecorder (snd (postLink H en rq h))) (hex_EncodeToString b) = Some all_passed
      \<and> (\<forall>j. j \<noteq> hex_EncodeToString b \<longrightarrow>
            rcChecks (hRecorder (snd (postLink H en rq h))) j = rcChecks (hRecorder h) j))
   \<and> (enAttemptRnd en = Some b \<and> b \<noteq> [] \<and> card (dom (rcChecks (hRecorder h))) = 1024
        \<and> rcChecks (hRecorder h) (hex_EncodeToString b) = None
        \<and> snd (fst (postVerify H en rq h)) = VerifyBody v \<longrightarrow> vsChecks v = [])"
  using postLink_accepted_run [OF assms] full_recorder_checks [OF assms] by blast

definition link_hub :: hub where
  "link_hub = sample_hub\<lparr>hIds := \<lparr>walletToID = [''w'' \<mapsto> ''id_61''], idToWallets = [''id_61'' \<mapsto> [''w'']]\<rparr>\<rparr>"

lemma sample_link:
  "snd (fst (postLink sample_hub_lib sample_env (request_for sample_message) link_hub))
     = LinkedBody (CAIP10_String (idAccount (solana_identity sample_message)))"
proof -
  let ?c = "\<lparr>cNamespace = ''solana'', cReference = ''mainnet''\<rparr>"
  let ?h = "link_hub\<lparr>hNonces := newNonceStore\<rparr>"
  have burn: "Burn 50 ''abcd1234'' (hNonces link_hub) = (Ok (), newNonceStore)"
    by (simp add: Burn_def link_hub_def sample_hub_def After_def newNonceStore_def)
  have reg: "hRegistry link_hub (hDemoWallets link_hub) = both_verifiers no_panics [] sample_ed sample_lib
      (Some (demo_ClientFor sample_demo_lib newDemoContractWallets))" "enRegistryRnd sample_env = Some ''c''"
    by (simp_all add: link_hub_def sample_hub_def sample_env_def)
  have "hDomain ?h = hDomain sample_hub" by (simp add: link_hub_def)
  then have "snd (Registry_Verify no_panics (enWall sample_env) (Some ''c'')
      (both_verifiers no_panics [] sample_ed sample_lib (Some (demo_ClientFor sample_demo_lib newDemoContractWallets)))
      ?c (Message_String sample_message) sample_sig (hub_opts sample_env (mNonce sample_message) [] ?h))
      = Ok (solana_identity sample_message)"
    using hub_solana_verdict [of ?c sample_env 50] sample_env_simps(1) sample_verified by auto
  then have v: "fst (hub_verify sample_hub_lib sample_env ?c (Message_String sample_message) sample_sig
      ''abcd1234'' [] ?h) = Ok (solana_identity sample_message)"
    by (simp add: hub_verify_def Let_def reg sample_message_fields(3))
  obtain h2 where v2: "hub_verify sample_hub_lib sample_env ?c (Message_String sample_message) sample_sig
      ''abcd1234'' [] ?h = (Ok (solana_identity sample_message), h2)"
    using v by (metis prod.collapse)
  have "hIds h2 = hIds link_hub" using hub_verify_keeps [OF v2] by simp
  then have "\<exists>ids. LinkWallet ''id_61'' (idAccount (solana_identity sample_message)) (hIds h2) = (Ok (), ids)"
    by (simp add: link_hub_def LinkWallet_def Let_def)
  then show ?thesis
    using read_request_for [of sample_message] burn v2
    by (auto simp: postLink_def request_for_def sample_message_fields(3) sample_env_simps(2))
qed

theorem links_starve_checks_witness:
  "rcChecks (hRecorder (snd (postLink sample_hub_lib sample_env (request_for sample_message) link_hub)))
     (hex_EncodeToString ''c'') = Some all_passed"
proof -
  have "registry_of [] sample_ed sample_lib
      (Some (demo_ClientFor sample_demo_lib newDemoContractWallets)) link_hub"
    using sample_registry_of by (simp add: registry_of_def link_hub_def)
  moreover have "enRegistryRnd sample_env = Some ''c''" by (simp add: sample_env_def)
  moreover have "recorder_free (hex_EncodeToString ''c'') link_hub"
    using sample_recorder_free by (simp add: recorder_free_def link_hub_def)
  ultimately show ?thesis using links_starve_checks sample_link by blast
qed

end
