(* ===== verification/GoQuote.thy ===== *)
theory GoQuote
  imports GoUtf8 GoHex
begin

text \<open>
  \<open>strconv.Quote\<close>, the verb \<open>%q\<close>: a string between double quotes with everything that does
  not print escaped. \<open>is_print\<close> stands for \<open>unicode.IsPrint\<close> above the ASCII range.
\<close>

definition hex_digits :: "nat \<Rightarrow> nat \<Rightarrow> bytes" where
  "hex_digits w r = map (\<lambda>i. hex_digit (r div 16 ^ (w - 1 - i) mod 16)) [0..<w]"

definition IsPrint :: "(nat \<Rightarrow> bool) \<Rightarrow> nat \<Rightarrow> bool" where
  "IsPrint is_print r = (if r < 128 then 32 \<le> r \<and> r < 127 else is_print r)"

text \<open>One rune and the bytes it was decoded from.\<close>

definition escape_rune :: "(nat \<Rightarrow> bool) \<Rightarrow> nat \<Rightarrow> bytes \<Rightarrow> bytes" where
  "escape_rune is_print r enc =
     (if length enc = 1 \<and> r = rune_error then CHR 0x5C # CHR ''x'' # hex_digits 2 (of_char (hd enc))
      else if r = 34 \<or> r = 92 then [CHR 0x5C, char_of r]
      else if IsPrint is_print r then enc
      else if r = 7 then [CHR 0x5C, CHR ''a'']
      else if r = 8 then [CHR 0x5C, CHR ''b'']
      else if r = 12 then [CHR 0x5C, CHR ''f'']
      else if r = 10 then [CHR 0x5C, CHR ''n'']
      else if r = 13 then [CHR 0x5C, CHR ''r'']
      else if r = 9 then [CHR 0x5C, CHR ''t'']
      else if r = 11 then [CHR 0x5C, CHR ''v'']
      else if r < 32 \<or> r = 127 then CHR 0x5C # CHR ''x'' # hex_digits 2 r
      else if r < 0x10000 then CHR 0x5C # CHR ''u'' # hex_digits 4 r
      else CHR 0x5C # CHR ''U'' # hex_digits 8 r)"

fun quote_loop :: "(nat \<Rightarrow> bool) \<Rightarrow> bytes \<Rightarrow> bytes" where
  "quote_loop is_print [] = []"
| "quote_loop is_print (c # s) =
     (case decode_rune (c # s) of
        (r, w) \<Rightarrow> escape_rune is_print r (take w (c # s)) @ quote_loop is_print (drop (w - 1) s))"

definition Quote :: "(nat \<Rightarrow> bool) \<Rightarrow> bytes \<Rightarrow> bytes" where
  "Quote is_print s = [CHR 0x22] @ quote_loop is_print s @ [CHR 0x22]"

declare quote_loop.simps(2) [simp del]

lemma hex_digit_graphic: "n < 16 \<Longrightarrow> 48 \<le> (of_char (hex_digit n) :: nat) \<and> (of_char (hex_digit n) :: nat) < 103"
  by (auto simp: hex_digit_def)

lemma hex_digits_graphic: "c \<in> set (hex_digits w r) \<Longrightarrow> 48 \<le> (of_char c :: nat) \<and> (of_char c :: nat) < 103"
  using hex_digit_graphic by (auto simp: hex_digits_def)

text \<open>A rune of more than one byte has none of the ASCII range.\<close>

lemma is_cont_high: "is_cont c \<Longrightarrow> 128 \<le> (of_char c :: nat)"
  by (simp add: is_cont_def)

lemma decode_rune_high:
  assumes "decode_rune (c # s) = (r, w)" and "w \<noteq> 1" and "d \<in> set (take w (c # s))"
  shows "128 \<le> (of_char d :: nat)"
proof -
  have "take 2 (c # s) = [c, s ! 0]" if "1 \<le> length s"
    using that by (cases s) auto
  moreover have "take 3 (c # s) = [c, s ! 0, s ! 1]" if "2 \<le> length s"
    using that by (cases s; cases "tl s") auto
  moreover have "take 4 (c # s) = [c, s ! 0, s ! 1, s ! 2]" if "3 \<le> length s"
    using that by (cases s; cases "tl s"; cases "tl (tl s)") auto
  ultimately show ?thesis
    using assms is_cont_high by (auto simp: decode_rune.simps decode_multi_def split: if_splits)
qed

lemma decode_rune_width: "snd (decode_rune (c # s)) \<noteq> 0"
  by (simp add: decode_rune.simps decode_multi_def)

lemma decode_rune_one:
  assumes "decode_rune (c # s) = (r, 1)"
  shows "r = of_char c \<and> (of_char c :: nat) < 128 \<or> r = rune_error"
  using assms by (auto simp: decode_rune.simps decode_multi_def split: if_splits)

text \<open>What a quoted string never contains: a control character, hence a line break.\<close>

lemma escape_rune_set:
  assumes "d \<in> set (escape_rune is_print r enc)"
  shows "32 \<le> (of_char d :: nat) \<or> d \<in> set enc \<and> IsPrint is_print r \<and> \<not> (length enc = 1 \<and> r = rune_error)"
proof -
  have hex: "32 \<le> (of_char e :: nat)" if "e \<in> set (hex_digits w n)" for e w n
    using hex_digits_graphic [OF that] by simp
  show ?thesis
    using assms unfolding escape_rune_def by (simp split: if_split_asm) (auto dest!: hex)
qed

lemma escape_no_control:
  assumes "decode_rune (c # s) = (r, w)" and "d \<in> set (escape_rune is_print r (take w (c # s)))"
  shows "32 \<le> (of_char d :: nat)"
proof (cases "w = 1")
  case True
  then have "r = of_char c \<and> (of_char c :: nat) < 128 \<or> r = rune_error" using decode_rune_one assms(1) by simp
  then show ?thesis using escape_rune_set [OF assms(2)] True by (auto simp: IsPrint_def)
next
  case False
  then show ?thesis using escape_rune_set [OF assms(2)] decode_rune_high [OF assms(1)] by fastforce
qed

lemma quote_no_control: "d \<in> set (quote_loop is_print s) \<Longrightarrow> 32 \<le> (of_char d :: nat)"
proof (induction is_print s rule: quote_loop.induct)
  case (2 is_print c s)
  obtain r w where rw: "decode_rune (c # s) = (r, w)" by fastforce
  then show ?case
    using 2 escape_no_control [OF rw] by (auto simp: quote_loop.simps)
qed simp

lemma Quote_no_control: "d \<in> set (Quote is_print s) \<Longrightarrow> 32 \<le> (of_char d :: nat)"
  using quote_no_control by (auto simp: Quote_def)

text \<open>Reading a quoted string: does a text hold the closing quote of the label it continues?\<close>

fun closes :: "bytes \<Rightarrow> bool" where
  "closes [] \<longleftrightarrow> False"
| "closes [c] \<longleftrightarrow> c = CHR 0x22"
| "closes (c # d # s) \<longleftrightarrow> (if c = CHR 0x5C then closes s else c = CHR 0x22 \<or> closes (d # s))"

lemma closes_plain: "c \<noteq> CHR 0x22 \<Longrightarrow> c \<noteq> CHR 0x5C \<Longrightarrow> closes (c # s) = closes s"
  by (cases s) auto

lemma closes_plains:
  "CHR 0x22 \<notin> set xs \<Longrightarrow> CHR 0x5C \<notin> set xs \<Longrightarrow> closes (xs @ s) = closes s"
  by (induction xs) (use closes_plain in \<open>auto simp: eq_commute\<close>)

lemma closes_high: "\<forall>c \<in> set xs. 93 \<le> (of_char c :: nat) \<Longrightarrow> closes (xs @ s) = closes s"
  by (rule closes_plains) force+

lemma hex_digit_plain: "n < 16 \<Longrightarrow> hex_digit n \<noteq> CHR 0x22 \<and> hex_digit n \<noteq> CHR 0x5C"
proof
  assume n: "n < 16"
  have "(of_char (hex_digit n) :: nat) \<noteq> of_char (CHR 0x22)" "(of_char (hex_digit n) :: nat) \<noteq> of_char (CHR 0x5C)"
    using n by (simp_all add: hex_digit_def)
  then show "hex_digit n \<noteq> CHR 0x22" "hex_digit n \<noteq> CHR 0x5C" by metis+
qed

lemma closes_hex: "closes (hex_digits w r @ s) = closes s"
proof -
  have "d \<noteq> CHR 0x22 \<and> d \<noteq> CHR 0x5C" if "d \<in> set (hex_digits w r)" for d
    using that hex_digit_plain by (auto simp: hex_digits_def)
  then show ?thesis by (intro closes_plains) blast+
qed

lemma closes_escape:
  assumes "decode_rune (c # s) = (r, w)"
  shows "closes (escape_rune is_print r (take w (c # s)) @ t) = closes t"
proof -
  have enc: "closes (take w (c # s) @ t) = closes t" if "r \<noteq> 34" "r \<noteq> 92" "\<not> (w = 1 \<and> r = rune_error)"
  proof (cases "w = 1")
    case True
    then have "r = of_char c" using decode_rune_one assms that(3) by blast
    with that(1,2) True show ?thesis by (auto intro!: closes_plain)
  next
    case False
    then show ?thesis using decode_rune_high [OF assms] by (intro closes_high) fastforce
  qed
  have "w = 1 \<longleftrightarrow> length (take w (c # s)) = 1"
    using assms by (auto simp: decode_rune.simps decode_multi_def split: if_splits)
  then show ?thesis
    using enc by (auto simp: escape_rune_def closes_hex closes_plain)
qed

lemma quote_stays_open: "\<not> closes (quote_loop is_print s)"
proof (induction is_print s rule: quote_loop.induct)
  case (2 is_print c s)
  obtain r w where rw: "decode_rune (c # s) = (r, w)" by fastforce
  then show ?case using 2 closes_escape [OF rw] by (simp add: quote_loop.simps)
qed simp

end
