(* ===== verification/Metrics.thy ===== *)
theory Metrics
  imports GoQuote Hub
begin

text \<open>
  The metrics page: \<open>render\<close> of \<open>examples/hub/observe.go\<close> and the handler \<open>getMetrics\<close> of
  \<open>handlers.go\<close>. \<open>sync.Map\<close> visits its entries in no fixed order: \<open>failures\<close> and
  \<open>checks\<close> are the keys in the order of the two walks.
\<close>

text \<open>\<open>%d\<close> of a counter.\<close>

definition fmt_count :: "64 word \<Rightarrow> bytes" where
  "fmt_count v = append_int (sint v) 1"

definition label_line :: "(nat \<Rightarrow> bool) \<Rightarrow> bytes \<Rightarrow> (bytes \<rightharpoonup> 64 word) \<Rightarrow> bytes \<Rightarrow> bytes" where
  "label_line is_print name m k =
     (case m k of
        None \<Rightarrow> []
      | Some v \<Rightarrow> name @ Quote is_print k @ ''} '' @ fmt_count v @ [nl])"

definition render :: "(nat \<Rightarrow> bool) \<Rightarrow> bytes list \<Rightarrow> bytes list \<Rightarrow> counters \<Rightarrow> bytes" where
  "render is_print failures checks c =
     ''# TYPE verify_attempts_total counter'' @ [nl]
     @ ''verify_attempts_total '' @ fmt_count (attemptsTotal c) @ [nl]
     @ concat (map (label_line is_print ''verify_failures_total{reason='' (failuresTotal c)) failures)
     @ concat (map (label_line is_print ''checks_failed_total{check='' (checksTotal c)) checks)
     @ ''# TYPE nonces_issued_total counter'' @ [nl]
     @ ''nonces_issued_total '' @ fmt_count (noncesIssued c) @ [nl]
     @ ''# TYPE nonces_burned_total counter'' @ [nl]
     @ ''nonces_burned_total '' @ fmt_count (nonceBurned c) @ [nl]
     @ ''# TYPE tokens_issued_total counter'' @ [nl]
     @ ''tokens_issued_total '' @ fmt_count (tokensIssued c) @ [nl]"

definition getMetrics :: "HubLib \<Rightarrow> bytes list \<Rightarrow> bytes list \<Rightarrow> hub \<Rightarrow> bytes" where
  "getMetrics H failures checks h = render (hlIsPrint H) failures checks (rcCounters (hRecorder h))"

section \<open>The lines of the page\<close>

text \<open>A sample, by metric name, label and count, and its line.\<close>

type_synonym sample = "bytes \<times> bytes option \<times> int"

fun sample_line :: "(nat \<Rightarrow> bool) \<Rightarrow> sample \<Rightarrow> bytes" where
  "sample_line is_print (name, None, v) = name @ append_int v 1"
| "sample_line is_print (name, Some k, v) = name @ Quote is_print k @ ''} '' @ append_int v 1"

definition labelled :: "bytes \<Rightarrow> (bytes \<rightharpoonup> 64 word) \<Rightarrow> bytes list \<Rightarrow> sample list" where
  "labelled name m ks = map (\<lambda>k. (name, Some k, sint (the (m k)))) ks"

definition page_lines :: "(nat \<Rightarrow> bool) \<Rightarrow> bytes list \<Rightarrow> bytes list \<Rightarrow> counters \<Rightarrow> bytes list" where
  "page_lines is_print failures checks c =
     [''# TYPE verify_attempts_total counter'',
      sample_line is_print (''verify_attempts_total '', None, sint (attemptsTotal c))]
     @ map (sample_line is_print) (labelled ''verify_failures_total{reason='' (failuresTotal c) failures)
     @ map (sample_line is_print) (labelled ''checks_failed_total{check='' (checksTotal c) checks)
     @ [''# TYPE nonces_issued_total counter'',
        sample_line is_print (''nonces_issued_total '', None, sint (noncesIssued c)),
        ''# TYPE nonces_burned_total counter'',
        sample_line is_print (''nonces_burned_total '', None, sint (nonceBurned c)),
        ''# TYPE tokens_issued_total counter'',
        sample_line is_print (''tokens_issued_total '', None, sint (tokensIssued c))]"

lemma label_lines:
  "set ks \<subseteq> dom m \<Longrightarrow>
     concat (map (label_line is_print name m) ks) = unlines (map (sample_line is_print) (labelled name m ks))"
  by (induction ks) (auto simp: label_line_def labelled_def fmt_count_def)

lemma render_page:
  assumes "set failures \<subseteq> dom (failuresTotal c)" and "set checks \<subseteq> dom (checksTotal c)"
  shows "render is_print failures checks c = unlines (page_lines is_print failures checks c)"
  unfolding render_def page_lines_def label_lines [OF assms(1)] label_lines [OF assms(2)]
  by (simp add: fmt_count_def)

lemma nl_not_quoted: "nl \<notin> set (Quote is_print k)"
  using Quote_no_control [of nl is_print k] by auto

lemma nl_not_int: "nl \<notin> set (append_int v 1)"
  using append_int_chars [where x = v and w = 1 and c = nl] by (auto simp: stamp_char_def is_digit_def)

lemma sample_line_no_break: "nl \<notin> set name \<Longrightarrow> nl \<notin> set (sample_line is_print (name, l, v))"
  using nl_not_quoted nl_not_int by (cases l) auto

lemma page_no_break: "l \<in> set (page_lines is_print failures checks c) \<Longrightarrow> nl \<notin> set l"
  using sample_line_no_break by (auto simp: page_lines_def labelled_def simp del: sample_line.simps)

lemma split_unlines_all: "\<forall>l \<in> set ls. nl \<notin> set l \<Longrightarrow> split_byte nl (unlines ls) = ls @ [[]]"
  by (induction ls) (simp_all add: split_byte_append)

section \<open>Properties\<close>

text \<open>No text an error carries can forge a line of the metrics page or end its label: whatever the
  labels hold, the page splits at its line breaks into the two or one lines of each counter,
  in the order of the walks, and inside the quotes of a label no quote closes it.\<close>

theorem metrics_page_lines:
  assumes "set failures \<subseteq> dom (failuresTotal c)" and "set checks \<subseteq> dom (checksTotal c)"
  shows "split_byte nl (render is_print failures checks c) = page_lines is_print failures checks c @ [[]]
     \<and> length (page_lines is_print failures checks c) = 8 + length failures + length checks
     \<and> (\<forall>k. \<not> closes (quote_loop is_print k))"
proof (intro conjI allI)
  show "split_byte nl (render is_print failures checks c) = page_lines is_print failures checks c @ [[]]"
    unfolding render_page [OF assms] by (rule split_unlines_all) (use page_no_break in blast)
  show "length (page_lines is_print failures checks c) = 8 + length failures + length checks"
    by (simp add: page_lines_def labelled_def)
qed (rule quote_stays_open)

end
