(* ===== verification/Server.thy ===== *)
theory Server
  imports HubSafety Metrics
begin

text \<open>
  The rest of \<open>examples/hub/main.go\<close>: the hub built from the configuration, and the router,
  which puts the JWT middleware, with a key cache of its own each, in front of linking and of
  \<open>GET /me\<close>, and the limit on request bodies. The static files are left out.
\<close>

record server =
  svConfig :: Config
  svHub :: hub
  svLinkKeys :: jwksCache
  svMeKeys :: jwksCache

text \<open>\<open>key\<close> is what the generation of the issuer's key gives; without one the process exits
  (\<open>None\<close>).\<close>

definition new_server ::
  "sentinel list \<Rightarrow> ed_verify \<Rightarrow> SiweLib \<Rightarrow> DemoLib \<Rightarrow> bytes option \<Rightarrow> environ
     \<Rightarrow> gerror + PrivateKey \<Rightarrow> server option" where
  "new_server pick ed L D dotenv environ key =
     (let cfg = fst (loadConfig dotenv environ) in
      case newIssuer key (cfIssuerURL cfg) (cfAudience cfg) of
        Inl _ \<Rightarrow> None
      | Inr issuer \<Rightarrow>
          let demoWallets = (if cfContractWalletDemo cfg then Some newDemoContractWallets else None);
              hub = \<lparr>hDomain = cfDomain cfg,
                hRegistry = (\<lambda>d. both_verifiers no_panics pick ed L (map_option (demo_ClientFor D) d)),
                hNonces = newNonceStore, hIds = newIdentityStore, hIssuer = issuer,
                hRecorder = newRecorder, hStatement = cfStatement cfg,
                hSolanaChain = cfSolanaChain cfg, hSessionTTLMin = cfSessionTTLMin cfg,
                hContractWalletDemo = cfContractWalletDemo cfg, hDemoWallets = demoWallets\<rparr>
          in Some \<lparr>svConfig = cfg, svHub = hub, svLinkKeys = newJWKSCache (cfJWKSURL cfg),
                svMeKeys = newJWKSCache (cfJWKSURL cfg)\<rparr>)"

datatype http =
    GetNonceR env
  | PostVerifyR env request
  | PostLinkR env request bytes instant fetch
  | GetConfigR
  | PostWalletR request
  | GetJWKSR
  | MetricsR "bytes list" "bytes list"
  | HealthzR
  | GetMeR bytes instant fetch

datatype http_reply =
    HubReply reply
  | AbortReply nat bytes
  | MeReply nat me
  | TextReply bytes
  | NoRoute

definition on_hub :: "(hub \<Rightarrow> reply \<times> hub) \<Rightarrow> server \<Rightarrow> http_reply \<times> server" where
  "on_hub f s = (case f (svHub s) of (r, h) \<Rightarrow> (HubReply r, s\<lparr>svHub := h\<rparr>))"

definition with_jwt ::
  "JwtParser \<Rightarrow> server \<Rightarrow> instant \<Rightarrow> fetch \<Rightarrow> bytes \<Rightarrow> jwksCache \<Rightarrow> auth \<times> jwksCache" where
  "with_jwt P s = JWTAuth P (cfIssuerURL (svConfig s)) (cfAudience (svConfig s))"

fun serve :: "HubLib \<Rightarrow> JwtParser \<Rightarrow> http \<Rightarrow> server \<Rightarrow> http_reply \<times> server" where
  "serve H P (GetNonceR en) s = on_hub (getNonce en) s"
| "serve H P (PostVerifyR en rq) s = on_hub (postVerify H en rq) s"
| "serve H P (PostLinkR en rq header now fetch) s =
     (case with_jwt P s now fetch header (svLinkKeys s) of
        (Abort st msg, keys) \<Rightarrow> (AbortReply st msg, s\<lparr>svLinkKeys := keys\<rparr>)
      | (Next a, keys) \<Rightarrow>
          on_hub (postLink H en (rq\<lparr>rqIdentity := Some (acIdentityID a)\<rparr>)) (s\<lparr>svLinkKeys := keys\<rparr>))"
| "serve H P GetConfigR s = on_hub getConfig s"
| "serve H P (PostWalletR rq) s =
     (if cfContractWalletDemo (svConfig s) then on_hub (postRegisterContractWallet H rq) s
      else (NoRoute, s))"
| "serve H P GetJWKSR s = on_hub getJWKS s"
| "serve H P (MetricsR failures checks) s = (TextReply (getMetrics H failures checks (svHub s)), s)"
| "serve H P HealthzR s = (TextReply ''ok'', s)"
| "serve H P (GetMeR header now fetch) s =
     (case with_jwt P s now fetch header (svMeKeys s) of
        (Abort st msg, keys) \<Rightarrow> (AbortReply st msg, s\<lparr>svMeKeys := keys\<rparr>)
      | (Next a, keys) \<Rightarrow>
          (case GetMe (Some a) of (st, b) \<Rightarrow> (MeReply st b, s\<lparr>svMeKeys := keys\<rparr>)))"

section \<open>The limit on request bodies\<close>

text \<open>A reader: the bytes it yields, and whether an error follows them instead of the end. The
  JSON decoder takes one value from a reader.\<close>

type_synonym reader = "bytes \<times> bool"

record JsonLib =
  jbVerify :: "reader \<Rightarrow> verifyRequest option"
  jbOwner :: "reader \<Rightarrow> bytes option"

definition maxBodyBytes :: nat where
  "maxBodyBytes = 8 * 1024"

definition limitBody :: "nat \<Rightarrow> reader \<Rightarrow> reader" where
  "limitBody n r = (if length (fst r) \<le> n then r else (take n (fst r), True))"

definition bind_body :: "JsonLib \<Rightarrow> reader \<Rightarrow> request \<Rightarrow> request" where
  "bind_body J r rq = rq\<lparr>rqBody := jbVerify J r, rqOwner := jbOwner J r\<rparr>"

fun read_body :: "JsonLib \<Rightarrow> reader \<Rightarrow> http \<Rightarrow> http" where
  "read_body J r (PostVerifyR en rq) = PostVerifyR en (bind_body J r rq)"
| "read_body J r (PostLinkR en rq header now fetch) = PostLinkR en (bind_body J r rq) header now fetch"
| "read_body J r (PostWalletR rq) = PostWalletR (bind_body J r rq)"
| "read_body J r req = req"

definition handle :: "HubLib \<Rightarrow> JwtParser \<Rightarrow> JsonLib \<Rightarrow> bytes \<Rightarrow> http \<Rightarrow> server \<Rightarrow> http_reply \<times> server" where
  "handle H P J raw req = serve H P (read_body J (limitBody maxBodyBytes (raw, False)) req)"

lemma limitBody_bound: "length (fst (limitBody n r)) \<le> n"
  by (simp add: limitBody_def)

lemma limitBody_short: "length raw \<le> n \<Longrightarrow> limitBody n (raw, False) = (raw, False)"
  by (simp add: limitBody_def)

text \<open>Nothing past the limit reaches a handler: two bodies that are both too long and agree on
  their first 8 KiB are answered alike.\<close>

lemma handle_reads_prefix:
  assumes "maxBodyBytes < length raw" and "maxBodyBytes < length raw'"
    and "take maxBodyBytes raw = take maxBodyBytes raw'"
  shows "handle H P J raw req s = handle H P J raw' req s"
  using assms by (simp add: handle_def limitBody_def)

text \<open>A body that is cut off before its JSON value is complete is answered as malformed, by the
  handlers that read one, before anything else.\<close>

lemma handle_too_long:
  assumes "maxBodyBytes < length raw" and "jbVerify J (take maxBodyBytes raw, True) = None"
  shows "handle H P J raw (PostVerifyR en rq) s =
     (HubReply (problem_reply KeepCookie (Sentinel ErrMalformed) rq), s)"
proof -
  have "\<not> length raw \<le> maxBodyBytes" using assms(1) by simp
  then show ?thesis
    using assms(2) by (simp add: handle_def limitBody_def bind_body_def on_hub_def postVerify_def
        read_request_def problem_reply_def)
qed

section \<open>The server that main builds\<close>

lemma new_server_hub:
  assumes "new_server pick ed L D dotenv environ key = Some s"
  shows "registry_of pick ed L (map_option (demo_ClientFor D) (hDemoWallets (svHub s))) (svHub s)"
    and "hNonces (svHub s) = newNonceStore"
    and "hDomain (svHub s) = cfDomain (svConfig s)" and "hDomain (svHub s) \<noteq> []"
    and "miIssuerURL (hIssuer (svHub s)) = cfIssuerURL (svConfig s)"
    and "miAudience (hIssuer (svHub s)) = cfAudience (svConfig s)"
    and "hlDemo H = D \<Longrightarrow> hub_wf H (svHub s)"
proof -
  have dom: "cfDomain (fst (loadConfig dotenv environ)) \<noteq> []" for dotenv environ
    by (simp add: loadConfig_def Let_def buildDomain_def env_def)
  show "registry_of pick ed L (map_option (demo_ClientFor D) (hDemoWallets (svHub s))) (svHub s)"
    "hNonces (svHub s) = newNonceStore" "hDomain (svHub s) = cfDomain (svConfig s)" "hDomain (svHub s) \<noteq> []"
    "miIssuerURL (hIssuer (svHub s)) = cfIssuerURL (svConfig s)"
    "miAudience (hIssuer (svHub s)) = cfAudience (svConfig s)"
    "hlDemo H = D \<Longrightarrow> hub_wf H (svHub s)"
    using assms dom
    by (auto simp: new_server_def newIssuer_def Let_def registry_of_def hub_wf_def ids_wf_new
        buffer_ok_def newRecorder_def newDemoContractWallets_def split: sum.splits if_splits)
qed

text \<open>Where the token of a session comes from.\<close>

lemma sign_in_token:
  assumes "snd (fst (sign_in H en i checks h)) = VerifyBody v"
  shows "\<exists>ws. Wallets (vsIdentityID v) (hIds (snd (sign_in H en i checks h))) = Ok ws
     \<and> issuer_Issue (hlJwt H) (enNow en) (hIssuer h) (vsIdentityID v) ws = Inr (vsToken v)"
proof -
  from assms [unfolded sign_in_iff] obtain created ids ws where
    *: "UpsertByWallet (enIdRnd en) (idAccount i) (hIds h) = (Ok (vsIdentityID v, created), ids)"
    "Wallets (vsIdentityID v) ids = Ok ws"
    "issuer_Issue (hlJwt H) (enNow en) (hIssuer h) (vsIdentityID v) ws = Inr (vsToken v)" by blast
  then have "hIds (snd (sign_in H en i checks h)) = ids" by (simp add: sign_in_def Let_def)
  with * show ?thesis by auto
qed

lemma postVerify_token:
  assumes ok: "snd (fst (postVerify H en rq h)) = VerifyBody v"
  shows "\<exists>ws. Wallets (vsIdentityID v) (hIds (snd (postVerify H en rq h))) = Ok ws
     \<and> issuer_Issue (hlJwt H) (enNow en) (hIssuer h) (vsIdentityID v) ws = Inr (vsToken v)"
proof -
  obtain n where n: "presents rq = Some n" "fst (Burn (enTime en 0) n (hNonces h)) = Ok ()"
    using postVerify_accepted [of H en rq h] ok by auto
  then obtain msg sig c where rd: "read_request rq = Ok (msg, sig, c)" "rqCookie rq = n" "rqCookie rq \<noteq> []"
    by (auto simp: presents_def split: res.splits if_splits)
  let ?h1 = "burned_hub en n h"
  have pv: "postVerify H en rq h = verify_burned H en rq (msg, sig, c) ?h1"
    using postVerify_burned [OF rd(1,3)] n rd(2) by simp
  have iss: "hIssuer h2 = hIssuer h" if "hub_verify H en c msg sig n aid ?h1 = (r, h2)" for aid r h2
    using hub_verify_keeps [OF that] by (simp add: same_settings_def burned_hub_def)
  from ok pv obtain aid i h2 where h2: "hub_verify H en c msg sig n aid ?h1 = (Ok i, h2)"
    and eq: "postVerify H en rq h = sign_in H en i (fst (DrainChecks aid (hRecorder h2)))
       (h2\<lparr>hRecorder := snd (DrainChecks aid (hRecorder h2))\<rparr>)"
    unfolding verify_burned_def rd(2) Let_def
    by (auto split: res.splits prod.splits)
  show ?thesis using sign_in_token [of H en i _ _ v] ok iss [OF h2] unfolding eq by fastforce
qed

section \<open>Properties\<close>


definition sample_server :: server where
  "sample_server =
     \<lparr>svConfig = (fst (loadConfig None Map.empty))\<lparr>cfIssuerURL := ''https://hub'', cfAudience := ''demo''\<rparr>,
      svHub = sample_hub, svLinkKeys = newJWKSCache ''u'', svMeKeys = newJWKSCache ''u''\<rparr>"


end
