(* ===== verification/Contracts.thy ===== *)
theory Contracts
  imports Server
begin

text \<open>
  \<open>contracts/contracts.go\<close>: the interface of the verifier registry and those of the
  infrastructure the hub plugs in, as records of operations on a state, the promises their
  comments make, and the implementations of them. The other declarations of the file, types
  and the interface of a verifier, are those of the package \<open>siwx\<close>; \<open>SignatureScheme\<close> is
  declared and not used.
\<close>

text \<open>The errors of the contract; the package \<open>siwx\<close> declares three more.\<close>

definition frozen_sentinels :: "sentinel list" where
  "frozen_sentinels =
     [ErrMalformed, ErrBadSignature, ErrExpired, ErrNotYetValid, ErrDomainMismatch,
      ErrNonceMismatch, ErrUnsupportedNamespace]"

lemma siwx_sentinels_extend:
  "siwx_sentinels = frozen_sentinels @ [ErrContractValidationFailed, ErrContractWalletUnsupported, ErrRPC]"
  by (simp add: siwx_sentinels_def frozen_sentinels_def)

record 's NonceStoreI =
  niIssue :: "(nat \<Rightarrow> instant) \<Rightarrow> bytes option \<Rightarrow> int \<Rightarrow> 's \<Rightarrow> bytes res \<times> 's"
  niBurn :: "instant \<Rightarrow> bytes \<Rightarrow> 's \<Rightarrow> unit res \<times> 's"

record 's IdentityStoreI =
  iiUpsertByWallet :: "bytes option \<Rightarrow> CAIP10 \<Rightarrow> 's \<Rightarrow> (bytes \<times> bool) res \<times> 's"
  iiLinkWallet :: "bytes \<Rightarrow> CAIP10 \<Rightarrow> 's \<Rightarrow> unit res \<times> 's"
  iiWallets :: "bytes \<Rightarrow> 's \<Rightarrow> CAIP10 list res"

record TokenIssuerI =
  tiIssue :: "instant \<Rightarrow> bytes \<Rightarrow> CAIP10 list \<Rightarrow> gerror + bytes"
  tiJWKS :: "jwk list"

record 'r VerifierRegistryI =
  rgRegister :: "'r \<Rightarrow> Verifier \<Rightarrow> 'r"
  rgVerify :: "clock \<Rightarrow> bytes option \<Rightarrow> 'r \<Rightarrow> CAIP2 \<Rightarrow> bytes \<Rightarrow> bytes \<Rightarrow> VerifyOpts \<Rightarrow> Identity run"

text \<open>An observer is told of the four kinds of events by a method each.\<close>

record 'o ObserverI =
  oiOnVerifyAttempt :: "bytes \<Rightarrow> bytes \<Rightarrow> bytes \<Rightarrow> bytes \<Rightarrow> 'o \<Rightarrow> 'o"
  oiOnParseResult :: "bytes \<Rightarrow> bool \<Rightarrow> gerror option \<Rightarrow> nat \<Rightarrow> 'o \<Rightarrow> 'o"
  oiOnCheckResult :: "bytes \<Rightarrow> CheckName \<Rightarrow> bool \<Rightarrow> 'o \<Rightarrow> 'o"
  oiOnVerifyResult :: "bytes \<Rightarrow> bool \<Rightarrow> gerror option \<Rightarrow> bytes \<Rightarrow> 'o \<Rightarrow> 'o"

fun observe :: "'o ObserverI \<Rightarrow> 'o \<Rightarrow> event \<Rightarrow> 'o" where
  "observe Ob s (VerifyAttempt i ns d a) = oiOnVerifyAttempt Ob i ns d a s"
| "observe Ob s (ParseResult i ok e n) = oiOnParseResult Ob i ok e n s"
| "observe Ob s (CheckResult i c ok) = oiOnCheckResult Ob i c ok s"
| "observe Ob s (VerifyResult i ok e ns) = oiOnVerifyResult Ob i ok e ns s"

record SignatureSchemeI =
  ssName :: bytes
  ssVerify :: "bytes \<Rightarrow> bytes \<Rightarrow> bytes \<Rightarrow> bool"

definition hubRecorder :: "(gerror \<Rightarrow> bytes) \<Rightarrow> recorder ObserverI" where
  "hubRecorder etext =
     \<lparr>oiOnVerifyAttempt = (\<lambda>i ns d a r. rec_event etext r (VerifyAttempt i ns d a)),
      oiOnParseResult = (\<lambda>i ok e n r. rec_event etext r (ParseResult i ok e n)),
      oiOnCheckResult = (\<lambda>i c ok r. rec_event etext r (CheckResult i c ok)),
      oiOnVerifyResult = (\<lambda>i ok e ns r. rec_event etext r (VerifyResult i ok e ns))\<rparr>"

definition memRegistry :: "panics \<Rightarrow> registry VerifierRegistryI" where
  "memRegistry pan = \<lparr>rgRegister = Register, rgVerify = Registry_Verify pan\<rparr>"

definition memNonceStore :: "nonce_store NonceStoreI" where
  "memNonceStore = \<lparr>niIssue = Issue, niBurn = Burn\<rparr>"

definition memIdentityStore :: "identity_store IdentityStoreI" where
  "memIdentityStore =
     \<lparr>iiUpsertByWallet = UpsertByWallet, iiLinkWallet = LinkWallet, iiWallets = Wallets\<rparr>"

definition mockTokenIssuer :: "JwtLib \<Rightarrow> mockIssuer \<Rightarrow> TokenIssuerI" where
  "mockTokenIssuer J m = \<lparr>tiIssue = (\<lambda>now. issuer_Issue J now m), tiJWKS = issuer_JWKS m\<rparr>"

section \<open>The promises\<close>

text \<open>"Burn returns ErrNonceMismatch if the nonce is unknown, expired, or already burned";
  \<open>held\<close> is the deadline of a nonce the store knows.\<close>

definition nonce_promise :: "('s \<Rightarrow> bytes \<Rightarrow> instant option) \<Rightarrow> 's NonceStoreI \<Rightarrow> bool" where
  "nonce_promise held N \<longleftrightarrow>
     (\<forall>s now n. fst (niBurn N now n s) =
        (if \<exists>d. held s n = Some d \<and> now \<le> d then Ok () else Err (Sentinel ErrNonceMismatch))
        \<and> held (snd (niBurn N now n s)) n = None)
     \<and> (\<forall>s s' clock rnd ttl n. niIssue N clock rnd ttl s = (Ok n, s') \<longrightarrow> held s' n = Some (clock 1 + ttl))"

text \<open>"First wallet creates; later wallets link": \<open>owner\<close> is the identity of a wallet.\<close>

definition identity_promise :: "('s \<Rightarrow> bytes \<Rightarrow> bytes option) \<Rightarrow> 's IdentityStoreI \<Rightarrow> bool" where
  "identity_promise owner I \<longleftrightarrow>
     (\<forall>s s' rnd w i created. iiUpsertByWallet I rnd w s = (Ok (i, created), s') \<longrightarrow>
        owner s' (CAIP10_String w) = Some i \<and> (created \<longleftrightarrow> owner s (CAIP10_String w) = None)
        \<and> (\<not> created \<longrightarrow> s' = s))"

text \<open>"Verify routes to the namespace verifier; ErrUnsupportedNamespace if none": \<open>registered\<close> is
  the verifier of a namespace. The verifier is asked for the same domain and nonce.\<close>

definition registry_promise ::
  "panics \<Rightarrow> ('r \<Rightarrow> bytes \<Rightarrow> Verifier option) \<Rightarrow> 'r VerifierRegistryI \<Rightarrow> bool" where
  "registry_promise pan registered R \<longleftrightarrow>
     (\<forall>r v ns. registered (rgRegister R r v) ns = (if ns = vNamespace v then Some v else registered r ns))
     \<and> (\<forall>r wall b c msg sig opts. harmless pan opts \<longrightarrow>
          (case registered r (cNamespace c) of
             None \<Rightarrow> \<exists>e. snd (rgVerify R wall (Some b) r c msg sig opts) = Err e \<and> errors_Is e ErrUnsupportedNamespace
           | Some v \<Rightarrow> verifier pan v \<longrightarrow>
               (\<exists>o'. voExpectedDomain o' = voExpectedDomain opts \<and> voExpectedNonce o' = voExpectedNonce opts
                  \<and> snd (rgVerify R wall (Some b) r c msg sig opts) = snd (vVerify v msg sig o'))))"

text \<open>"Implementations must be safe for concurrent use": what an observer holds of an attempt,
  \<open>view\<close>, is decided by the events of that attempt, whatever events of others are mixed in;
  \<open>fits\<close> says that the observer has room for the events.\<close>

definition observer_promise ::
  "('o \<Rightarrow> event list \<Rightarrow> bool) \<Rightarrow> (bytes \<Rightarrow> 'o \<Rightarrow> 'v) \<Rightarrow> 'o ObserverI \<Rightarrow> bool" where
  "observer_promise fits view Ob \<longleftrightarrow>
     (\<forall>s es i. fits s es \<longrightarrow>
        view i (foldl (observe Ob) s es) = view i (foldl (observe Ob) s (filter (\<lambda>e. attempt_id e = i) es)))"

definition buffer_fits :: "recorder \<Rightarrow> event list \<Rightarrow> bool" where
  "buffer_fits r es \<longleftrightarrow> finite (dom (rcChecks r)) \<and> card (dom (rcChecks r) \<union> attempt_id ` set es) < 1024"

lemma buffer_fits_filter:
  assumes "buffer_fits r es"
  shows "buffer_fits r (filter P es)"
proof -
  have fin: "finite (dom (rcChecks r) \<union> attempt_id ` set es)" using assms by (simp add: buffer_fits_def)
  have "card (dom (rcChecks r) \<union> attempt_id ` set (filter P es)) \<le> card (dom (rcChecks r) \<union> attempt_id ` set es)"
    by (rule card_mono [OF fin]) auto
  then show ?thesis using assms unfolding buffer_fits_def by (blast intro: le_less_trans)
qed

lemma observe_hubRecorder: "foldl (observe (hubRecorder etext)) r es = rec_events etext r es"
proof (induction es arbitrary: r)
  case (Cons e es)
  then show ?case by (cases e) (simp_all add: hubRecorder_def)
qed simp

lemma recorder_promise: "observer_promise buffer_fits buffered (hubRecorder etext)"
  unfolding observer_promise_def observe_hubRecorder
proof (intro allI impI)
  fix r es i assume f: "buffer_fits r es"
  show "buffered i (rec_events etext r es) = buffered i (rec_events etext r (filter (\<lambda>e. attempt_id e = i) es))"
    using rec_events_mixed [of r es i etext] f
      rec_events_mixed [of r "filter (\<lambda>e. attempt_id e = i) es" i etext] buffer_fits_filter [OF f, of "\<lambda>e. attempt_id e = i"]
    by (simp add: buffer_fits_def)
qed

lemma mem_registry_promise: "registry_promise pan rVerifiers (memRegistry pan)"
  unfolding registry_promise_def
proof (intro conjI allI impI)
  fix r v ns show "rVerifiers (rgRegister (memRegistry pan) r v) ns
      = (if ns = vNamespace v then Some v else rVerifiers r ns)"
    by (simp add: memRegistry_def Register_lookup)
next
  fix r wall b c msg sig opts assume h: "harmless pan opts"
  show "case rVerifiers r (cNamespace c) of
      None \<Rightarrow> \<exists>e. snd (rgVerify (memRegistry pan) wall (Some b) r c msg sig opts) = Err e \<and> errors_Is e ErrUnsupportedNamespace
    | Some v \<Rightarrow> verifier pan v \<longrightarrow>
        (\<exists>o'. voExpectedDomain o' = voExpectedDomain opts \<and> voExpectedNonce o' = voExpectedNonce opts
           \<and> snd (rgVerify (memRegistry pan) wall (Some b) r c msg sig opts) = snd (vVerify v msg sig o'))"
  proof (cases "rVerifiers r (cNamespace c)")
    case None
    then show ?thesis using Registry_unsupported [OF h] by (simp add: memRegistry_def unsupported_err_def)
  next
    case (Some v)
    have "snd (Registry_Verify pan wall (Some b) r c msg sig opts) = snd (vVerify v msg sig (prepared wall b opts))"
      if "verifier pan v" using verifier.dispatch [where V = v, OF that Some h] by simp
    then show ?thesis
      using Some prepared_simps by (auto simp: memRegistry_def intro!: exI [of _ "prepared wall b opts"])
  qed
qed

lemma mem_nonce_promise: "nonce_promise nsEntries memNonceStore"
  by (auto simp: nonce_promise_def memNonceStore_def Burn_removes Issue_def Burn_def After_def Let_def
      split: option.splits)

lemma mem_identity_promise: "identity_promise walletToID memIdentityStore"
  by (auto simp: identity_promise_def memIdentityStore_def UpsertByWallet_def Let_def split: option.splits)

lemma hex_digit_no_colon: "n < 16 \<Longrightarrow> hex_digit n \<noteq> CHR '':''"
proof
  assume "n < 16" and "hex_digit n = CHR '':''"
  then have "(of_char (hex_digit n) :: nat) = of_char (CHR '':'')" by simp
  then show False using \<open>n < 16\<close> by (simp add: hex_digit_def split: if_splits)
qed

lemma hex_no_colon: "CHR '':'' \<notin> set (hex_EncodeToString b)"
proof
  assume "CHR '':'' \<in> set (hex_EncodeToString b)"
  then obtain c where "CHR '':'' = hex_digit (of_char c div 16) \<or> CHR '':'' = hex_digit (of_char c mod 16)"
    by (auto simp: hex_EncodeToString_def)
  then show False using hex_digit_no_colon [OF nibbles(1)] hex_digit_no_colon [OF nibbles(2)] by metis
qed

lemma identity_not_caip: "ParseCAIP10 (''id_'' @ hex_EncodeToString b) \<noteq> Ok a"
  using hex_no_colon by (subst ParseCAIP10_absent(1)) simp_all

section \<open>Properties\<close>

text \<open>The hub's in-memory stores keep the promises of the frozen interfaces: burning tells a
  live nonce from every other and forgets it, issuing sets the deadline, and a wallet gets an
  identity at its first sign-in and keeps it, unchanged, at the next.\<close>

theorem stores_keep_promises:
  "nonce_promise nsEntries memNonceStore \<and> identity_promise walletToID memIdentityStore"
  using mem_nonce_promise mem_identity_promise by blast


text \<open>A caller that branches on the frozen errors alone misses some: a wrapped ERC-6492 signature
  for a chain without a deployless-capable client is refused with an error that is none of
  them.\<close>

theorem error_beyond_the_contract:
  assumes "hasERC6492Suffix sig" and "Option.bind (evm_client resolver m) ccCallContractCreation = None"
  shows "\<exists>e. verifySignature L resolver m sig = Err e \<and> (\<forall>s \<in> set frozen_sentinels. \<not> errors_Is e s)"
  using assms
  by (simp add: verifySignature_def Let_def evm_client_def [symmetric] evm_err_def frozen_sentinels_def)

theorem error_beyond_the_contract_witness:
  "\<exists>e. verifySignature sample_lib None sample_siwe erc6492Magic = Err e
     \<and> (\<forall>s \<in> set frozen_sentinels. \<not> errors_Is e s)"
  by (rule error_beyond_the_contract) (simp_all add: hasERC6492Suffix_def evm_client_def)

text \<open>The subject of a token is not the wallet the contract asks for: the frozen claim shape has
  the canonical wallet as a CAIP-10 id, and the hub signs an identity id, which never is one.\<close>

theorem token_subject_not_a_wallet:
  assumes "iiUpsertByWallet memIdentityStore (Some b) w s = (Ok (i, True), s')"
  shows "clSubject (issue_claims J now m i ws) = i \<and> (\<forall>a. ParseCAIP10 i \<noteq> Ok a)"
  using assms identity_not_caip
  by (auto simp: memIdentityStore_def UpsertByWallet_def Let_def split: option.splits)

theorem token_subject_not_a_wallet_witness:
  "\<forall>a. ParseCAIP10 (clSubject (issue_claims sample_jwt 0 sample_issuer ''id_61'' [])) \<noteq> Ok a"
proof -
  have "hex_EncodeToString ''a'' = ''61''" by code_simp
  then have "iiUpsertByWallet memIdentityStore (Some ''a'') (wallet_of ''A'') newIdentityStore
      = (Ok (''id_61'', True), snd (UpsertByWallet (Some ''a'') (wallet_of ''A'') newIdentityStore))"
    by (simp add: memIdentityStore_def UpsertByWallet_def Let_def newIdentityStore_def)
  from token_subject_not_a_wallet [OF this] show ?thesis by simp
qed

end
