(* ===== verification/HubSteps.thy ===== *)
theory HubSteps
  imports HubSafety
begin

text \<open>
  The handlers of \<open>examples/hub/handlers.go\<close> as the server really runs them: every request
  in a goroutine of its own, and the shared state touched only in sections that hold a lock.
  A task is a request with the point its handler has reached; one step of a task is one locked
  section together with the local work around it, and tasks interleave step by step.

  The increment of a counter is merged into the section before it: nothing reads the counters
  but the metrics page. The verification is one step although the EVM verifier asks the demo
  chain twice: \<open>two_chain_reads\<close> shows that its answer is that of one of the two moments. The
  observer's methods lock the recorder event by event, so the events are delivered one at a
  time.
\<close>

datatype pc =
    AtStart
  | AtVerify bytes bytes CAIP2 bytes
  | AtReport "event list" "Identity res" bytes
  | AtUpsert Identity "CheckInfo list"
  | AtWallets bytes "CheckInfo list"
  | AtToken bytes "CAIP10 list" "CheckInfo list"
  | Done reply

type_synonym task = "hub_call \<times> pc"

section \<open>The steps of a sign-in\<close>

definition verify_start :: "env \<Rightarrow> request \<Rightarrow> hub \<Rightarrow> hub \<times> pc" where
  "verify_start en rq h =
     (case read_request rq of
        Ok (msg, sig, c) \<Rightarrow>
          if rqCookie rq = [] then (h, Done (problem_reply KeepCookie (Sentinel ErrNonceMismatch) rq))
          else
            (case Burn (enTime en 0) (rqCookie rq) (hNonces h) of
               (Ok _, ns) \<Rightarrow>
                 (h\<lparr>hNonces := ns,
                    hRecorder := (hRecorder h)\<lparr>rcCounters := incNonceBurned (rcCounters (hRecorder h))\<rparr>\<rparr>,
                  case hub_newAttemptID (enAttemptRnd en) of
                    Ok aid \<Rightarrow> AtVerify msg sig c aid
                  | _ \<Rightarrow> Done (clearNonceCookie, Recovered))
             | (_, ns) \<Rightarrow>
                 (h\<lparr>hNonces := ns\<rparr>, Done (problem_reply clearNonceCookie (Sentinel ErrNonceMismatch) rq)))
      | _ \<Rightarrow> (h, Done (problem_reply KeepCookie (Sentinel ErrMalformed) rq)))"

definition run_registry :: "env \<Rightarrow> request \<Rightarrow> bytes \<Rightarrow> bytes \<Rightarrow> CAIP2 \<Rightarrow> bytes \<Rightarrow> hub \<Rightarrow> hub \<times> pc" where
  "run_registry en rq msg sig c aid h =
     (let run = Registry_Verify no_panics (enWall en) (enRegistryRnd en)
          (hRegistry h (hDemoWallets h)) c msg sig (hub_opts en (rqCookie rq) aid h)
      in (h, AtReport (events_of (fst run)) (snd run) aid))"

definition report_event :: "HubLib \<Rightarrow> event \<Rightarrow> hub \<Rightarrow> hub" where
  "report_event H e h = h\<lparr>hRecorder := rec_event (hlErrorText H) (hRecorder h) e\<rparr>"

definition verify_verdict :: "request \<Rightarrow> Identity res \<Rightarrow> bytes \<Rightarrow> hub \<Rightarrow> hub \<times> pc" where
  "verify_verdict rq res aid h =
     (if res = Panic then (h, Done (clearNonceCookie, Recovered))
      else
        (case DrainChecks aid (hRecorder h) of
           (checks, r) \<Rightarrow>
             (h\<lparr>hRecorder := r\<rparr>,
              case res of
                Ok i \<Rightarrow> AtUpsert i checks
              | Err verifyErr \<Rightarrow> Done (problem_reply clearNonceCookie verifyErr rq)
              | Panic \<Rightarrow> Done (clearNonceCookie, Recovered))))"

definition verify_upsert :: "env \<Rightarrow> Identity \<Rightarrow> CheckInfo list \<Rightarrow> hub \<Rightarrow> hub \<times> pc" where
  "verify_upsert en i checks h =
     (case UpsertByWallet (enIdRnd en) (idAccount i) (hIds h) of
        (Ok (identityID, _), ids) \<Rightarrow> (h\<lparr>hIds := ids\<rparr>, AtWallets identityID checks)
      | (_, ids) \<Rightarrow> (h\<lparr>hIds := ids\<rparr>, Done (clearNonceCookie, ErrorBody 500 ''identity upsert failed'')))"

definition verify_wallets :: "bytes \<Rightarrow> CheckInfo list \<Rightarrow> hub \<Rightarrow> hub \<times> pc" where
  "verify_wallets identityID checks h =
     (h, case Wallets identityID (hIds h) of
           Ok wallets \<Rightarrow> AtToken identityID wallets checks
         | _ \<Rightarrow> Done (clearNonceCookie, ErrorBody 500 ''wallets lookup failed''))"

definition verify_token :: "HubLib \<Rightarrow> env \<Rightarrow> bytes \<Rightarrow> CAIP10 list \<Rightarrow> CheckInfo list \<Rightarrow> hub \<Rightarrow> hub \<times> pc" where
  "verify_token H en identityID wallets checks h =
     (case issuer_Issue (hlJwt H) (enNow en) (hIssuer h) identityID wallets of
        Inr token \<Rightarrow>
          (h\<lparr>hRecorder := (hRecorder h)\<lparr>rcCounters := incTokensIssued (rcCounters (hRecorder h))\<rparr>\<rparr>,
           Done (clearNonceCookie, VerifyBody
             \<lparr>vsToken = token, vsIdentityID = identityID, vsChecks = checks\<rparr>))
      | Inl _ \<Rightarrow> (h, Done (clearNonceCookie, ErrorBody 500 ''token issue failed'')))"

section \<open>The steps of a linking\<close>

definition link_start :: "env \<Rightarrow> request \<Rightarrow> hub \<Rightarrow> hub \<times> pc" where
  "link_start en rq h =
     (case rqIdentity rq of
        None \<Rightarrow> (h, Done (KeepCookie, ErrorBody 401 ''missing identity''))
      | Some _ \<Rightarrow>
     (case read_request rq of
        Ok (msg, sig, c) \<Rightarrow>
          if rqCookie rq = [] then (h, Done (problem_reply KeepCookie (Sentinel ErrNonceMismatch) rq))
          else
            (case Burn (enTime en 0) (rqCookie rq) (hNonces h) of
               (Ok _, ns) \<Rightarrow> (h\<lparr>hNonces := ns\<rparr>, AtVerify msg sig c [])
             | (_, ns) \<Rightarrow>
                 (h\<lparr>hNonces := ns\<rparr>, Done (problem_reply clearNonceCookie (Sentinel ErrNonceMismatch) rq)))
      | _ \<Rightarrow> (h, Done (problem_reply KeepCookie (Sentinel ErrMalformed) rq))))"

definition link_verdict :: "request \<Rightarrow> Identity res \<Rightarrow> hub \<Rightarrow> hub \<times> pc" where
  "link_verdict rq res h =
     (case rqIdentity rq of
        None \<Rightarrow> (h, Done (KeepCookie, ErrorBody 401 ''missing identity''))
      | Some identityID \<Rightarrow>
     (case res of
        Ok i \<Rightarrow>
          (case LinkWallet identityID (idAccount i) (hIds h) of
             (Ok _, ids) \<Rightarrow>
               (h\<lparr>hIds := ids\<rparr>, Done (clearNonceCookie, LinkedBody (CAIP10_String (idAccount i))))
           | (_, ids) \<Rightarrow> (h\<lparr>hIds := ids\<rparr>, Done (clearNonceCookie, ErrorBody 500 ''link failed'')))
      | Err verifyErr \<Rightarrow> (h, Done (problem_reply clearNonceCookie verifyErr rq))
      | Panic \<Rightarrow> (h, Done (clearNonceCookie, Recovered))))"

section \<open>Tasks\<close>

text \<open>One step of a handler. The other handlers lock at most once; a finished one stays.\<close>

fun task_step :: "HubLib \<Rightarrow> hub_call \<Rightarrow> hub \<times> pc \<Rightarrow> hub \<times> pc" where
  "task_step H c (h, Done r) = (h, Done r)"
| "task_step H (CallVerify en rq) (h, AtStart) = verify_start en rq h"
| "task_step H (CallLink2 en rq) (h, AtStart) = link_start en rq h"
| "task_step H c (h, AtStart) = (case hub_exec H h c of (r, h) \<Rightarrow> (h, Done r))"
| "task_step H (CallVerify en rq) (h, AtVerify msg sig c aid) = run_registry en rq msg sig c aid h"
| "task_step H (CallLink2 en rq) (h, AtVerify msg sig c aid) = run_registry en rq msg sig c aid h"
| "task_step H c (h, AtReport (e # es) res aid) = (report_event H e h, AtReport es res aid)"
| "task_step H (CallVerify en rq) (h, AtReport [] res aid) = verify_verdict rq res aid h"
| "task_step H (CallLink2 en rq) (h, AtReport [] res aid) = link_verdict rq res h"
| "task_step H (CallVerify en rq) (h, AtUpsert i checks) = verify_upsert en i checks h"
| "task_step H c (h, AtWallets identityID checks) = verify_wallets identityID checks h"
| "task_step H (CallVerify en rq) (h, AtToken identityID wallets checks) =
     verify_token H en identityID wallets checks h"
| "task_step H c (h, p) = (h, p)"


lemma task_step_Done [simp]: "task_step H c (h, Done r) = (h, Done r)"
  by (cases c) simp_all

lemma task_step_report [simp]:
  "task_step H c (h, AtReport (e # es) res aid) = (report_event H e h, AtReport es res aid)"
  by (cases c) simp_all

lemma task_step_wallets [simp]: "task_step H c (h, AtWallets i checks) = verify_wallets i checks h"
  by (cases c) simp_all

section \<open>Alone, a task is the handler\<close>

text \<open>A task that is not disturbed: its steps one after the other.\<close>

definition task_runs :: "HubLib \<Rightarrow> hub_call \<Rightarrow> hub \<times> pc \<Rightarrow> reply \<times> hub \<Rightarrow> bool" where
  "task_runs H c s r \<longleftrightarrow> (\<exists>k. (task_step H c ^^ k) s = (snd r, Done (fst r)))"

lemma runs_Done: "task_runs H c (h, Done r) (r, h)"
  unfolding task_runs_def by (rule exI [of _ 0]) simp

lemma runs_step: "task_runs H c (task_step H c s) r \<Longrightarrow> task_runs H c s r"
  unfolding task_runs_def by (metis funpow_Suc_right comp_apply)

lemma runs_report:
  assumes "task_runs H c (h\<lparr>hRecorder := rec_events (hlErrorText H) (hRecorder h) es\<rparr>, AtReport [] res aid) r"
  shows "task_runs H c (h, AtReport es res aid) r"
  using assms
proof (induction es arbitrary: h)
  case (Cons e es)
  show ?case by (rule runs_step) (use Cons in \<open>simp add: report_event_def\<close>)
qed simp

lemma runs_token:
  "task_runs H (CallVerify en rq) (h, AtToken i ws checks)
     (case issuer_Issue (hlJwt H) (enNow en) (hIssuer h) i ws of
        Inr token \<Rightarrow> ((clearNonceCookie, VerifyBody \<lparr>vsToken = token, vsIdentityID = i, vsChecks = checks\<rparr>),
            h\<lparr>hRecorder := (hRecorder h)\<lparr>rcCounters := incTokensIssued (rcCounters (hRecorder h))\<rparr>\<rparr>)
      | Inl _ \<Rightarrow> ((clearNonceCookie, ErrorBody 500 ''token issue failed''), h))"
  by (rule runs_step) (simp add: verify_token_def runs_Done split: sum.split)

lemma runs_wallets:
  "task_runs H (CallVerify en rq) (h, AtWallets i checks)
     (case Wallets i (hIds h) of
        Ok ws \<Rightarrow>
         (case issuer_Issue (hlJwt H) (enNow en) (hIssuer h) i ws of
            Inr token \<Rightarrow> ((clearNonceCookie, VerifyBody \<lparr>vsToken = token, vsIdentityID = i, vsChecks = checks\<rparr>),
              h\<lparr>hRecorder := (hRecorder h)\<lparr>rcCounters := incTokensIssued (rcCounters (hRecorder h))\<rparr>\<rparr>)
          | Inl _ \<Rightarrow> ((clearNonceCookie, ErrorBody 500 ''token issue failed''), h))
      | _ \<Rightarrow> ((clearNonceCookie, ErrorBody 500 ''wallets lookup failed''), h))"
  by (rule runs_step) (simp add: verify_wallets_def runs_Done runs_token split: res.split)

lemma runs_sign_in: "task_runs H (CallVerify en rq) (h, AtUpsert i checks) (sign_in H en i checks h)"
proof (rule runs_step)
  obtain r ids where u: "UpsertByWallet (enIdRnd en) (idAccount i) (hIds h) = (r, ids)" by fastforce
  show "task_runs H (CallVerify en rq) (task_step H (CallVerify en rq) (h, AtUpsert i checks))
      (sign_in H en i checks h)"
  proof (cases r)
    case (Ok p)
    then show ?thesis
      using runs_wallets [of H en rq "h\<lparr>hIds := ids\<rparr>" "fst p" checks]
      by (cases p) (simp add: verify_upsert_def sign_in_def u Let_def cong: res.case_cong sum.case_cong)
  qed (simp_all add: verify_upsert_def sign_in_def u runs_Done)
qed

lemma runs_verdict:
  "task_runs H (CallVerify en rq) (h, AtReport [] res aid)
     (case res of
        Panic \<Rightarrow> ((clearNonceCookie, Recovered), h)
      | _ \<Rightarrow> (case DrainChecks aid (hRecorder h) of
          (checks, r) \<Rightarrow>
            (let h = h\<lparr>hRecorder := r\<rparr> in
             case res of
               Ok i \<Rightarrow> sign_in H en i checks h
             | Err verifyErr \<Rightarrow> (problem_reply clearNonceCookie verifyErr rq, h)
             | Panic \<Rightarrow> ((clearNonceCookie, Recovered), h))))"
  by (rule runs_step)
     (cases res, simp_all add: verify_verdict_def runs_Done runs_sign_in Let_def split: prod.split)

lemma runs_registry:
  assumes "task_step H c (h, AtVerify msg sig m aid) = run_registry en rq msg sig m aid h"
    and "hub_verify H en m msg sig (rqCookie rq) aid h = (res, h')"
    and "task_runs H c (h', AtReport [] res aid) r"
  shows "task_runs H c (h, AtVerify msg sig m aid) r"
proof (rule runs_step)
  define run where "run = Registry_Verify no_panics (enWall en) (enRegistryRnd en)
     (hRegistry h (hDemoWallets h)) m msg sig (hub_opts en (rqCookie rq) aid h)"
  have st: "task_step H c (h, AtVerify msg sig m aid) = (h, AtReport (events_of (fst run)) (snd run) aid)"
    unfolding assms(1) run_registry_def Let_def run_def by (rule refl)
  have v: "res = snd run" "h' = h\<lparr>hRecorder := rec_events (hlErrorText H) (hRecorder h) (events_of (fst run))\<rparr>"
    using assms(2) unfolding hub_verify_def Let_def run_def [symmetric] prod.inject by (rule conjE, simp)+
  show "task_runs H c (task_step H c (h, AtVerify msg sig m aid)) r"
    unfolding st by (rule runs_report) (use assms(3) in \<open>simp only: v\<close>)
qed

lemma runs_verify_burned:
  assumes "hub_newAttemptID (enAttemptRnd en) = Ok aid"
  shows "task_runs H (CallVerify en rq) (h, AtVerify msg sig m aid) (verify_burned H en rq (msg, sig, m) h)"
proof -
  obtain res h' where v: "hub_verify H en m msg sig (rqCookie rq) aid h = (res, h')" by fastforce
  show ?thesis
    by (rule runs_registry [OF _ v]) (use runs_verdict [of H en rq h' res aid] in
      \<open>cases res; simp add: verify_burned_def assms v Let_def split: prod.split\<close>)+
qed

lemma runs_postVerify: "task_runs H (CallVerify en rq) (h, AtStart) (postVerify H en rq h)"
proof (cases "presents rq")
  case None
  show ?thesis
    by (rule runs_step)
       (use None in \<open>auto simp: verify_start_def postVerify_def presents_def runs_Done split: res.splits if_splits\<close>)
next
  case (Some n)
  then obtain msg sig c where rd: "read_request rq = Ok (msg, sig, c)" and n: "rqCookie rq = n" "n \<noteq> []"
    by (auto simp: presents_def split: res.splits if_splits)
  show ?thesis
  proof (cases rule: Burn_res [of "enTime en 0" n "hNonces h"])
    case refused
    then obtain ns where b: "Burn (enTime en 0) n (hNonces h) = (Err (Sentinel ErrNonceMismatch), ns)"
      by blast
    show ?thesis by (rule runs_step) (simp add: verify_start_def postVerify_def rd n b runs_Done)
  next
    case burned
    then have b: "fst (Burn (enTime en 0) (rqCookie rq) (hNonces h)) = Ok ()" unfolding n by (metis fst_conv)
    have st: "task_step H (CallVerify en rq) (h, AtStart) = (burned_hub en n h,
        case hub_newAttemptID (enAttemptRnd en) of Ok aid \<Rightarrow> AtVerify msg sig c aid
        | _ \<Rightarrow> Done (clearNonceCookie, Recovered))"
      using burned by (cases "Burn (enTime en 0) n (hNonces h)")
        (simp add: verify_start_def rd n burned_hub_def split: res.splits)
    have pv: "postVerify H en rq h = verify_burned H en rq (msg, sig, c) (burned_hub en n h)"
      using postVerify_burned [OF rd _ b] n by simp
    show ?thesis
      unfolding pv by (rule runs_step, unfold st)
        (cases "hub_newAttemptID (enAttemptRnd en)",
         simp_all add: runs_verify_burned, simp_all add: verify_burned_def runs_Done)
  qed
qed

lemma runs_postLink: "task_runs H (CallLink2 en rq) (h, AtStart) (postLink H en rq h)"
proof (cases "call_presents (CallLink2 en rq)")
  case None
  show ?thesis
    by (rule runs_step)
       (use None in \<open>auto simp: link_start_def postLink_def presents_def runs_Done
          split: res.splits if_splits option.splits\<close>)
next
  case (Some x)
  then obtain msg sig c i where rd: "read_request rq = Ok (msg, sig, c)" "rqCookie rq \<noteq> []" "rqIdentity rq = Some i"
    by (auto simp: presents_def split: res.splits if_splits option.splits)
  show ?thesis
  proof (cases rule: Burn_res [of "enTime en 0" "rqCookie rq" "hNonces h"])
    case refused
    then obtain ns where b: "Burn (enTime en 0) (rqCookie rq) (hNonces h) = (Err (Sentinel ErrNonceMismatch), ns)"
      by blast
    show ?thesis by (rule runs_step) (simp add: link_start_def postLink_def rd b runs_Done)
  next
    case burned
    then obtain ns where b: "Burn (enTime en 0) (rqCookie rq) (hNonces h) = (Ok (), ns)" by blast
    obtain res h' where v: "hub_verify H en c msg sig (rqCookie rq) [] (h\<lparr>hNonces := ns\<rparr>) = (res, h')"
      by fastforce
    have "task_runs H (CallLink2 en rq) (h', AtReport [] res []) (postLink H en rq h)"
      by (rule runs_step)
         (cases res, simp_all add: link_verdict_def postLink_def rd b v runs_Done split: prod.split res.split)
    then have "task_runs H (CallLink2 en rq) (h\<lparr>hNonces := ns\<rparr>, AtVerify msg sig c []) (postLink H en rq h)"
      by (rule runs_registry [OF _ v, rotated]) simp
    then show ?thesis by (intro runs_step [of H _ "(h, AtStart)"]) (simp add: link_start_def rd b)
  qed
qed

lemma task_runs_exec: "task_runs H c (h, AtStart) (hub_exec H h c)"
proof (cases c)
  case (CallVerify en rq)
  then show ?thesis using runs_postVerify by simp
next
  case (CallLink2 en rq)
  then show ?thesis using runs_postLink by simp
qed (rule runs_step, simp add: runs_Done split: prod.split)+


section \<open>A handler among others\<close>

text \<open>What is left of a handler: the stage, and the events still to be reported.\<close>

fun pc_rank :: "pc \<Rightarrow> nat \<times> nat" where
  "pc_rank AtStart = (6, 0)"
| "pc_rank (AtVerify msg sig c aid) = (5, 0)"
| "pc_rank (AtReport es res aid) = (4, length es)"
| "pc_rank (AtUpsert i checks) = (3, 0)"
| "pc_rank (AtWallets i checks) = (2, 0)"
| "pc_rank (AtToken i ws checks) = (1, 0)"
| "pc_rank (Done r) = (0, 0)"

text \<open>The points each handler can reach.\<close>

fun pc_ok :: "hub_call \<Rightarrow> pc \<Rightarrow> bool" where
  "pc_ok c (Done r) \<longleftrightarrow> True"
| "pc_ok c AtStart \<longleftrightarrow> True"
| "pc_ok (CallVerify en rq) p \<longleftrightarrow> True"
| "pc_ok (CallLink2 en rq) (AtVerify msg sig m aid) \<longleftrightarrow> True"
| "pc_ok (CallLink2 en rq) (AtReport es res aid) \<longleftrightarrow> True"
| "pc_ok c p \<longleftrightarrow> False"

lemmas step_defs = verify_start_def link_start_def run_registry_def verify_verdict_def link_verdict_def
  verify_upsert_def verify_wallets_def verify_token_def

lemma pc_ok_step:
  assumes "pc_ok c p" and "task_step H c (h, p) = (h', p')"
  shows "pc_ok c p'"
  using assms
  by (cases "(c, p)" rule: pc_ok.cases; cases "(H, c, h, p)" rule: task_step.cases)
     (auto simp: step_defs Let_def split: res.splits if_splits prod.splits option.splits sum.splits)

lemma rank_step:
  assumes "pc_ok c p" and "\<forall>r. p \<noteq> Done r"
  shows "(pc_rank (snd (task_step H c (h, p))), pc_rank p) \<in> less_than <*lex*> less_than"
  using assms
  by (cases "(c, p)" rule: pc_ok.cases; cases "(H, c, h, p)" rule: task_step.cases)
     (auto simp: step_defs Let_def split: res.split if_split prod.split option.split sum.split)

text \<open>A handler whose steps find the hub in whatever states the others leave it.\<close>

primrec disturbed :: "HubLib \<Rightarrow> hub_call \<Rightarrow> (nat \<Rightarrow> hub) \<Rightarrow> nat \<Rightarrow> pc" where
  "disturbed H c hs 0 = AtStart"
| "disturbed H c hs (Suc k) = snd (task_step H c (hs k, disturbed H c hs k))"

lemma disturbed_ok: "pc_ok c (disturbed H c hs k)"
  by (induction k) (use pc_ok_step in \<open>simp_all add: pc_ok_step [OF _ surjective_pairing]\<close>)

lemma disturbed_returns: "\<exists>k r. disturbed H c hs k = Done r"
proof (rule ccontr)
  assume "\<not> ?thesis"
  then have down: "(pc_rank (disturbed H c hs (Suc k)), pc_rank (disturbed H c hs k)) \<in> less_than <*lex*> less_than" for k
    using rank_step [OF disturbed_ok] by simp
  have "wf (less_than <*lex*> less_than)" by blast
  then obtain k where "(pc_rank (disturbed H c hs (Suc k)), pc_rank (disturbed H c hs k)) \<notin> less_than <*lex*> less_than"
    by (rule wf_no_infinite_down_chainE [where f = "\<lambda>k. pc_rank (disturbed H c hs k)"])
  with down show False by blast
qed


end
