(* ===== verification/HubInterleaving.thy ===== *)
theory HubInterleaving
  imports HubSteps
begin

text \<open>
  Many requests at once: the tasks of \<open>HubSteps\<close>, any of them moving next, over the shared state
  of the hub. What holds of the nonce store, of the replies and of the stores between any two
  locked sections.
\<close>

section \<open>Interleavings\<close>

text \<open>A state of the server: the hub, the tasks that have arrived, and the events of the nonce
  store so far.\<close>

inductive interleaved :: "HubLib \<Rightarrow> hub \<Rightarrow> hub \<Rightarrow> task list \<Rightarrow> nonce_event list \<Rightarrow> bool"
  for H h0 where
  initial: "interleaved H h0 h0 [] []"
| arrives: "interleaved H h0 h ts tr \<Longrightarrow> interleaved H h0 h (ts @ [(c, AtStart)]) tr"
| moves: "interleaved H h0 h ts tr \<Longrightarrow> i < length ts \<Longrightarrow> ts ! i = (c, p) \<Longrightarrow>
    task_step H c (h, p) = (h', p') \<Longrightarrow>
    interleaved H h0 h' (ts[i := (c, p')]) (tr @ (if p = AtStart then hub_events h c else []))"

text \<open>The replies given so far.\<close>

definition replies :: "task list \<Rightarrow> (hub_call \<times> reply) list" where
  "replies ts = List.map_filter (\<lambda>(c, p). case p of Done r \<Rightarrow> Some (c, r) | _ \<Rightarrow> None) ts"

lemma filter_update:
  "i < length ts \<Longrightarrow>
     length (filter P (ts[i := x])) + (if P (ts ! i) then 1 else 0) = length (filter P ts) + (if P x then 1 else 0)"
  by (subst (3) id_take_nth_drop [of i ts]) (simp_all add: upd_conv_take_nth_drop)

lemma filter_replies:
  "length (filter Q (replies ts)) = length (filter (\<lambda>(c, p). \<exists>r. p = Done r \<and> Q (c, r)) ts)"
  by (induction ts) (auto simp: replies_def map_filter_simps split: pc.split)

text \<open>The nonce store between steps: only the first step of a handler touches it, and as the
  handler does.\<close>

lemma start_nonces: "hNonces (fst (task_step H c (h, AtStart))) = hNonces (snd (hub_exec H h c))"
proof (cases c)
  case (CallVerify en rq)
  then show ?thesis
    by (cases "Burn (enTime en 0) (rqCookie rq) (hNonces h)")
       (auto simp: verify_start_def postVerify_nonces presents_def split: res.split)
next
  case (CallLink2 en rq)
  then show ?thesis
    by (cases "Burn (enTime en 0) (rqCookie rq) (hNonces h)")
       (auto simp: link_start_def postLink_nonces presents_def split: res.split option.split)
qed (auto split: prod.split)

lemma later_nonces: "p \<noteq> AtStart \<Longrightarrow> hNonces (fst (task_step H c (h, p))) = hNonces h"
  by (cases "(H, c, h, p)" rule: task_step.cases)
     (auto simp: step_defs report_event_def Let_def split: res.split prod.split option.split sum.split)

lemma interleaved_run:
  "interleaved H h0 h ts tr \<Longrightarrow> nonces.run (hNonces h0) tr (hNonces h)"
proof (induction rule: interleaved.induct)
  case (moves h ts tr i c p h' p')
  have "nonces.run (hNonces h) (if p = AtStart then hub_events h c else []) (hNonces h')"
    using moves.hyps(4) start_nonces [of H c h] later_nonces [of p H c h] hub_simulates [of h c H] by auto
  with moves.IH show ?case by (auto simp: nonces.run_append)
qed simp_all

section \<open>Accepted tasks have burned\<close>

text \<open>A task that has burned the nonce \<open>n\<close> and can still be, or has been, accepted.\<close>

definition past :: "bytes \<Rightarrow> task \<Rightarrow> bool" where
  "past n t \<longleftrightarrow> map_option snd (call_presents (fst t)) = Some n
     \<and> (case snd t of AtStart \<Rightarrow> False | Done r \<Rightarrow> accepted (snd r) | _ \<Rightarrow> True)"

lemma start_past:
  assumes "past n (c, snd (task_step H c (h, AtStart)))"
  shows "hub_events h c = [Burned n]"
proof (cases c)
  case (CallVerify en rq)
  then show ?thesis
    using assms
    by (cases rule: Burn_res [of "enTime en 0" "rqCookie rq" "hNonces h"])
       (auto simp: past_def hub_events_def verify_start_def presents_def
         split: res.splits if_splits prod.splits)
next
  case (CallLink2 en rq)
  then show ?thesis
    using assms
    by (cases rule: Burn_res [of "enTime en 0" "rqCookie rq" "hNonces h"])
       (auto simp: past_def hub_events_def link_start_def presents_def
         split: res.splits if_splits prod.splits option.splits)
qed (use assms in \<open>auto simp: past_def\<close>)

lemma later_past: "p \<noteq> AtStart \<Longrightarrow> past n (c, snd (task_step H c (h, p))) \<Longrightarrow> past n (c, p)"
  by (cases p) (auto simp: past_def split: pc.splits)

lemma problem_reply_pair [simp]:
  "problem_reply ck e rq = (a, b) \<longleftrightarrow> a = ck \<and> b = ProblemBody (writeProblem e (rqRequestID rq))"
  by (auto simp: problem_reply_def)

lemma hands_outD: "hands_out n (c, r) \<Longrightarrow> \<exists>d. snd r = NonceBody n d"
  by (simp add: hands_out_def split: body.splits)

lemma later_no_handout:
  "p \<noteq> AtStart \<Longrightarrow> task_step H c (h, p) = (h', Done r) \<Longrightarrow> hands_out n (c, r) \<Longrightarrow> p = Done r"
  by (cases "(H, c, h, p)" rule: task_step.cases)
     (auto simp: step_defs report_event_def hands_out_def Let_def
       split: res.splits prod.splits option.splits sum.splits if_splits)

lemma start_handout:
  "(\<exists>r. snd (task_step H c (h, AtStart)) = Done r \<and> hands_out n (c, r)) \<longleftrightarrow> Issued n \<in> set (hub_events h c)"
proof (cases c)
  case (CallNonce en)
  have "Issued n \<in> set (hub_events h c) \<longleftrightarrow> count_list (hub_events h c) (Issued n) \<noteq> 0"
    by (simp add: count_list_0_iff)
  then show ?thesis
    unfolding Issued_hands_out [of h c n H] using CallNonce by (auto split: prod.split)
next
  case (CallVerify en rq)
  then have "Issued n \<notin> set (hub_events h c)"
    using no_issue_in_burn by (auto simp: hub_events_def split: option.split)
  then show ?thesis
    using CallVerify by (auto simp: verify_start_def dest!: hands_outD split: res.splits prod.splits if_splits)
next
  case (CallLink2 en rq)
  then have "Issued n \<notin> set (hub_events h c)"
    using no_issue_in_burn by (auto simp: hub_events_def split: option.splits prod.splits)
  then show ?thesis
    using CallLink2 by (auto simp: link_start_def dest!: hands_outD split: res.splits prod.splits if_splits option.splits)
qed (use Issued_hands_out [of h c n H] in \<open>auto split: prod.split simp: hub_events_def\<close>)

lemma events_at_most_once: "count_list (hub_events h c) ev \<le> 1"
  by (auto simp: hub_events_def split: option.split prod.split res.split hub_call.split)

lemma count_events: "count_list (hub_events h c) ev = (if ev \<in> set (hub_events h c) then 1 else 0)"
  using events_at_most_once [of h c ev] count_list_0_iff [of "hub_events h c" ev] by auto

lemma interleaved_past:
  "interleaved H h0 h ts tr \<Longrightarrow> length (filter (past n) ts) \<le> count_list tr (Burned n)"
proof (induction rule: interleaved.induct)
  case (moves h ts tr i c p h' p')
  let ?evs = "if p = AtStart then hub_events h c else []"
  have "(if past n (c, p') then 1 else 0) \<le> (if past n (c, p) then 1 else 0) + count_list ?evs (Burned n)"
    using moves.hyps(4) start_past [of n c H h] later_past [of p n c H h] by (auto split: if_splits)
  then show ?case
    using moves.IH filter_update [OF moves.hyps(2), of "past n" "(c, p')"] moves.hyps(3)
    by (auto split: if_splits)
qed (simp_all add: past_def)

definition gives_out :: "bytes \<Rightarrow> task \<Rightarrow> bool" where
  "gives_out n t \<longleftrightarrow> (\<exists>r. snd t = Done r \<and> hands_out n (fst t, r))"

lemma interleaved_handouts:
  "interleaved H h0 h ts tr \<Longrightarrow> length (filter (gives_out n) ts) = count_list tr (Issued n)"
proof (induction rule: interleaved.induct)
  case (moves h ts tr i c p h' p')
  let ?evs = "if p = AtStart then hub_events h c else []"
  have p': "p' = snd (task_step H c (h, p))" using moves.hyps(4) by simp
  have "(if gives_out n (c, p') then 1 else 0) = (if gives_out n (c, p) then 1 else 0) + count_list ?evs (Issued n)"
  proof (cases "p = AtStart")
    case True
    then show ?thesis
      using start_handout [of H c h n] by (simp add: p' gives_out_def count_events)
  next
    case False
    then have "gives_out n (c, p') \<longleftrightarrow> gives_out n (c, p)"
      using later_no_handout [OF False, of H c h h' _ n] moves.hyps(4) task_step_Done [of H c h]
      unfolding gives_out_def fst_conv snd_conv by (metis prod.inject)
    then show ?thesis using False by simp
  qed
  then show ?case
    using moves.IH filter_update [OF moves.hyps(2), of "gives_out n" "(c, p')"] moves.hyps(3)
    by (auto split: if_splits)
qed (simp_all add: gives_out_def)

lemma interleaved_counts:
  assumes "interleaved H h0 h ts tr" and "n \<notin> held_nonces (hNonces h0)"
  shows "length (filter (accepts_nonce n) (replies ts)) \<le> length (filter (hands_out n) (replies ts))"
proof -
  have "length (filter (accepts_nonce n) (replies ts)) \<le> length (filter (past n) ts)"
    unfolding filter_replies
    by (induction ts) (auto simp: accepts_nonce_def past_def)
  also have "\<dots> \<le> count_list tr (Burned n)" by (rule interleaved_past [OF assms(1)])
  also have "\<dots> \<le> count_list tr (Issued n)"
    using nonces.burns_le_issues [OF interleaved_run [OF assms(1)], of n] assms(2) by simp
  also have "\<dots> = length (filter (gives_out n) ts)" by (rule interleaved_handouts [OF assms(1), symmetric])
  also have "\<dots> = length (filter (hands_out n) (replies ts))"
    unfolding filter_replies by (rule arg_cong [of _ _ "\<lambda>P. length (filter P ts)"]) (auto simp: gives_out_def fun_eq_iff)
  finally show ?thesis .
qed

section \<open>The invariant between steps\<close>

text \<open>The random id a sign-in draws, and runs in which no id is drawn twice or already in use.\<close>

definition drawn :: "task \<Rightarrow> bytes option" where
  "drawn t = (case fst t of CallVerify en rq \<Rightarrow> enIdRnd en | _ \<Rightarrow> None)"

definition distinct_ids :: "hub \<Rightarrow> task list \<Rightarrow> bool" where
  "distinct_ids h0 ts \<longleftrightarrow>
     (\<forall>i < length ts. \<forall>j < length ts. drawn (ts ! i) \<noteq> None \<longrightarrow> drawn (ts ! i) = drawn (ts ! j) \<longrightarrow> i = j)
     \<and> (\<forall>t \<in> set ts. \<forall>b. drawn t = Some b \<longrightarrow>
          idToWallets (hIds h0) (''id_'' @ hex_EncodeToString b) = None)"

lemma distinct_ids_map:
  "distinct_ids h0 ts \<longleftrightarrow>
     (let ds = map drawn ts in
        (\<forall>i < length ds. \<forall>j < length ds. ds ! i \<noteq> None \<longrightarrow> ds ! i = ds ! j \<longrightarrow> i = j)
        \<and> (\<forall>d \<in> set ds. \<forall>b. d = Some b \<longrightarrow> idToWallets (hIds h0) (''id_'' @ hex_EncodeToString b) = None))"
  by (simp add: distinct_ids_def Let_def)

definition upserted :: "pc \<Rightarrow> bool" where
  "upserted p \<longleftrightarrow> (case p of AtWallets i cs \<Rightarrow> True | AtToken i ws cs \<Rightarrow> True | Done r \<Rightarrow> True | _ \<Rightarrow> False)"

text \<open>Every identity is from the start or was drawn by a sign-in that has registered it.\<close>

definition ids_from :: "hub \<Rightarrow> task list \<Rightarrow> hub \<Rightarrow> bool" where
  "ids_from h0 ts h \<longleftrightarrow> (\<forall>i. idToWallets (hIds h) i \<noteq> None \<longrightarrow>
     idToWallets (hIds h0) i \<noteq> None
     \<or> (\<exists>k < length ts. \<exists>b. drawn (ts ! k) = Some b \<and> i = ''id_'' @ hex_EncodeToString b
          \<and> upserted (snd (ts ! k))))"

lemma ids_from_fresh:
  assumes "ids_from h0 ts h" and "distinct_ids h0 ts"
    and "i < length ts" and "ts ! i = (CallVerify en rq, p)" and "\<not> upserted p"
  shows "fresh_id (enIdRnd en) (hIds h)"
proof (cases "enIdRnd en")
  case (Some b)
  have d: "drawn (ts ! i) = Some b" by (simp add: assms(4) drawn_def Some)
  have "idToWallets (hIds h) (''id_'' @ hex_EncodeToString b) = None"
  proof (rule ccontr)
    assume "idToWallets (hIds h) (''id_'' @ hex_EncodeToString b) \<noteq> None"
    moreover have "idToWallets (hIds h0) (''id_'' @ hex_EncodeToString b) = None"
      using assms(2,3) d by (auto simp: distinct_ids_def)
    ultimately obtain k b' where k: "k < length ts" "drawn (ts ! k) = Some b'" "upserted (snd (ts ! k))"
      "hex_EncodeToString b = hex_EncodeToString b'" using assms(1) by (auto simp: ids_from_def)
    have "b = b'" using k(4) by (simp add: hex_inj)
    then have "k = i" using assms(2,3) d k(1,2) by (auto simp: distinct_ids_def)
    with k(3) assms(4,5) show False by simp
  qed
  then show ?thesis by (simp add: fresh_id_def Some)
qed (simp add: fresh_id_def)

lemma drawn_update: "i < length ts \<Longrightarrow> ts ! i = (c, p) \<Longrightarrow> map drawn (ts[i := (c, p')]) = map drawn ts"
  by (simp add: map_update drawn_def list_update_same_conv)

lemma Upsert_dom:
  "idToWallets (snd (UpsertByWallet rnd w s)) i \<noteq> None \<Longrightarrow>
     idToWallets s i \<noteq> None \<or> (\<exists>b. rnd = Some b \<and> i = ''id_'' @ hex_EncodeToString b)"
  by (auto simp: UpsertByWallet_def Let_def split: option.splits if_splits)

lemma Link_dom: "idToWallets (snd (LinkWallet i w s)) j \<noteq> None \<longleftrightarrow> idToWallets s j \<noteq> None"
  by (auto simp: LinkWallet_def Let_def split: option.split)

lemma start_ids: "hIds (fst (task_step H c (h, AtStart))) = hIds h"
  by (cases c) (auto simp: verify_start_def link_start_def getNonce_def getConfig_def getJWKS_def
      postRegisterContractWallet_def Let_def split: res.split prod.split option.split)

lemma step_ids:
  assumes "idToWallets (hIds (fst (task_step H c (h, p)))) i \<noteq> None"
  shows "idToWallets (hIds h) i \<noteq> None
     \<or> (\<exists>b. drawn (c, p) = Some b \<and> i = ''id_'' @ hex_EncodeToString b \<and> upserted (snd (task_step H c (h, p))))"
proof (cases "\<exists>en rq v checks. c = CallVerify en rq \<and> p = AtUpsert v checks")
  case True
  then obtain en rq v checks where cp: "c = CallVerify en rq" "p = AtUpsert v checks" by blast
  obtain r ids where u: "UpsertByWallet (enIdRnd en) (idAccount v) (hIds h) = (r, ids)" by fastforce
  then have "fst (task_step H c (h, p)) = h\<lparr>hIds := ids\<rparr>" "upserted (snd (task_step H c (h, p)))"
    by (cases r; force simp: cp verify_upsert_def upserted_def split: prod.split)+
  then show ?thesis
    using assms Upsert_dom [of "enIdRnd en" "idAccount v" "hIds h" i] u by (simp add: cp drawn_def)
next
  case False
  have "idToWallets (hIds h) i \<noteq> None"
  proof (cases "\<exists>en rq res aid. c = CallLink2 en rq \<and> p = AtReport [] res aid")
    case True
    then obtain en rq res aid where cp: "c = CallLink2 en rq" "p = AtReport [] res aid" by blast
    then show ?thesis
      using assms Link_dom
      by (auto simp: link_verdict_def split: option.splits res.splits prod.splits) (metis snd_conv option.distinct(1))+
  next
    case nolink: False
    show ?thesis
      using assms False nolink start_ids [of H c h]
      by (cases "(H, c, h, p)" rule: task_step.cases)
         (auto simp: run_registry_def verify_verdict_def verify_wallets_def verify_token_def report_event_def Let_def
           split: prod.splits sum.splits if_splits)
  qed
  then show ?thesis by blast
qed

lemma ids_from_move:
  assumes "ids_from h0 ts h" and "i < length ts" and "ts ! i = (c, p)" and "task_step H c (h, p) = (h', p')"
  shows "ids_from h0 (ts[i := (c, p')]) h'"
  unfolding ids_from_def
proof (intro allI impI)
  fix j assume "idToWallets (hIds h') j \<noteq> None"
  then consider (old) "idToWallets (hIds h) j \<noteq> None"
    | (new) b where "drawn (c, p) = Some b" "j = ''id_'' @ hex_EncodeToString b" "upserted p'"
    using step_ids [of H c h p j] assms(4) by auto
  then show "idToWallets (hIds h0) j \<noteq> None \<or> (\<exists>k < length (ts[i := (c, p')]). \<exists>b.
      drawn (ts[i := (c, p')] ! k) = Some b \<and> j = ''id_'' @ hex_EncodeToString b \<and> upserted (snd (ts[i := (c, p')] ! k)))"
  proof cases
    case new
    then show ?thesis using assms(2) by (intro disjI2 exI [of _ i]) (simp add: drawn_def)
  next
    case old
    have stay: "upserted p'" if "upserted p"
      using that assms(4) by (cases p)
        (auto simp: upserted_def step_defs Let_def elim: task_step.elims
          split: prod.splits res.splits sum.splits option.splits)
    from old assms(1) consider "idToWallets (hIds h0) j \<noteq> None"
      | k b where "k < length ts" "drawn (ts ! k) = Some b" "j = ''id_'' @ hex_EncodeToString b" "upserted (snd (ts ! k))"
      unfolding ids_from_def by blast
    then show ?thesis
    proof cases
      case 2
      then show ?thesis
        using stay assms(2,3) by (intro disjI2 exI [of _ k]) (auto simp: nth_list_update drawn_def)
    qed blast
  qed
qed

lemma kept_trans: "kept H h h1 \<Longrightarrow> kept H h1 h2 \<Longrightarrow> kept H h h2"
  by (auto simp: kept_def intro: same_settings_trans)

lemma kept_ids: "kept H h h1 \<Longrightarrow> ids_wf ids \<Longrightarrow> kept H h (h1\<lparr>hIds := ids\<rparr>)"
  by (auto simp: kept_def hub_wf_def same_settings_def)

lemma kept_report: "kept H h h1 \<Longrightarrow> kept H h (report_event H e h1)"
  by (auto simp: kept_def hub_wf_def same_settings_def report_event_def rec_event_ok)

lemma kept_upsert:
  assumes "kept H h h1" and "fresh_id rnd (hIds h1)"
  shows "kept H h (h1\<lparr>hIds := snd (UpsertByWallet rnd w (hIds h1))\<rparr>)"
  using assms by (intro kept_ids ids_wf_Upsert) (auto simp: kept_def hub_wf_def)

lemma kept_start:
  assumes "hub_wf H h"
  shows "kept H h (fst (task_step H c (h, AtStart)))"
proof -
  note k = kept_refl [OF assms] and kn = kept_nonces [OF kept_refl [OF assms]]
  note kc = kept_counters [OF kn, simplified]
  show ?thesis
  proof (cases c)
    case (CallVerify en rq)
    then show ?thesis
      using k kn kc by (auto simp: verify_start_def split: res.split prod.split)
  next
    case (CallLink2 en rq)
    then show ?thesis
      using k kn by (auto simp: link_start_def split: res.split prod.split option.split)
  qed (use hub_exec_kept [OF assms, of c] in \<open>auto simp: fresh_call_def split: prod.splits\<close>)
qed

lemma kept_step:
  assumes "kept H h0 h" and "\<And>en rq v cs. c = CallVerify en rq \<Longrightarrow> p = AtUpsert v cs \<Longrightarrow> fresh_id (enIdRnd en) (hIds h)"
  shows "kept H h0 (fst (task_step H c (h, p)))"
proof (cases "p = AtStart")
  case True
  then show ?thesis using kept_trans [OF assms(1) kept_start] assms(1) by (simp add: kept_def)
next
  case False
  note kd = kept_drain [OF assms(1)] and kc = kept_counters [OF assms(1)]
    and kl = kept_link [OF assms(1)] and kr = kept_report [OF assms(1)] and ku = kept_upsert [OF assms(1)]
  show ?thesis
  proof (cases "\<exists>en rq v cs. c = CallVerify en rq \<and> p = AtUpsert v cs")
    case True
    then obtain en rq v cs where cp: "c = CallVerify en rq" "p = AtUpsert v cs" by blast
    obtain r ids where u: "UpsertByWallet (enIdRnd en) (idAccount v) (hIds h) = (r, ids)" by fastforce
    have "fst (task_step H c (h, p)) = h\<lparr>hIds := ids\<rparr>"
      by (cases r; force simp: cp verify_upsert_def u split: prod.split)
    then show ?thesis using ku [OF assms(2) [OF cp], of "idAccount v"] u by simp
  next
    case nup: False
    show ?thesis
      using assms(1) False nup kd kc kl kr
      by (cases "(H, c, h, p)" rule: task_step.cases)
         (auto simp: run_registry_def verify_verdict_def verify_wallets_def verify_token_def link_verdict_def
           DrainChecks_def Let_def split: prod.split sum.split res.split option.split)
  qed
qed

lemma interleaved_kept:
  assumes "interleaved H h0 h ts tr" and "hub_wf H h0"
  shows "distinct_ids h0 ts \<Longrightarrow> kept H h0 h \<and> ids_from h0 ts h"
  using assms(1)
proof (induction rule: interleaved.induct)
  case initial
  then show ?case using kept_refl [OF assms(2)] by (simp add: ids_from_def)
next
  case (arrives h ts tr c)
  have "distinct_ids h0 ts"
    using arrives.prems unfolding distinct_ids_def by (fastforce simp: nth_append)
  then have "kept H h0 h" "ids_from h0 ts h" using arrives.IH by blast+
  moreover have "ids_from h0 (ts @ [(c, AtStart)]) h"
    unfolding ids_from_def
  proof (intro allI impI)
    fix j assume "idToWallets (hIds h) j \<noteq> None"
    then consider "idToWallets (hIds h0) j \<noteq> None"
      | k b where "k < length ts" "drawn (ts ! k) = Some b" "j = ''id_'' @ hex_EncodeToString b" "upserted (snd (ts ! k))"
      using \<open>ids_from h0 ts h\<close> unfolding ids_from_def by blast
    then show "idToWallets (hIds h0) j \<noteq> None \<or> (\<exists>k < length (ts @ [(c, AtStart)]). \<exists>b.
        drawn ((ts @ [(c, AtStart)]) ! k) = Some b \<and> j = ''id_'' @ hex_EncodeToString b
        \<and> upserted (snd ((ts @ [(c, AtStart)]) ! k)))"
    proof cases
      case 2
      then show ?thesis by (intro disjI2 exI [of _ k]) (simp add: nth_append)
    qed blast
  qed
  ultimately show ?case by blast
next
  case (moves h ts tr i c p h' p')
  have dist: "distinct_ids h0 ts"
    using moves.prems unfolding distinct_ids_map drawn_update [OF moves.hyps(2,3)] .
  then have IH: "kept H h0 h" "ids_from h0 ts h" using moves.IH by blast+
  have "kept H h0 (fst (task_step H c (h, p)))"
  proof (rule kept_step [OF IH(1)])
    fix en rq v cs assume "c = CallVerify en rq" "p = AtUpsert v cs"
    then show "fresh_id (enIdRnd en) (hIds h)"
      using ids_from_fresh [OF IH(2) dist moves.hyps(2)] moves.hyps(3) by (simp add: upserted_def)
  qed
  then show ?case using moves.hyps(4) ids_from_move [OF IH(2) moves.hyps(2,3,4)] by simp
qed

section \<open>Two questions to the chain\<close>

text \<open>The EVM verifier asks whether the address has code and then, if it has, for the contract's
  verdict; a wallet can be registered in between. The answer is that of a single moment.\<close>

definition two_moments :: "DemoLib \<Rightarrow> demo_wallets \<Rightarrow> demo_wallets \<Rightarrow> Resolver" where
  "two_moments D d d' = (\<lambda>chainID. case (demo_ClientFor D d chainID, demo_ClientFor D d' chainID) of
     (Some cl, Some cl') \<Rightarrow> Some (cl\<lparr>ccCallContract := ccCallContract cl'\<rparr>) | _ \<Rightarrow> None)"

lemma demo_ClientFor_eq:
  "demo_ClientFor D d chainID = (if has_prefix chainID ''eip155:'' then Some (demo_client D d) else None)"
  by (simp add: demo_ClientFor_def)

lemma two_chain_reads:
  assumes "dom (dwOwners d) \<subseteq> dom (dwOwners d')"
  shows "verifySignature L (Some (two_moments D d d')) m sig = verifySignature L (Some (demo_ClientFor D d)) m sig
     \<or> verifySignature L (Some (two_moments D d d')) m sig = verifySignature L (Some (demo_ClientFor D d')) m sig"
proof (cases "dwOwners d (swAddress m)")
  case None
  then show ?thesis
    by (simp add: verifySignature_def two_moments_def demo_ClientFor_eq demo_client_def demo_CodeAt_def Let_def)
next
  case (Some ow)
  then obtain ow' where "dwOwners d' (swAddress m) = Some ow'" using assms by fastforce
  with Some show ?thesis
    by (simp add: verifySignature_def two_moments_def demo_ClientFor_eq demo_client_def demo_CodeAt_def Let_def)
qed

text \<open>Between the two questions the demo chain can only grow.\<close>

lemma register_grows: "dom (dwOwners d) \<subseteq> dom (dwOwners (snd (RegisterWallet D ow d)))"
  by (auto simp: RegisterWallet_def Let_def)

section \<open>Properties\<close>

text \<open>C4. Anti-replay under concurrency: however the requests to the hub interleave at their locked
  sections, starting from an empty nonce store, a nonce has been accepted for a sign-in or a
  linking at most as often as \<open>GET /auth/nonce\<close> has handed it out.\<close>

theorem interleaved_accepts_once:
  assumes "interleaved H h0 h ts tr" and "hNonces h0 = newNonceStore"
  shows "length (filter (accepts_nonce n) (replies ts)) \<le> length (filter (hands_out n) (replies ts))"
  by (rule interleaved_counts [OF assms(1)]) (simp add: assms(2) held_nonces_def newNonceStore_def)

text \<open>C10. The hub is well formed between any two steps of any interleaving, as long as no two
  sign-ins draw the same random id: the wallet maps agree, the recorder stays within its
  bound, every demo wallet has the address derived from its owner, and no request changes the
  domain, the verifiers or the issuer.\<close>

theorem interleaved_invariant:
  assumes "interleaved H h0 h ts tr" and "hub_wf H h0" and "distinct_ids h0 ts"
  shows "hub_wf H h \<and> same_settings h0 h"
  using interleaved_kept [OF assms] by (simp add: kept_def)

text \<open>Two sign-ins with one nonce, started one after the other before either has got further.\<close>

definition sample_call :: hub_call where
  "sample_call = CallVerify sample_env (request_for sample_message)"

lemma sample_interleaving:
  "interleaved H h0 (fst (task_step H sample_call (fst (task_step H sample_call (h0, AtStart)), AtStart)))
     [(sample_call, snd (task_step H sample_call (h0, AtStart))),
      (sample_call, snd (task_step H sample_call (fst (task_step H sample_call (h0, AtStart)), AtStart)))]
     (hub_events h0 sample_call @ hub_events (fst (task_step H sample_call (h0, AtStart))) sample_call)"
proof -
  obtain h1 p1 where s1: "task_step H sample_call (h0, AtStart) = (h1, p1)" by fastforce
  obtain h2 p2 where s2: "task_step H sample_call (h1, AtStart) = (h2, p2)" by fastforce
  have "interleaved H h0 h0 [(sample_call, AtStart), (sample_call, AtStart)] []"
    using interleaved.arrives [OF interleaved.arrives [OF interleaved.initial]] by simp
  from interleaved.moves [OF this _ _ s1, of 0]
  have "interleaved H h0 h1 [(sample_call, p1), (sample_call, AtStart)] (hub_events h0 sample_call)" by simp
  from interleaved.moves [OF this _ _ s2, of 1] show ?thesis by (simp add: s1 s2)
qed

theorem interleaved_accepts_once_witness:
  "length (filter (accepts_nonce ''abcd1234'') (replies
      [(sample_call, snd (task_step sample_hub_lib sample_call (fresh_hub, AtStart))),
       (sample_call, snd (task_step sample_hub_lib sample_call
          (fst (task_step sample_hub_lib sample_call (fresh_hub, AtStart)), AtStart)))]))
   \<le> length (filter (hands_out ''abcd1234'') (replies
      [(sample_call, snd (task_step sample_hub_lib sample_call (fresh_hub, AtStart))),
       (sample_call, snd (task_step sample_hub_lib sample_call
          (fst (task_step sample_hub_lib sample_call (fresh_hub, AtStart)), AtStart)))]))"
  by (rule interleaved_accepts_once [OF sample_interleaving]) (simp add: fresh_hub_def)

theorem interleaved_invariant_witness:
  "hub_wf sample_hub_lib (fst (task_step sample_hub_lib CallConfig (sample_hub, AtStart)))"
proof -
  obtain h1 p1 where s1: "task_step sample_hub_lib CallConfig (sample_hub, AtStart) = (h1, p1)" by fastforce
  have "interleaved sample_hub_lib sample_hub sample_hub [(CallConfig, AtStart)] []"
    using interleaved.arrives [OF interleaved.initial, of sample_hub_lib sample_hub CallConfig] by simp
  from interleaved.moves [OF this _ _ s1, of 0]
  have "interleaved sample_hub_lib sample_hub h1 [(CallConfig, p1)] (hub_events sample_hub CallConfig)" by simp
  moreover have "distinct_ids sample_hub [(CallConfig, p1)]" by (simp add: distinct_ids_def drawn_def)
  ultimately show ?thesis using interleaved_invariant sample_hub_wf s1 by (metis fst_conv)
qed

end
