(* ===== verification/HubSessions.thy ===== *)
theory HubSessions
  imports HubInterleaving
begin

text \<open>
  Who gets a session, however the requests interleave: every reply that carries a session token
  or a link answers a request whose message the registry has verified, for the domain of the
  hub and the nonce of its cookie.
\<close>

text \<open>The verifiers of the hub, in every state of its demo chain.\<close>

definition hub_registry ::
  "sentinel list \<Rightarrow> ed_verify \<Rightarrow> SiweLib \<Rightarrow> (demo_wallets option \<Rightarrow> Resolver option) \<Rightarrow> hub \<Rightarrow> bool" where
  "hub_registry pick ed L R h \<longleftrightarrow> (\<forall>d. hRegistry h d = both_verifiers no_panics pick ed L (R d))"

text \<open>The registry has accepted the message of a request, and its identity is \<open>i\<close>.\<close>

definition verified_call :: "hub \<Rightarrow> env \<Rightarrow> request \<Rightarrow> Identity \<Rightarrow> bool" where
  "verified_call h0 en rq i \<longleftrightarrow>
     (\<exists>msg sig c aid d. read_request rq = Ok (msg, sig, c)
        \<and> snd (Registry_Verify no_panics (enWall en) (enRegistryRnd en) (hRegistry h0 d) c msg sig
            (hub_opts en (rqCookie rq) aid h0)) = Ok i)"

text \<open>The identity id of a session: what the store gave for the verified account.\<close>

definition verified_id :: "hub \<Rightarrow> env \<Rightarrow> request \<Rightarrow> bytes \<Rightarrow> bool" where
  "verified_id h0 en rq identityID \<longleftrightarrow>
     (\<exists>i ids created. verified_call h0 en rq i
        \<and> fst (UpsertByWallet (enIdRnd en) (idAccount i) ids) = Ok (identityID, created))"

fun sound_reply :: "HubLib \<Rightarrow> hub \<Rightarrow> env \<Rightarrow> request \<Rightarrow> body \<Rightarrow> bool" where
  "sound_reply H h0 en rq (VerifyBody v) \<longleftrightarrow> verified_id h0 en rq (vsIdentityID v)
     \<and> (\<exists>ws. issuer_Issue (hlJwt H) (enNow en) (hIssuer h0) (vsIdentityID v) ws = Inr (vsToken v))"
| "sound_reply H h0 en rq (LinkedBody a) \<longleftrightarrow>
     (\<exists>i. verified_call h0 en rq i \<and> a = CAIP10_String (idAccount i))"
| "sound_reply H h0 en rq b \<longleftrightarrow> True"

fun sound_pc :: "HubLib \<Rightarrow> hub \<Rightarrow> env \<Rightarrow> request \<Rightarrow> pc \<Rightarrow> bool" where
  "sound_pc H h0 en rq AtStart \<longleftrightarrow> True"
| "sound_pc H h0 en rq (AtVerify msg sig c aid) \<longleftrightarrow> read_request rq = Ok (msg, sig, c)"
| "sound_pc H h0 en rq (AtReport es res aid) \<longleftrightarrow> (\<forall>i. res = Ok i \<longrightarrow> verified_call h0 en rq i)"
| "sound_pc H h0 en rq (AtUpsert i cs) \<longleftrightarrow> verified_call h0 en rq i"
| "sound_pc H h0 en rq (AtWallets identityID cs) \<longleftrightarrow> verified_id h0 en rq identityID"
| "sound_pc H h0 en rq (AtToken identityID ws cs) \<longleftrightarrow> verified_id h0 en rq identityID"
| "sound_pc H h0 en rq (Done r) \<longleftrightarrow> sound_reply H h0 en rq (snd r)"

definition call_env :: "hub_call \<Rightarrow> (env \<times> request) option" where
  "call_env c = (case c of CallVerify en rq \<Rightarrow> Some (en, rq) | CallLink2 en rq \<Rightarrow> Some (en, rq) | _ \<Rightarrow> None)"

definition sound_task :: "HubLib \<Rightarrow> hub \<Rightarrow> task \<Rightarrow> bool" where
  "sound_task H h0 t \<longleftrightarrow> (\<forall>en rq. call_env (fst t) = Some (en, rq) \<longrightarrow> sound_pc H h0 en rq (snd t))"

definition fixed :: "hub \<Rightarrow> hub \<Rightarrow> bool" where
  "fixed h0 h \<longleftrightarrow> hRegistry h = hRegistry h0 \<and> hDomain h = hDomain h0 \<and> hIssuer h = hIssuer h0"

lemma hub_opts_fixed: "fixed h0 h \<Longrightarrow> hub_opts en n aid h = hub_opts en n aid h0"
  by (simp add: hub_opts_def fixed_def)

lemma step_fixed: "fixed h0 h \<Longrightarrow> fixed h0 (fst (task_step H c (h, p)))"
  by (cases "(H, c, h, p)" rule: task_step.cases)
     (auto simp: fixed_def step_defs report_event_def getNonce_def getConfig_def getJWKS_def
       postRegisterContractWallet_def Let_def
       split: res.split prod.split option.split sum.split if_split)

lemma problem_reply_sound [simp]: "sound_reply H h0 en rq' (snd (problem_reply ck e rq))"
  by simp

lemma sound_start:
  assumes "call_env c = Some (en, rq)"
  shows "sound_pc H h0 en rq (snd (task_step H c (h, AtStart)))"
proof (cases c)
  case (CallVerify en' rq')
  then show ?thesis
    using assms by (auto simp: call_env_def verify_start_def split: res.split prod.split)
next
  case (CallLink2 en' rq')
  then show ?thesis
    using assms by (auto simp: call_env_def link_start_def split: res.split prod.split option.split)
qed (use assms in \<open>simp_all add: call_env_def\<close>)

lemma sound_registry:
  assumes "fixed h0 h" and "read_request rq = Ok (msg, sig, c)"
  shows "sound_pc H h0 en rq (snd (run_registry en rq msg sig c aid h))"
proof -
  have "verified_call h0 en rq i" if "snd (Registry_Verify no_panics (enWall en) (enRegistryRnd en)
      (hRegistry h (hDemoWallets h)) c msg sig (hub_opts en (rqCookie rq) aid h)) = Ok i" for i
    using that assms unfolding verified_call_def hub_opts_fixed [OF assms(1)] fixed_def by metis
  then show ?thesis by (simp add: run_registry_def Let_def)
qed

lemma sound_step:
  assumes "fixed h0 h" and "sound_task H h0 (c, p)"
  shows "sound_task H h0 (c, snd (task_step H c (h, p)))"
  unfolding sound_task_def
proof (intro allI impI)
  fix en rq assume "call_env (fst (c, snd (task_step H c (h, p)))) = Some (en, rq)"
  then have ce: "call_env c = Some (en, rq)" by simp
  then have p: "sound_pc H h0 en rq p" using assms(2) by (simp add: sound_task_def)
  from ce have c: "c = CallVerify en rq \<or> c = CallLink2 en rq" by (auto simp: call_env_def split: hub_call.splits)
  show "sound_pc H h0 en rq (snd (c, snd (task_step H c (h, p))))"
  proof (cases p)
    case AtStart
    then show ?thesis using sound_start [OF ce] by simp
  next
    case (AtVerify msg sig m aid)
    then show ?thesis using c p sound_registry [OF assms(1)] by auto
  next
    case (AtReport es res aid)
    then show ?thesis
      using c p by (cases es) (auto simp: verify_verdict_def link_verdict_def intro!: exI
          split: res.splits prod.splits option.splits)
  next
    case (AtUpsert i cs)
    then show ?thesis
      using c p by (auto simp: verify_upsert_def verified_id_def split: prod.splits res.splits)
        (metis fst_conv)+
  next
    case (AtWallets i cs)
    then show ?thesis using c p by (auto simp: verify_wallets_def split: res.split)
  next
    case (AtToken i ws cs)
    then show ?thesis
      using c p assms(1) by (auto simp: verify_token_def fixed_def split: sum.split)
  next
    case (Done r)
    then show ?thesis using p by simp
  qed
qed

lemma interleaved_sound:
  "interleaved H h0 h ts tr \<Longrightarrow> fixed h0 h \<and> (\<forall>t \<in> set ts. sound_task H h0 t)"
proof (induction rule: interleaved.induct)
  case (moves h ts tr i c p h' p')
  have "(c, p) \<in> set ts" using moves.hyps(2,3) by (metis nth_mem)
  then have "sound_task H h0 (c, p')" "fixed h0 h'"
    using sound_step [of h0 h H c p] step_fixed [of h0 h H c p] moves.IH moves.hyps(4) by auto
  then show ?case using moves.IH set_update_subset_insert [of ts i "(c, p')"] by blast
qed (auto simp: fixed_def sound_task_def)

text \<open>What a verified call means for each chain: the account \<open>acc\<close> has signed a message for the
  site and the nonce that is valid at \<open>t\<close>.\<close>

definition authentic ::
  "ed_verify \<Rightarrow> SiweLib \<Rightarrow> (demo_wallets option \<Rightarrow> Resolver option) \<Rightarrow> bytes \<Rightarrow> instant \<Rightarrow> request \<Rightarrow> CAIP10 \<Rightarrow> bool" where
  "authentic ed L R site t rq acc \<longleftrightarrow>
     (\<exists>msg sig c. read_request rq = Ok (msg, sig, c) \<and>
        (cNamespace c = ''solana''
           \<and> (\<exists>m. solana_verified ed site (rqCookie rq) t msg sig m \<and> acc = idAccount (solana_identity m))
         \<or> cNamespace c = ''eip155''
           \<and> (\<exists>m d. evm_verified L (R d) site (rqCookie rq) t msg sig m \<and> acc = idAccount (evm_identity L m))))"

lemma verified_call_authentic:
  assumes "hub_registry pick ed L R h0" and "verified_call h0 en rq i" and "enWall en = (\<lambda>_. t)"
  shows "authentic ed L R (hDomain h0) t rq (idAccount i)"
proof -
  from assms(2) obtain msg sig c aid d where rd: "read_request rq = Ok (msg, sig, c)"
    and ok: "snd (Registry_Verify no_panics (enWall en) (enRegistryRnd en)
        (both_verifiers no_panics pick ed L (R d)) c msg sig (hub_opts en (rqCookie rq) aid h0)) = Ok i"
    using assms(1) unfolding verified_call_def hub_registry_def by metis
  obtain b where ok: "snd (Registry_Verify no_panics (enWall en) (Some b)
      (both_verifiers no_panics pick ed L (R d)) c msg sig (hub_opts en (rqCookie rq) aid h0)) = Ok i"
  proof (cases "enRegistryRnd en")
    case None
    have "aid \<noteq> []"
    proof
      assume "aid = []"
      then have "snd (Registry_Verify no_panics (enWall en) None
        (both_verifiers no_panics pick ed L (R d)) c msg sig (hub_opts en (rqCookie rq) aid h0)) = Panic"
        by (simp add: Registry_Verify_def default_attempt_def default_clock_def default_observer_def
            hub_opts_def newAttemptID_def bind_run_def lift_run_def)
      with ok None show False by simp
    qed
    then have "Registry_Verify no_panics (enWall en) None (both_verifiers no_panics pick ed L (R d)) c msg sig
        (hub_opts en (rqCookie rq) aid h0) = Registry_Verify no_panics (enWall en) (Some [])
        (both_verifiers no_panics pick ed L (R d)) c msg sig (hub_opts en (rqCookie rq) aid h0)"
      by (intro Registry_Verify_rnd) simp
    then show ?thesis using that [of "[]"] ok None by simp
  qed (use that ok in simp)
  consider "cNamespace c = ''solana''" | "cNamespace c = ''eip155''" | "cNamespace c \<notin> {''solana'', ''eip155''}" by blast
  then show ?thesis
  proof cases
    case 1
    then show ?thesis using ok rd unfolding hub_solana_verdict [OF 1 assms(3)] authentic_def by blast
  next
    case 2
    then show ?thesis using ok rd unfolding hub_evm_verdict [OF 2] authentic_def by (auto simp: assms(3))
  next
    case 3
    then show ?thesis using ok other_dispatch [OF 3, of no_panics "hub_opts en (rqCookie rq) aid h0"] by simp
  qed
qed

section \<open>Properties\<close>


text \<open>A handler that runs alone is an interleaving.\<close>

lemma interleaved_alone:
  "\<exists>tr. interleaved H h0 (fst ((task_step H c ^^ k) (h0, AtStart))) [(c, snd ((task_step H c ^^ k) (h0, AtStart)))] tr"
proof (induction k)
  case 0
  show ?case using interleaved.arrives [OF interleaved.initial, of H h0 c] by auto
next
  case (Suc k)
  then obtain tr where i: "interleaved H h0 (fst ((task_step H c ^^ k) (h0, AtStart)))
      [(c, snd ((task_step H c ^^ k) (h0, AtStart)))] tr" by blast
  have step: "task_step H c (fst ((task_step H c ^^ k) (h0, AtStart)), snd ((task_step H c ^^ k) (h0, AtStart)))
      = (fst ((task_step H c ^^ Suc k) (h0, AtStart)), snd ((task_step H c ^^ Suc k) (h0, AtStart)))" by simp
  from interleaved.moves [OF i _ _ step, of 0]
  have "interleaved H h0 (fst ((task_step H c ^^ Suc k) (h0, AtStart)))
      [(c, snd ((task_step H c ^^ Suc k) (h0, AtStart)))]
      (tr @ (if snd ((task_step H c ^^ k) (h0, AtStart)) = AtStart
             then hub_events (fst ((task_step H c ^^ k) (h0, AtStart))) c else []))"
    by (simp del: funpow.simps)
  then show ?case by blast
qed

lemma interleaved_exec: "\<exists>tr. interleaved H h0 (snd (hub_exec H h0 c)) [(c, Done (fst (hub_exec H h0 c)))] tr"
proof -
  obtain k where k: "(task_step H c ^^ k) (h0, AtStart) = (snd (hub_exec H h0 c), Done (fst (hub_exec H h0 c)))"
    using task_runs_exec [of H c h0] by (auto simp: task_runs_def)
  from interleaved_alone [where H = H and ?h0.0 = h0 and c = c and k = k] show ?thesis unfolding k by simp
qed


end
