(* ===== verification/HubMetrics.thy ===== *)
theory HubMetrics
  imports HubInterleaving Metrics
begin

text \<open>
  What the counters on the metrics page of \<open>examples/hub/observe.go\<close> count, however requests
  interleave: each counter that the handlers increment is the number of the replies it stands
  for, modulo \<open>2 ^ 64\<close>. The proof charges every increment to the one step of the one task that
  gives the reply.
\<close>

abbreviation hub_counters :: "hub \<Rightarrow> counters" where
  "hub_counters h \<equiv> rcCounters (hRecorder h)"

definition is_nonce_reply :: "hub_call \<times> reply \<Rightarrow> bool" where
  "is_nonce_reply x \<longleftrightarrow> (case snd (snd x) of NonceBody n d \<Rightarrow> True | _ \<Rightarrow> False)"

definition is_session_reply :: "hub_call \<times> reply \<Rightarrow> bool" where
  "is_session_reply x \<longleftrightarrow> (case snd (snd x) of VerifyBody v \<Rightarrow> True | _ \<Rightarrow> False)"

lemma is_reply_simps [simp]:
  "is_nonce_reply (c, ck, NonceBody n d)" "is_session_reply (c, ck, VerifyBody v)"
  "\<not> is_nonce_reply (c, ck, VerifyBody v)" "\<not> is_session_reply (c, ck, NonceBody n d)"
  "\<not> is_nonce_reply (c, ck, ErrorBody k t)" "\<not> is_session_reply (c, ck, ErrorBody k t)"
  "\<not> is_nonce_reply (c, ck, ProblemBody q)" "\<not> is_session_reply (c, ck, ProblemBody q)"
  "\<not> is_nonce_reply (c, ck, ConfigBody b1 b2 i b)" "\<not> is_session_reply (c, ck, ConfigBody b1 b2 i b)"
  "\<not> is_nonce_reply (c, ck, WalletBody b1 b2)" "\<not> is_session_reply (c, ck, WalletBody b1 b2)"
  "\<not> is_nonce_reply (c, ck, LinkedBody b1)" "\<not> is_session_reply (c, ck, LinkedBody b1)"
  "\<not> is_nonce_reply (c, ck, JWKSBody ks)" "\<not> is_session_reply (c, ck, JWKSBody ks)"
  "\<not> is_nonce_reply (c, ck, Recovered)" "\<not> is_session_reply (c, ck, Recovered)"
  by (simp_all add: is_nonce_reply_def is_session_reply_def)

text \<open>A task that has replied, with a reply of the kind \<open>Q\<close>.\<close>

fun replied :: "(hub_call \<times> reply \<Rightarrow> bool) \<Rightarrow> task \<Rightarrow> bool" where
  "replied Q (c, Done r) \<longleftrightarrow> Q (c, r)"
| "replied Q (c, p) \<longleftrightarrow> False"

lemma replies_replied: "length (filter Q (replies ts)) = length (filter (replied Q) ts)"
proof -
  have "replied Q = (\<lambda>(c, p). \<exists>r. p = Done r \<and> Q (c, r))"
  proof (rule ext)
    fix t show "replied Q t = (case t of (c, p) \<Rightarrow> \<exists>r. p = Done r \<and> Q (c, r))"
      by (cases t; cases "snd t") auto
  qed
  then show ?thesis by (simp add: filter_replies)
qed

section \<open>One step\<close>

lemma rec_event_issued [simp]:
  "noncesIssued (rcCounters (rec_event etext r e)) = noncesIssued (rcCounters r)"
  "tokensIssued (rcCounters (rec_event etext r e)) = tokensIssued (rcCounters r)"
  "nonceBurned (rcCounters (rec_event etext r e)) = nonceBurned (rcCounters r)"
  by (cases e; simp add: incAttempts_def incCheckFailed_def incFailure_def buffer_check_def split: option.split)+

lemma rec_events_issued [simp]:
  "noncesIssued (rcCounters (rec_events etext r es)) = noncesIssued (rcCounters r)"
  "tokensIssued (rcCounters (rec_events etext r es)) = tokensIssued (rcCounters r)"
  "nonceBurned (rcCounters (rec_events etext r es)) = nonceBurned (rcCounters r)"
  by (induction es arbitrary: r) simp_all

lemma start_counted:
  assumes "task_step H c (h, AtStart) = (h', p')"
  shows "noncesIssued (hub_counters h') = noncesIssued (hub_counters h) + of_bool (replied is_nonce_reply (c, p'))
     \<and> tokensIssued (hub_counters h') = tokensIssued (hub_counters h) + of_bool (replied is_session_reply (c, p'))"
  using assms
  by (cases c)
     (auto simp: verify_start_def link_start_def getNonce_def getConfig_def getJWKS_def postRegisterContractWallet_def
       problem_reply_def incNonceIssued_def incNonceBurned_def Let_def
       split: res.splits prod.splits option.splits if_splits)

lemma later_counted:
  assumes "task_step H c (h, p) = (h', p')" and "p \<noteq> AtStart" and "\<And>r. p \<noteq> Done r"
  shows "noncesIssued (hub_counters h') = noncesIssued (hub_counters h) + of_bool (replied is_nonce_reply (c, p'))
     \<and> tokensIssued (hub_counters h') = tokensIssued (hub_counters h) + of_bool (replied is_session_reply (c, p'))"
  using assms
  by (cases "(H, c, h, p)" rule: task_step.cases)
     (auto simp: step_defs report_event_def problem_reply_def incTokensIssued_def DrainChecks_def Let_def
       split: res.splits prod.splits option.splits sum.splits if_splits)

text \<open>A step raises a counter exactly when the task gives the reply it counts.\<close>

lemma step_counted:
  assumes "task_step H c (h, p) = (h', p')"
  shows "noncesIssued (hub_counters h') + of_bool (replied is_nonce_reply (c, p))
       = noncesIssued (hub_counters h) + of_bool (replied is_nonce_reply (c, p'))"
    and "tokensIssued (hub_counters h') + of_bool (replied is_session_reply (c, p))
       = tokensIssued (hub_counters h) + of_bool (replied is_session_reply (c, p'))"
proof -
  consider "p = AtStart" | r where "p = Done r" | "p \<noteq> AtStart" "\<And>r. p \<noteq> Done r" by blast
  then have "noncesIssued (hub_counters h') + of_bool (replied is_nonce_reply (c, p))
       = noncesIssued (hub_counters h) + of_bool (replied is_nonce_reply (c, p'))
     \<and> tokensIssued (hub_counters h') + of_bool (replied is_session_reply (c, p))
       = tokensIssued (hub_counters h) + of_bool (replied is_session_reply (c, p'))"
  proof cases
    case 1
    then show ?thesis using start_counted assms by simp
  next
    case 2
    then show ?thesis using assms by simp
  next
    case 3
    then have "\<not> replied Q (c, p)" for Q by (cases p) auto
    then show ?thesis using later_counted [OF assms 3] by simp
  qed
  then show "noncesIssued (hub_counters h') + of_bool (replied is_nonce_reply (c, p))
       = noncesIssued (hub_counters h) + of_bool (replied is_nonce_reply (c, p'))"
    "tokensIssued (hub_counters h') + of_bool (replied is_session_reply (c, p))
       = tokensIssued (hub_counters h) + of_bool (replied is_session_reply (c, p'))" by blast+
qed

text \<open>The same for the number of tasks that have replied.\<close>

lemma count_update:
  assumes "i < length ts" and "ts ! i = t"
  shows "(of_nat (length (filter P (ts[i := t']))) :: 64 word) + of_bool (P t)
     = of_nat (length (filter P ts)) + of_bool (P t')"
  using arg_cong [OF filter_update [OF assms(1), of P t'], of "of_nat :: nat \<Rightarrow> 64 word"] assms(2)
  by (simp add: of_bool_def split: if_splits)

lemma counter_moves:
  fixes a a' x y d d' :: "64 word"
  assumes "a' + d = a + d'" and "y + d = x + d'" and "a = b + x"
  shows "a' = b + y"
  using assms by (metis add.assoc add_right_cancel)

lemma interleaved_counted:
  "interleaved H h0 h ts tr \<Longrightarrow>
     noncesIssued (hub_counters h) = noncesIssued (hub_counters h0) + of_nat (length (filter (replied is_nonce_reply) ts))
     \<and> tokensIssued (hub_counters h) = tokensIssued (hub_counters h0) + of_nat (length (filter (replied is_session_reply) ts))"
proof (induction rule: interleaved.induct)
  case (moves h ts tr i c p h' p')
  note cu = count_update [OF moves.hyps(2,3)]
  from moves.IH show ?case
    using counter_moves [OF step_counted(1) [OF moves.hyps(4)] cu]
      counter_moves [OF step_counted(2) [OF moves.hyps(4)] cu] by blast
qed simp_all

section \<open>Properties\<close>



text \<open>The counter of burned nonces leaves out the nonces that linking burns: \<open>POST /auth/link\<close>
  never changes it, although it takes the presented nonce out of the store.\<close>

lemma hub_verify_burned_count:
  "hub_verify H en c msg sig n aid h = (r, h') \<Longrightarrow> nonceBurned (hub_counters h') = nonceBurned (hub_counters h)"
  by (auto simp: hub_verify_def Let_def)

theorem link_burns_uncounted:
  "nonceBurned (hub_counters (snd (postLink H en rq h))) = nonceBurned (hub_counters h)"
  "accepted (snd (fst (postLink H en rq h))) \<Longrightarrow>
     nsEntries (hNonces h) (rqCookie rq) \<noteq> None \<and> nsEntries (hNonces (snd (postLink H en rq h))) (rqCookie rq) = None"
proof -
  show "nonceBurned (hub_counters (snd (postLink H en rq h))) = nonceBurned (hub_counters h)"
    by (auto simp: postLink_def problem_reply_def Let_def dest!: hub_verify_burned_count
        split: res.split prod.split option.split)
  show "nsEntries (hNonces h) (rqCookie rq) \<noteq> None \<and> nsEntries (hNonces (snd (postLink H en rq h))) (rqCookie rq) = None"
    if "accepted (snd (fst (postLink H en rq h)))"
    using postLink_accepted [OF that]
    by (auto simp: postLink_nonces presents_def Burn_removes Burn_def Let_def split: res.splits if_splits option.splits)
qed

end
