(* ===== verification/HubBounds.thy ===== *)
theory HubBounds
  imports HubInterleaving
begin

text \<open>
  How much the nonce store of \<open>examples/hub/stores.go\<close> holds: every issue sweeps the expired
  nonces first, so right after it the store holds no more nonces than were handed out within
  the time to live, however many requests came before and however they interleaved.
\<close>

text \<open>A request for a nonce that has been answered, with the nonce and its deadline.\<close>

fun issued_entry :: "task \<Rightarrow> (bytes \<times> instant) option" where
  "issued_entry (CallNonce en, Done r) =
     map_option (\<lambda>b. (hex_EncodeToString b, enTime en 1 + nonceTTL)) (enNonceRnd en)"
| "issued_entry t = None"

definition unexpired :: "instant \<Rightarrow> task \<Rightarrow> bool" where
  "unexpired now t \<longleftrightarrow> (case issued_entry t of None \<Rightarrow> False | Some (n, d) \<Rightarrow> now \<le> d)"

text \<open>Every entry of the store comes from one of the tasks.\<close>

definition entries_from :: "task list \<Rightarrow> hub \<Rightarrow> bool" where
  "entries_from ts h \<longleftrightarrow>
     (\<forall>n d. nsEntries (hNonces h) n = Some d \<longrightarrow> Some (n, d) \<in> issued_entry ` set ts)"

lemma entries_fromD:
  "entries_from ts h \<Longrightarrow> nsEntries (hNonces h) n = Some d \<Longrightarrow> \<exists>t \<in> set ts. issued_entry t = Some (n, d)"
  by (force simp: entries_from_def)

lemma issued_entry_Done: "issued_entry (c, p) = Some x \<Longrightarrow> \<exists>r. p = Done r"
  by (cases p; cases c) auto

lemma issued_kept:
  assumes "i < length ts" and "ts ! i = (c, p)" and "task_step H c (h, p) = (h', p')"
    and "t \<in> set ts" and "issued_entry t = Some x"
  shows "t \<in> set (ts[i := (c, p')])"
proof (cases "t = (c, p)")
  case True
  then have "p' = p" using issued_entry_Done [of c p x] assms(3,5) by auto
  then show ?thesis using assms(2,4) by (metis list_update_id)
next
  case False
  then obtain k where "k < length ts" "ts ! k = t" "k \<noteq> i" using assms(2,4) by (auto simp: in_set_conv_nth)
  then show ?thesis by (auto simp: in_set_conv_nth intro!: exI [of _ k])
qed

lemma start_entries:
  assumes "task_step H c (h, AtStart) = (h', p')" and "nsEntries (hNonces h') n = Some d"
  shows "nsEntries (hNonces h) n = Some d \<or> issued_entry (c, p') = Some (n, d)"
proof (cases "\<exists>en. c = CallNonce en")
  case True
  then show ?thesis
    using assms by (auto simp: getNonce_def Issue_def Let_def sweep_lookup split: option.splits if_splits)
next
  case False
  have "hNonces h' = hNonces (snd (hub_exec H h c))" using start_nonces [of H c h] assms(1) by simp
  then have "nsEntries (hNonces h') \<subseteq>\<^sub>m nsEntries (hNonces h)"
    using False Burn_subset
    by (cases c) (auto simp: postVerify_nonces postLink_nonces getConfig_def getJWKS_def
        postRegisterContractWallet_def Let_def split: option.split prod.split)
  then show ?thesis using assms(2) by (auto simp: map_le_def dom_def)
qed

lemma step_entries:
  assumes "entries_from ts h" and "i < length ts" and "ts ! i = (c, p)" and "task_step H c (h, p) = (h', p')"
  shows "entries_from (ts[i := (c, p')]) h'"
  unfolding entries_from_def
proof (intro allI impI)
  fix n d assume e: "nsEntries (hNonces h') n = Some d"
  have "nsEntries (hNonces h) n = Some d \<or> issued_entry (c, p') = Some (n, d)"
  proof (cases "p = AtStart")
    case True
    then show ?thesis using start_entries assms(4) e by blast
  next
    case False
    then show ?thesis using later_nonces [of p H c h] assms(4) e by simp
  qed
  then show "Some (n, d) \<in> issued_entry ` set (ts[i := (c, p')])"
  proof
    assume "nsEntries (hNonces h) n = Some d"
    from entries_fromD [OF assms(1) this] obtain t where "t \<in> set ts" "issued_entry t = Some (n, d)" by blast
    with issued_kept [OF assms(2,3,4)] show ?thesis by (metis imageI)
  next
    assume "issued_entry (c, p') = Some (n, d)"
    then show ?thesis using assms(2) by (metis imageI set_update_memI)
  qed
qed

lemma interleaved_entries:
  assumes "interleaved H h0 h ts tr" and "hNonces h0 = newNonceStore"
  shows "entries_from ts h"
  using assms(1)
proof (induction rule: interleaved.induct)
  case initial
  then show ?case by (simp add: entries_from_def assms(2) newNonceStore_def)
next
  case (moves h ts tr i c p h' p')
  then show ?case using step_entries by blast
qed (auto simp: entries_from_def)

lemma few_entries:
  assumes "entries_from ts h" and "\<And>n d. nsEntries (hNonces h) n = Some d \<Longrightarrow> now \<le> d"
  shows "card (dom (nsEntries (hNonces h))) \<le> length (filter (unexpired now) ts)"
proof -
  let ?live = "filter (unexpired now) ts"
  have "dom (nsEntries (hNonces h)) \<subseteq> (\<lambda>t. fst (the (issued_entry t))) ` set ?live"
  proof
    fix n assume "n \<in> dom (nsEntries (hNonces h))"
    then obtain d where d: "nsEntries (hNonces h) n = Some d" by blast
    with entries_fromD [OF assms(1)] obtain t where t: "t \<in> set ts" "issued_entry t = Some (n, d)" by blast
    then have "t \<in> set ?live" using assms(2) [OF d] by (simp add: unexpired_def)
    with t(2) show "n \<in> (\<lambda>t. fst (the (issued_entry t))) ` set ?live" by (intro image_eqI [of _ _ t]) simp_all
  qed
  then have "card (dom (nsEntries (hNonces h))) \<le> card ((\<lambda>t. fst (the (issued_entry t))) ` set ?live)"
    by (rule card_mono [rotated]) simp
  also have "\<dots> \<le> card (set ?live)" by (rule card_image_le) simp
  also have "\<dots> \<le> length ?live" by (rule card_length)
  finally show ?thesis .
qed

section \<open>Properties\<close>

text \<open>C20. The nonce store does not grow with the history: however requests interleave on a store that
  was new, right after a nonce is issued the store holds at most as many nonces as requests
  have been answered whose nonce has not expired at that moment.\<close>

theorem nonce_store_bounded:
  assumes "interleaved H h0 h ts tr" and "hNonces h0 = newNonceStore"
    and "i < length ts" and "ts ! i = (CallNonce en, AtStart)" and "enNonceRnd en = Some b"
    and "enTime en 0 \<le> enTime en 1" and "task_step H (CallNonce en) (h, AtStart) = (h', p')"
  shows "card (dom (nsEntries (hNonces h'))) \<le> length (filter (unexpired (enTime en 0)) (ts[i := (CallNonce en, p')]))"
proof (rule few_entries)
  show "entries_from (ts[i := (CallNonce en, p')]) h'"
    by (rule step_entries [OF interleaved_entries [OF assms(1,2)] assms(3,4,7)])
  fix n d assume "nsEntries (hNonces h') n = Some d"
  then show "enTime en 0 \<le> d"
    using assms(5,6,7)
    by (auto simp: getNonce_def Issue_def Let_def sweep_lookup nonceTTL_def split: if_splits)
qed

text \<open>A request whose clock stands eleven minutes after an earlier one finds the earlier nonce
  expired, and one nonce in the store after it.\<close>

definition late_env :: env where
  "late_env = sample_env\<lparr>enTime := (\<lambda>_. 50 + 11 * 60 * 1000000000), enNonceRnd := Some ''z''\<rparr>"

theorem nonce_store_bounded_witness:
  "card (dom (nsEntries (hNonces (fst (task_step sample_hub_lib (CallNonce late_env)
     (fst (task_step sample_hub_lib (CallNonce sample_env) (fresh_hub, AtStart)), AtStart)))))) \<le> 1"
proof -
  let ?c = "CallNonce sample_env"
  let ?l = "CallNonce late_env"
  obtain h1 p1 where s1: "task_step sample_hub_lib ?c (fresh_hub, AtStart) = (h1, p1)" by fastforce
  obtain h2 p2 where s2: "task_step sample_hub_lib ?l (h1, AtStart) = (h2, p2)" by fastforce
  have "interleaved sample_hub_lib fresh_hub fresh_hub [(?c, AtStart), (?l, AtStart)] []"
    using interleaved.arrives [OF interleaved.arrives [OF interleaved.initial]] by simp
  from interleaved.moves [OF this _ _ s1, of 0]
  have i: "interleaved sample_hub_lib fresh_hub h1 [(?c, p1), (?l, AtStart)] (hub_events fresh_hub ?c)" by simp
  have "card (dom (nsEntries (hNonces h2))) \<le> length (filter (unexpired (enTime late_env 0)) ([(?c, p1), (?l, AtStart)][1 := (?l, p2)]))"
    by (rule nonce_store_bounded [OF i _ _ _ _ _ s2, where b = "''z''"]) (simp_all add: fresh_hub_def late_env_def)
  moreover have "\<not> unexpired (enTime late_env 0) (?c, p1)"
    by (cases p1) (simp_all add: unexpired_def late_env_def sample_env_def nonceTTL_def)
  ultimately show ?thesis using s1 s2 by (simp split: if_splits)
qed

end
