(* ===== verification/JwksSteps.thy ===== *)
theory JwksSteps
  imports JwtMiddleware
begin

text \<open>
  The key cache of \<open>examples/middleware/jwt.go\<close> as it really runs: \<open>get\<close> and \<open>refresh\<close> hold
  the lock for the two lookups and for storing a document, and release it for the fetch, so
  that requests which miss the same key fetch it at the same time. A getter is a request with
  the point its call of \<open>get\<close> has reached.
\<close>

datatype getter =
    Looking
  | Missed
  | Fetching
  | Storing "raw_jwk list"
  | Returned "gerror + PublicKey"

text \<open>The section that stores a document and looks again.\<close>

definition jwks_store :: "bytes \<Rightarrow> raw_jwk list \<Rightarrow> jwksCache \<Rightarrow> (gerror + PublicKey) \<times> jwksCache" where
  "jwks_store kid doc c =
     (let c = c\<lparr>jcKeys := jcKeys c ++ fetched_keys doc Map.empty\<rparr> in
      (case jcKeys c kid of Some k \<Rightarrow> (Inr k, c) | None \<Rightarrow> (Inl (unknown_kid kid), c)))"

definition jwks_lookup :: "bytes \<Rightarrow> getter \<Rightarrow> jwksCache \<Rightarrow> getter" where
  "jwks_lookup kid miss c = (case jcKeys c kid of Some k \<Rightarrow> Returned (Inr k) | None \<Rightarrow> miss)"

fun getter_step :: "fetch \<Rightarrow> bytes \<Rightarrow> jwksCache \<times> getter \<Rightarrow> jwksCache \<times> getter" where
  "getter_step fetch kid (c, Looking) = (c, jwks_lookup kid Missed c)"
| "getter_step fetch kid (c, Missed) = (c, jwks_lookup kid Fetching c)"
| "getter_step fetch kid (c, Fetching) =
     (case fetch (jcURL c) of
        Inl err \<Rightarrow> (c, Returned (Inl err))
      | Inr doc \<Rightarrow> (c, Storing doc))"
| "getter_step fetch kid (c, Storing doc) =
     (case jwks_store kid doc c of (r, c) \<Rightarrow> (c, Returned r))"
| "getter_step fetch kid (c, Returned r) = (c, Returned r)"

text \<open>Alone, a getter is \<open>jwks_get\<close>.\<close>

lemma getter_alone:
  "(getter_step fetch kid ^^ 4) (c, Looking) =
     (snd (jwks_get fetch kid c), Returned (fst (jwks_get fetch kid c)))"
  by (cases "jcKeys c kid"; cases "fetch (jcURL c)")
     (auto simp: numeral_eq_Suc jwks_lookup_def jwks_store_def jwks_get_def jwks_refresh_def Let_def
       split: option.split)

text \<open>Many getters, each for a key id of its own, and the answers the endpoint gives them.\<close>

inductive getters :: "(raw_jwk list \<Rightarrow> bool) \<Rightarrow> jwksCache \<Rightarrow> jwksCache \<Rightarrow> (bytes \<times> getter) list \<Rightarrow> bool"
  for published c0 where
  no_getters: "getters published c0 c0 []"
| getter_arrives: "getters published c0 c gs \<Longrightarrow> getters published c0 c (gs @ [(kid, Looking)])"
| getter_moves: "getters published c0 c gs \<Longrightarrow> i < length gs \<Longrightarrow> gs ! i = (kid, g) \<Longrightarrow>
    (\<forall>doc. fetch (jcURL c) = Inr doc \<longrightarrow> published doc) \<Longrightarrow>
    getter_step fetch kid (c, g) = (c', g') \<Longrightarrow>
    getters published c0 c' (gs[i := (kid, g')])"

definition published_key :: "(raw_jwk list \<Rightarrow> bool) \<Rightarrow> jwksCache \<Rightarrow> bytes \<Rightarrow> PublicKey \<Rightarrow> bool" where
  "published_key published c0 kid k \<longleftrightarrow>
     jcKeys c0 kid = Some k \<or> (\<exists>doc. published doc \<and> fetched_keys doc Map.empty kid = Some k)"

text \<open>What the cache holds, and what the getters carry, was published under that key id.\<close>

definition getter_ok :: "(raw_jwk list \<Rightarrow> bool) \<Rightarrow> jwksCache \<Rightarrow> jwksCache \<Rightarrow> bytes \<times> getter \<Rightarrow> bool" where
  "getter_ok published c0 c x \<longleftrightarrow>
     (\<forall>doc. snd x = Storing doc \<longrightarrow> published doc)
     \<and> (\<forall>k. snd x = Returned (Inr k) \<longrightarrow> published_key published c0 (fst x) k \<and> jcKeys c (fst x) \<noteq> None)"

definition cache_ok :: "(raw_jwk list \<Rightarrow> bool) \<Rightarrow> jwksCache \<Rightarrow> jwksCache \<Rightarrow> bool" where
  "cache_ok published c0 c \<longleftrightarrow> (\<forall>kid k. jcKeys c kid = Some k \<longrightarrow> published_key published c0 kid k)"

lemma getter_step_grows:
  "getter_step fetch kid (c, g) = (c', g') \<Longrightarrow> jcKeys c j \<noteq> None \<Longrightarrow> jcKeys c' j \<noteq> None"
  by (cases g)
     (auto simp: jwks_store_def Let_def map_add_def split: sum.splits option.splits)

lemma getter_step_ok:
  assumes "cache_ok published c0 c" and "getter_ok published c0 c (kid, g)"
    and "\<forall>doc. fetch (jcURL c) = Inr doc \<longrightarrow> published doc"
    and "getter_step fetch kid (c, g) = (c', g')"
  shows "cache_ok published c0 c' \<and> getter_ok published c0 c' (kid, g')"
proof (cases g)
  case (Storing doc)
  define K where "K = jcKeys c ++ fetched_keys doc Map.empty"
  have keys: "published_key published c0 j k" if "K j = Some k" for j k
    using that assms(1,2) Storing unfolding K_def
    by (auto simp: cache_ok_def getter_ok_def published_key_def map_add_Some_iff)
  have "c' = c\<lparr>jcKeys := K\<rparr>" "g' = Returned (case K kid of Some k \<Rightarrow> Inr k | None \<Rightarrow> Inl (unknown_kid kid))"
    using assms(4) by (simp_all add: Storing jwks_store_def Let_def K_def [symmetric] split: option.splits)
  then show ?thesis using keys by (auto simp: cache_ok_def getter_ok_def split: option.splits)
qed (use assms in \<open>auto simp: cache_ok_def getter_ok_def jwks_lookup_def split: sum.splits option.splits\<close>)

lemma getters_invariant:
  "getters published c0 c gs \<Longrightarrow> cache_ok published c0 c \<and> (\<forall>x \<in> set gs. getter_ok published c0 c x)"
proof (induction rule: getters.induct)
  case (getter_moves c gs i kid g fetch c' g')
  have "(kid, g) \<in> set gs" using getter_moves.hyps(2,3) by (metis nth_mem)
  then have step: "cache_ok published c0 c' \<and> getter_ok published c0 c' (kid, g')"
    using getter_step_ok [OF _ _ getter_moves.hyps(4,5)] getter_moves.IH by blast
  have "getter_ok published c0 c' x" if "x \<in> set gs" for x
    using getter_moves.IH that getter_step_grows [OF getter_moves.hyps(5), of "fst x"]
    unfolding getter_ok_def by blast
  then show ?case using step set_update_subset_insert [of gs i "(kid, g')"] by blast
qed (auto simp: cache_ok_def getter_ok_def published_key_def)

section \<open>Properties\<close>

text \<open>C36. However requests interleave, the middleware only ever uses keys that the endpoint
  published: the key a request gets for a key id was in a document of the endpoint under that
  id, or in the cache at the start, and from then on the cache holds a key for it.\<close>

theorem keys_are_published:
  assumes "getters published c0 c gs" and "(kid, Returned (Inr k)) \<in> set gs"
  shows "(jcKeys c0 kid = Some k \<or> (\<exists>doc. published doc \<and> fetched_keys doc Map.empty kid = Some k))
     \<and> jcKeys c kid \<noteq> None"
  using getters_invariant [OF assms(1)] assms(2) by (fastforce simp: getter_ok_def published_key_def)

theorem keys_are_published_witness:
  "jcKeys (snd (jwks_get sample_fetch mockKid (newJWKSCache ''u''))) mockKid \<noteq> None"
proof -
  let ?c = "newJWKSCache ''u''" and ?p = "\<lambda>doc. doc = map as_raw (issuer_JWKS sample_issuer)"
  define st where "st k = (getter_step sample_fetch mockKid ^^ k) (?c, Looking)" for k
  have get: "fst (jwks_get sample_fetch mockKid ?c) = Inr (skPublic (miKey sample_issuer))"
    using sample_issuer_cache [of "''u''"] by (intro jwks_get_issuer) (auto simp: issuer_cache_def)
  have run: "getters ?p ?c (fst (st k)) [(mockKid, snd (st k))]" for k
  proof (induction k)
    case 0
    show ?case using getter_arrives [OF no_getters, of ?p ?c mockKid] by (simp add: st_def)
  next
    case (Suc k)
    have step: "getter_step sample_fetch mockKid (fst (st k), snd (st k)) = (fst (st (Suc k)), snd (st (Suc k)))"
      by (simp add: st_def)
    have "\<forall>doc. sample_fetch (jcURL (fst (st k))) = Inr doc \<longrightarrow> ?p doc"
      unfolding sample_fetch_def by blast
    from getter_moves [OF Suc.IH _ _ this step, of 0] show ?case by (simp only: list_update_code) simp
  qed
  have "st 4 = (snd (jwks_get sample_fetch mockKid ?c), Returned (Inr (skPublic (miKey sample_issuer))))"
    unfolding st_def getter_alone get ..
  with run [of 4] have "getters ?p ?c (snd (jwks_get sample_fetch mockKid ?c))
      [(mockKid, Returned (Inr (skPublic (miKey sample_issuer))))]" by simp
  from keys_are_published [OF this, of mockKid] show ?thesis by simp
qed

end
