(* ===== verification/ValidatorCode.thy ===== *)
theory ValidatorCode
  imports GoHex GoStrings Codec
begin

text \<open>
  \<open>siwx/evm/erc6492.go\<close>, lines 28 to 68: what the package sets up when it starts. It decodes the
  embedded bytecode of the ERC-6492 validator, with \<open>hex.DecodeString\<close> of the standard library,
  and asks go-ethereum for the types of the constructor's arguments. The text of the embedded
  file and \<open>abi.NewType\<close> are parameters.
\<close>

section \<open>Decoding hexadecimal text\<close>

text \<open>\<open>reverseHexTable\<close>: both cases of the digits.\<close>

definition hex_value :: "byte \<Rightarrow> nat option" where
  "hex_value c =
     (let n = (of_char c :: nat) in
      if 48 \<le> n \<and> n \<le> 57 then Some (n - 48)
      else if 97 \<le> n \<and> n \<le> 102 then Some (n - 87)
      else if 65 \<le> n \<and> n \<le> 70 then Some (n - 55)
      else None)"

definition invalid_byte :: "byte \<Rightarrow> gerror" where
  "invalid_byte c = Errorf ''encoding/hex: invalid byte: %#U'' [[c]] []"

definition odd_length :: gerror where
  "odd_length = NewError ''encoding/hex: odd length hex string''"

fun hex_DecodeString :: "bytes \<Rightarrow> bytes res" where
  "hex_DecodeString [] = Ok []"
| "hex_DecodeString [p] = Err (if hex_value p = None then invalid_byte p else odd_length)"
| "hex_DecodeString (p # q # s) =
     (case hex_value p of
        None \<Rightarrow> Err (invalid_byte p)
      | Some a \<Rightarrow>
          (case hex_value q of
             None \<Rightarrow> Err (invalid_byte q)
           | Some b \<Rightarrow> bind_res (hex_DecodeString s) (\<lambda>t. Ok (char_of (16 * a + b) # t))))"

definition mustDecodeHex :: "bytes \<Rightarrow> bytes res" where
  "mustDecodeHex s =
     (case hex_DecodeString (trim_prefix (TrimSpace s) ''0x'') of
        Ok b \<Rightarrow> Ok b
      | _ \<Rightarrow> Panic)"

definition mustABIType :: "(bytes \<Rightarrow> gerror + 't) \<Rightarrow> bytes \<Rightarrow> 't res" where
  "mustABIType newType s = (case newType s of Inl _ \<Rightarrow> Panic | Inr t \<Rightarrow> Ok t)"

definition deploylessArgs :: "(bytes \<Rightarrow> gerror + 't) \<Rightarrow> 't list res" where
  "deploylessArgs newType =
     bind_res (mustABIType newType ''address'') (\<lambda>signer.
     bind_res (mustABIType newType ''bytes32'') (\<lambda>hash.
     bind_res (mustABIType newType ''bytes'') (\<lambda>signature. Ok [signer, hash, signature])))"

section \<open>What decodes\<close>

lemma hex_value_digit: "n < 16 \<Longrightarrow> hex_value (hex_digit n) = Some n"
  by (auto simp: hex_value_def hex_digit_def Let_def)

lemma hex_value_less: "hex_value c = Some n \<Longrightarrow> n < 16"
  by (auto simp: hex_value_def Let_def split: if_splits)

lemma hex_decode_encode: "hex_DecodeString (hex_EncodeToString b) = Ok b"
proof (induction b)
  case (Cons c b)
  have "16 * ((of_char c :: nat) div 16) + of_char c mod 16 = of_char c" by simp
  then show ?case
    using Cons nibbles [of c]
    by (simp add: hex_EncodeToString_def hex_value_digit)
qed (simp add: hex_EncodeToString_def)

lemma hex_decodes_iff:
  "(\<exists>b. hex_DecodeString s = Ok b) \<longleftrightarrow> even (length s) \<and> (\<forall>c \<in> set s. hex_value c \<noteq> None)"
  by (induction s rule: hex_DecodeString.induct) (auto simp: res_simps split: option.split)

lemma hex_decode_length: "hex_DecodeString s = Ok b \<Longrightarrow> length s = 2 * length b"
  by (induction s arbitrary: b rule: hex_DecodeString.induct) (auto simp: res_simps split: option.splits)

lemma hex_decode_not_panic: "hex_DecodeString s \<noteq> Panic"
  by (induction s rule: hex_DecodeString.induct) (auto simp: res_simps split: option.splits)

interpretation hex_codec: codec hex_EncodeToString hex_DecodeString "\<lambda>_. True"
  by unfold_locales (rule hex_decode_encode)

lemma space_not_graphic:
  assumes "p \<in> set space_texts"
  shows "p \<noteq> [] \<and> (of_char (hd p) :: nat) \<notin> {48..122} \<and> (of_char (last p) :: nat) \<notin> {48..122}"
  using assms by (auto simp: space_texts_def)

lemma no_space_prefix:
  assumes "(of_char c :: nat) \<in> {48..122}"
  shows "find (has_prefix (c # s)) space_texts = None"
proof -
  have "\<not> has_prefix (c # s) p" if "p \<in> set space_texts" for p
    using space_not_graphic [OF that] assms by (cases p) (auto simp: has_prefix_iff)
  then show ?thesis by (simp add: find_None_iff)
qed

lemma no_space_suffix:
  assumes "(of_char c :: nat) \<in> {48..122}"
  shows "find (has_suffix (s @ [c])) space_texts = None"
proof -
  have "\<not> has_suffix (s @ [c]) p" if "p \<in> set space_texts" for p
    using space_not_graphic [OF that] assms by (cases p rule: rev_cases) (auto simp: has_suffix_iff)
  then show ?thesis by (simp add: find_None_iff)
qed

lemma TrimSpace_line:
  assumes "(of_char c :: nat) \<in> {48..122}" and "(of_char d :: nat) \<in> {48..122}" and "c # s = t @ [d]"
  shows "TrimSpace ((c # s) @ [CHR 0x0A]) = c # s"
proof -
  have left: "trim_left_space ((c # s) @ [CHR 0x0A]) = (c # s) @ [CHR 0x0A]"
    using no_space_prefix [OF assms(1), of "s @ [CHR 0x0A]"] by (simp add: trim_left_space.simps [of "c # s @ [CHR 0x0A]"])
  have "find (has_suffix (t @ [d, CHR 0x0A])) space_texts = Some [CHR 0x0A]"
    by (simp add: space_texts_def has_suffix_iff)
  then have "trim_right_space (t @ [d, CHR 0x0A]) = trim_right_space (t @ [d])"
    by (subst trim_right_space.simps) simp
  also have "\<dots> = t @ [d]"
    using no_space_suffix [OF assms(2), of t] by (subst trim_right_space.simps) simp
  finally show ?thesis using left assms(3) by (simp add: TrimSpace_def)
qed

lemma hex_graphic: "d \<in> set (hex_EncodeToString b) \<Longrightarrow> (of_char d :: nat) \<in> {48..122}"
proof -
  have "(of_char (hex_digit n) :: nat) \<in> {48..122}" if "n < 16" for n
    using that by (auto simp: hex_digit_def)
  moreover assume "d \<in> set (hex_EncodeToString b)"
  ultimately show ?thesis using nibbles by (auto simp: hex_EncodeToString_def)
qed

lemma mustDecodeHex_file: "mustDecodeHex (''0x'' @ hex_EncodeToString b @ [CHR 0x0A]) = Ok b"
proof -
  obtain t d where td: "''0x'' @ hex_EncodeToString b = t @ [d]" and d: "(of_char d :: nat) \<in> {48..122}"
  proof (cases "hex_EncodeToString b" rule: rev_cases)
    case Nil
    then show ?thesis using that [of "''0''" "CHR ''x''"] by simp
  next
    case (snoc ys y)
    then show ?thesis using that [of "''0x'' @ ys" y] hex_graphic [of y b] by simp
  qed
  have zero: "(of_char (CHR ''0'') :: nat) \<in> {48..122}" by simp
  have "TrimSpace (''0x'' @ hex_EncodeToString b @ [CHR 0x0A]) = ''0x'' @ hex_EncodeToString b"
    using TrimSpace_line [of "CHR ''0''" d "''x'' @ hex_EncodeToString b" t, OF zero d] td
    by (metis append.assoc append_Cons append_Nil)
  then show ?thesis by (simp add: mustDecodeHex_def hex_decode_encode)
qed

text \<open>Whatever the embedded file holds, the package starts with the bytes it encodes or does not
  start: the result is right or a panic, never an error that is ignored.\<close>

theorem mustDecodeHex_iff:
  "mustDecodeHex s = Ok b \<longleftrightarrow> hex_DecodeString (trim_prefix (TrimSpace s) ''0x'') = Ok b"
  "mustDecodeHex s = Panic \<longleftrightarrow>
     odd (length (trim_prefix (TrimSpace s) ''0x'')) \<or> (\<exists>c \<in> set (trim_prefix (TrimSpace s) ''0x''). hex_value c = None)"
proof -
  show "mustDecodeHex s = Ok b \<longleftrightarrow> hex_DecodeString (trim_prefix (TrimSpace s) ''0x'') = Ok b"
    by (auto simp: mustDecodeHex_def split: res.split)
  have "mustDecodeHex s = Panic \<longleftrightarrow> (\<nexists>b. hex_DecodeString (trim_prefix (TrimSpace s) ''0x'') = Ok b)"
    by (auto simp: mustDecodeHex_def split: res.split)
  then show "mustDecodeHex s = Panic \<longleftrightarrow>
     odd (length (trim_prefix (TrimSpace s) ''0x'')) \<or> (\<exists>c \<in> set (trim_prefix (TrimSpace s) ''0x''). hex_value c = None)"
    unfolding hex_decodes_iff by auto
qed

text \<open>The package has its three argument types, in the order of the constructor, or does not start.\<close>

theorem deploylessArgs_iff:
  "deploylessArgs newType = Ok ts \<longleftrightarrow>
     map newType [''address'', ''bytes32'', ''bytes''] = map Inr ts"
  "deploylessArgs newType \<noteq> Err e"
  by (auto simp: deploylessArgs_def mustABIType_def split: sum.splits)

end
