(* ===== verification/EvmRpc.thy ===== *)
theory EvmRpc
  imports EvmAdapter Cache
begin

text \<open>
  \<open>siwx/evm/evmrpc/resolver.go\<close>: the resolver backed by RPC endpoints. Each chain has one
  client, which dials its endpoint at the first call and keeps the connection; its lock makes
  \<open>ethClient\<close> one step. \<open>dial\<close> is \<open>ethclient.DialContext\<close> at the time of the call and
  \<open>EthClient\<close> the methods of the connection that the code calls; a nil \<open>To\<close> is \<open>None\<close>.
\<close>

record EthClient =
  ecCallContract :: "bytes option \<Rightarrow> bytes \<Rightarrow> rpc"
  ecCodeAt :: "bytes \<Rightarrow> rpc"

type_synonym dial = "bytes \<Rightarrow> gerror + EthClient"

record rpc_client =
  rcUrl :: bytes
  rcEth :: "EthClient option"

record rpc_resolver =
  rrClients :: "bytes \<rightharpoonup> rpc_client"

definition NewResolver :: "(bytes \<rightharpoonup> bytes) \<Rightarrow> rpc_resolver" where
  "NewResolver rpcByChain =
     \<lparr>rrClients = (\<lambda>chainID. map_option (\<lambda>url. \<lparr>rcUrl = url, rcEth = None\<rparr>) (rpcByChain chainID))\<rparr>"

definition ethClient :: "dial \<Rightarrow> rpc_client \<Rightarrow> (gerror + EthClient) \<times> rpc_client" where
  "ethClient dial c =
     (case rcEth c of
        Some eth \<Rightarrow> (Inr eth, c)
      | None \<Rightarrow>
          (case dial (rcUrl c) of
             Inl err \<Rightarrow> (Inl err, c)
           | Inr eth \<Rightarrow> (Inr eth, c\<lparr>rcEth := Some eth\<rparr>)))"

definition rpc_CallContract :: "dial \<Rightarrow> bytes \<Rightarrow> bytes \<Rightarrow> rpc_client \<Rightarrow> rpc \<times> rpc_client" where
  "rpc_CallContract dial to data c =
     (case ethClient dial c of
        (Inl err, c) \<Rightarrow> (Inl err, c)
      | (Inr eth, c) \<Rightarrow> (ecCallContract eth (Some to) data, c))"

definition rpc_CodeAt :: "dial \<Rightarrow> bytes \<Rightarrow> rpc_client \<Rightarrow> rpc \<times> rpc_client" where
  "rpc_CodeAt dial addr c =
     (case ethClient dial c of
        (Inl err, c) \<Rightarrow> (Inl err, c)
      | (Inr eth, c) \<Rightarrow> (ecCodeAt eth addr, c))"

definition rpc_CallContractCreation :: "dial \<Rightarrow> bytes \<Rightarrow> rpc_client \<Rightarrow> rpc \<times> rpc_client" where
  "rpc_CallContractCreation dial data c =
     (case ethClient dial c of
        (Inl err, c) \<Rightarrow> (Inl err, c)
      | (Inr eth, c) \<Rightarrow> (ecCallContract eth None data, c))"

text \<open>The client of a chain as the adapter sees it during one verification, in which dialling
  an endpoint has one outcome.\<close>

definition rpc_view :: "dial \<Rightarrow> rpc_client \<Rightarrow> ChainClient" where
  "rpc_view dial c =
     \<lparr>ccCodeAt = (\<lambda>addr. fst (rpc_CodeAt dial addr c)),
      ccCallContract = (\<lambda>to data. fst (rpc_CallContract dial to data c)),
      ccCallContractCreation = Some (\<lambda>data. fst (rpc_CallContractCreation dial data c))\<rparr>"

definition rpc_ClientFor :: "dial \<Rightarrow> rpc_resolver \<Rightarrow> Resolver" where
  "rpc_ClientFor dial r chainID =
     (case rrClients r chainID of None \<Rightarrow> None | Some c \<Rightarrow> Some (rpc_view dial c))"

section \<open>The cached connection\<close>

text \<open>The connection of a chain, through the resolver.\<close>

definition connect ::
  "dial \<Rightarrow> bytes \<Rightarrow> rpc_resolver \<Rightarrow> (gerror + EthClient) \<times> rpc_resolver" where
  "connect dial chainID r =
     (case rrClients r chainID of
        None \<Rightarrow> (Inl (NewError ''no client''), r)
      | Some c \<Rightarrow> (fst (ethClient dial c),
          r\<lparr>rrClients := (rrClients r)(chainID \<mapsto> snd (ethClient dial c))\<rparr>))"

definition connected :: "rpc_resolver \<Rightarrow> bytes \<Rightarrow> EthClient option" where
  "connected r chainID = Option.bind (rrClients r chainID) rcEth"

lemma connected_Some:
  "connected r k = Some e \<longleftrightarrow> (\<exists>c. rrClients r k = Some c \<and> rcEth c = Some e)"
  by (auto simp: connected_def bind_eq_Some_conv)

lemma connect_hit: "connected r k = Some e \<Longrightarrow> connect dial k r = (Inr e, r)"
proof -
  assume "connected r k = Some e"
  then obtain c where c: "rrClients r k = Some c" "rcEth c = Some e" by (auto simp: connected_Some)
  then have "(rrClients r)(k \<mapsto> c) = rrClients r" by auto
  then show ?thesis using c by (simp add: connect_def ethClient_def)
qed

lemma connect_filled:
  "fst (connect dial k r) = Inr e \<Longrightarrow> connected (snd (connect dial k r)) k = Some e"
  by (auto simp: connect_def connected_def ethClient_def split: option.splits sum.splits)

lemma connect_same: "connected r j = Some e \<Longrightarrow> connected (snd (connect dial k r)) j = Some e"
  by (auto simp: connect_def connected_def ethClient_def split: option.splits sum.splits)

interpretation connections: stable_cache connect connected
proof unfold_locales
  show "connected (snd (connect f k s)) j \<noteq> None" if "connected s j \<noteq> None" for f k s j
    using that connect_same [of s j] by auto
qed (simp_all add: connect_hit connect_filled connect_same)

text \<open>A failed dial is not kept: the next call dials again.\<close>

lemma connect_failed:
  "fst (connect dial k r) = Inl e \<Longrightarrow> connected (snd (connect dial k r)) = connected r"
  by (auto simp: connect_def connected_def ethClient_def fun_eq_iff split: option.splits sum.splits)

lemma rpc_calls_connect:
  "snd (rpc_CodeAt dial a c) = snd (ethClient dial c)"
  "snd (rpc_CallContract dial a d c) = snd (ethClient dial c)"
  "snd (rpc_CallContractCreation dial d c) = snd (ethClient dial c)"
  by (auto simp: rpc_CodeAt_def rpc_CallContract_def rpc_CallContractCreation_def
      split: prod.split sum.split)

lemma ethClient_stable:
  "fst (ethClient dial (snd (ethClient dial c))) = fst (ethClient dial c)"
  by (auto simp: ethClient_def split: option.split sum.split)

section \<open>Properties\<close>

text \<open>A chain is dialled successfully at most once: after a call that obtained a connection,
  any sequence of calls for any chains, with endpoints answering or failing, leaves that
  connection in use, whatever a new dial would bring; a failed dial changes no connection.\<close>

theorem rpc_connection_kept:
  assumes "fst (connect dial k r) = Inr eth"
  shows "connect dial' k (connections.gets (snd (connect dial k r)) rs)
           = (Inr eth, connections.gets (snd (connect dial k r)) rs)
     \<and> (fst (connect dial'' j r) = Inl e \<longrightarrow> connected (snd (connect dial'' j r)) = connected r)"
  using connections.same_answer [OF assms] connect_failed by blast

definition sample_eth :: EthClient where
  "sample_eth = \<lparr>ecCallContract = (\<lambda>to data. Inr [CHR 0x01]), ecCodeAt = (\<lambda>addr. Inr [])\<rparr>"

theorem rpc_connection_kept_witness:
  "fst (connect (\<lambda>_. Inl (NewError ''down'')) ''eip155:1''
     (connections.gets (snd (connect (\<lambda>_. Inr sample_eth) ''eip155:1'' (NewResolver [''eip155:1'' \<mapsto> ''http://a''])))
        [(\<lambda>_. Inl (NewError ''down''), ''eip155:1'')])) = Inr sample_eth"
proof -
  have "fst (connect (\<lambda>_. Inr sample_eth) ''eip155:1'' (NewResolver [''eip155:1'' \<mapsto> ''http://a'']))
      = Inr sample_eth"
    by (simp add: connect_def NewResolver_def ethClient_def)
  from conjunct1 [OF rpc_connection_kept [OF this]] show ?thesis by (simp only: fst_conv)
qed

text \<open>An endpoint that cannot be dialled is an RPC error, never a rejected signature: with the
  production resolver, a chain that is configured but not yet connected and cannot be dialled
  makes every verification on it, wrapped or not, fail with \<open>ErrRPC\<close> (or, for a wrapped
  signature whose call cannot be encoded, with a contract failure), while a chain that is not
  configured is treated as one without contracts.\<close>

theorem rpc_down_is_ErrRPC:
  "(rrClients r (''eip155:'' @ fmt_d (swChainID m)) = Some c \<and> rcEth c = None \<and> dial (rcUrl c) = Inl e
      \<and> lPack L (swAddress m) (rightSizedWord (lTextHash L (lString L m))) sig \<noteq> None
      \<longrightarrow> (\<exists>er. verifySignature L (Some (rpc_ClientFor dial r)) m sig = Err er \<and> errors_Is er ErrRPC))
   \<and> (rrClients r (''eip155:'' @ fmt_d (swChainID m)) = None \<and> \<not> hasERC6492Suffix sig
      \<longrightarrow> verifySignature L (Some (rpc_ClientFor dial r)) m sig = verifyEIP191 L m sig)"
  by (auto simp: verifySignature_def rpc_ClientFor_def rpc_view_def rpc_CodeAt_def ethClient_def
      rpc_CallContractCreation_def validateERC6492_def evm_rpc_err_def Let_def)

theorem rpc_down_is_ErrRPC_witness:
  "\<exists>er. verifySignature sample_lib (Some (rpc_ClientFor (\<lambda>_. Inl (NewError ''down''))
       (NewResolver [''eip155:1'' \<mapsto> ''http://a'']))) sample_siwe ''ok'' = Err er \<and> errors_Is er ErrRPC"
proof -
  have "''eip155:'' @ fmt_d (swChainID sample_siwe) = ''eip155:1''"
    by (simp add: sample_siwe_def fmt_d_def) code_simp
  then show ?thesis
    using rpc_down_is_ErrRPC [of "NewResolver [''eip155:1'' \<mapsto> ''http://a'']" sample_siwe
        "\<lparr>rcUrl = ''http://a'', rcEth = None\<rparr>" "\<lambda>_. Inl (NewError ''down'')" "NewError ''down''"
        sample_lib "''ok''"]
    by (simp add: NewResolver_def sample_lib_def)
qed

end
