(* ===== verification/RpcVerify.thy ===== *)
theory RpcVerify
  imports EvmRpc
begin

text \<open>
  The signature stage of \<open>siwx/evm/adapter.go\<close> over the resolver of
  \<open>siwx/evm/evmrpc/resolver.go\<close>, as it runs in production: every question to the chain may
  dial, a dial that succeeds changes the client, and between the question for the code and the
  question for the contract's verdict other goroutines use the same resolver. \<open>EvmAdapter\<close>
  has the stage over a chain that answers as a function; here it threads the resolver.
\<close>

text \<open>A method of the client of a chain, called through the resolver that holds it.\<close>

definition on_client ::
  "(rpc_client \<Rightarrow> rpc \<times> rpc_client) \<Rightarrow> bytes \<Rightarrow> rpc_resolver \<Rightarrow> rpc \<times> rpc_resolver" where
  "on_client f chainID r =
     (case rrClients r chainID of
        None \<Rightarrow> (Inl (NewError ''no client''), r)
      | Some c \<Rightarrow>
          (case f c of (res, c') \<Rightarrow> (res, r\<lparr>rrClients := (rrClients r)(chainID \<mapsto> c')\<rparr>)))"

definition validateERC6492_rpc ::
  "SiweLib \<Rightarrow> dial \<Rightarrow> bytes \<Rightarrow> bytes \<Rightarrow> bytes \<Rightarrow> bytes \<Rightarrow> rpc_resolver \<Rightarrow> unit res \<times> rpc_resolver" where
  "validateERC6492_rpc L dial chainID signer hash wrappedSig r =
     (let h = rightSizedWord hash in
      case lPack L signer h wrappedSig of
        None \<Rightarrow> (evm_err ''evm: encode ERC-6492 validation call: %w'' ErrContractValidationFailed, r)
      | Some encoded \<Rightarrow>
          (case on_client (rpc_CallContractCreation dial (lValidatorCode L @ encoded)) chainID r of
             (Inl e, r) \<Rightarrow> (evm_rpc_err ''evm: ERC-6492 deployless validation rpc failed: %w: %w'' e, r)
           | (Inr ret, r) \<Rightarrow>
               (if length ret = 1 \<and> ret ! 0 = CHR 0x01 then Ok ()
                else evm_err ''evm: ERC-6492 signature invalid: %w'' ErrContractValidationFailed, r)))"

text \<open>\<open>dial\<close> and \<open>dial'\<close> are what a dial brings at the first and at the second question, and
  \<open>others\<close> the connections other goroutines ask for in between.\<close>

definition verifySignature_rpc ::
  "SiweLib \<Rightarrow> dial \<Rightarrow> (dial \<times> bytes) list \<Rightarrow> dial \<Rightarrow> SiweMsg \<Rightarrow> bytes \<Rightarrow> rpc_resolver
     \<Rightarrow> unit res \<times> rpc_resolver" where
  "verifySignature_rpc L dial others dial' parsed sig r =
     (let hash = lTextHash L (lString L parsed);
          chainID = ''eip155:'' @ fmt_d (swChainID parsed);
          addr = swAddress parsed
      in if hasERC6492Suffix sig
         then (case rrClients r chainID of
             None \<Rightarrow> (evm_err ''evm: ERC-6492 signature needs a deployless-capable chain client: %w''
                        ErrContractWalletUnsupported, r)
           | Some _ \<Rightarrow> validateERC6492_rpc L dial chainID addr hash sig r)
         else (case rrClients r chainID of
             None \<Rightarrow> (verifyEIP191 L parsed sig, r)
           | Some _ \<Rightarrow>
               (case on_client (rpc_CodeAt dial addr) chainID r of
                  (Inl e, r) \<Rightarrow> (evm_rpc_err ''evm: code lookup failed: %w: %w'' e, r)
                | (Inr code, r) \<Rightarrow>
                    if length code = 0 then (verifyEIP191 L parsed sig, r)
                    else (case on_client (rpc_CallContract dial' addr (erc1271Calldata hash sig)) chainID
                              (connections.gets r others) of
                        (Inl e, r) \<Rightarrow>
                          (evm_rpc_err ''evm: contract signature validation rpc failed: %w: %w'' e, r)
                      | (Inr ret, r) \<Rightarrow>
                          (if length ret \<ge> length erc1271MagicValue
                             \<and> ConstantTimeCompare (take 4 ret) erc1271MagicValue = 1
                           then Ok ()
                           else evm_err
                             ''evm: ERC-1271 isValidSignature returned invalid magic value: %w''
                             ErrContractValidationFailed, r)))))"

section \<open>One question\<close>

lemma snd_on_client:
  assumes "\<And>c. snd (f c) = snd (ethClient dial c)"
  shows "snd (on_client f k r) = snd (connect dial k r)"
  using assms by (auto simp: on_client_def connect_def split: option.split prod.split) (metis snd_conv)+

lemma fst_on_client: "rrClients r k = Some c \<Longrightarrow> fst (on_client f k r) = fst (f c)"
  by (simp add: on_client_def split: prod.split)

text \<open>A question keeps every connection there is.\<close>

lemma on_client_grows:
  "connected r \<subseteq>\<^sub>m connected (snd (on_client (rpc_CodeAt dial a) k r))"
  "connected r \<subseteq>\<^sub>m connected (snd (on_client (rpc_CallContract dial a d) k r))"
  "connected r \<subseteq>\<^sub>m connected (snd (on_client (rpc_CallContractCreation dial d) k r))"
  using snd_on_client [OF rpc_calls_connect(1)] snd_on_client [OF rpc_calls_connect(2)]
    snd_on_client [OF rpc_calls_connect(3)] connect_same
  by (fastforce simp: map_le_def dom_def)+

lemma gets_grows: "connected r \<subseteq>\<^sub>m connected (connections.gets r rs)"
  using connections.gets_same by (fastforce simp: map_le_def dom_def)

text \<open>A question that was answered leaves the connection that answered it.\<close>

lemma answered_connected:
  assumes "rrClients r k = Some c" and "fst (rpc_CodeAt dial a c) = Inr code"
  shows "\<exists>eth. fst (ethClient dial c) = Inr eth
     \<and> connected (snd (on_client (rpc_CodeAt dial a) k r)) k = Some eth"
proof -
  obtain eth where eth: "fst (ethClient dial c) = Inr eth"
    using assms(2) by (auto simp: rpc_CodeAt_def split: prod.splits sum.splits)
  then have "fst (connect dial k r) = Inr eth" by (simp add: connect_def assms(1))
  from connect_filled [OF this] eth show ?thesis
    using snd_on_client [OF rpc_calls_connect(1)] by simp
qed

lemma call_connected:
  "connected r k = Some eth \<Longrightarrow>
     fst (on_client (rpc_CallContract dial a d) k r) = ecCallContract eth (Some a) d"
  by (auto simp: connected_Some on_client_def rpc_CallContract_def ethClient_def)

lemma call_same:
  "fst (ethClient dial c) = Inr eth \<Longrightarrow> fst (rpc_CallContract dial a d c) = ecCallContract eth (Some a) d"
  by (auto simp: rpc_CallContract_def split: prod.split sum.split)

section \<open>The whole stage\<close>

lemma rpc_validate_refines:
  assumes "rrClients r k = Some c"
  shows "fst (validateERC6492_rpc L dial k signer hash sig r)
     = validateERC6492 L (\<lambda>data. fst (rpc_CallContractCreation dial data c)) signer hash sig"
  using fst_on_client [OF assms, of "rpc_CallContractCreation dial data" for data]
  by (auto simp: validateERC6492_rpc_def validateERC6492_def Let_def split: option.split prod.split sum.split)
     (metis fst_conv sum.simps)+

lemma rpc_validate_grows:
  "connected r \<subseteq>\<^sub>m connected (snd (validateERC6492_rpc L dial k signer hash sig r))"
  using on_client_grows(3) [of r dial _ k]
  by (auto simp: validateERC6492_rpc_def Let_def split: option.split prod.split sum.split) (metis snd_conv)+

lemma rpc_stage_result:
  "fst (verifySignature_rpc L dial others dial' m sig r) = verifySignature L (Some (rpc_ClientFor dial r)) m sig"
proof (cases "rrClients r (''eip155:'' @ fmt_d (swChainID m))")
  case None
  then show ?thesis by (simp add: verifySignature_rpc_def verifySignature_def rpc_ClientFor_def Let_def)
next
  case (Some c)
  let ?k = "''eip155:'' @ fmt_d (swChainID m)"
  let ?a = "swAddress m"
  let ?d = "erc1271Calldata (lTextHash L (lString L m)) sig"
  show ?thesis
  proof (cases "hasERC6492Suffix sig")
    case True
    then show ?thesis
      using rpc_validate_refines [OF Some] Some
      by (simp add: verifySignature_rpc_def verifySignature_def rpc_ClientFor_def rpc_view_def Let_def)
  next
    case False
    obtain res r1 where q: "on_client (rpc_CodeAt dial ?a) ?k r = (res, r1)" by fastforce
    then have res: "fst (rpc_CodeAt dial ?a c) = res" using fst_on_client [OF Some] by (metis fst_conv)
    have answer: "fst (on_client (rpc_CallContract dial' ?a ?d) ?k (connections.gets r1 others))
        = fst (rpc_CallContract dial ?a ?d c)" if "res = Inr code" for code
    proof -
      have "fst (rpc_CodeAt dial ?a c) = Inr code" using res that by simp
      from answered_connected [OF Some this] obtain eth where eth: "fst (ethClient dial c) = Inr eth"
          "connected r1 ?k = Some eth"
        unfolding q snd_conv by blast
      show ?thesis
        unfolding call_connected [OF connections.gets_same [OF eth(2)]] call_same [OF eth(1)] ..
    qed
    show ?thesis
    proof (cases res)
      case (Inl e)
      then show ?thesis
        using False Some q res
        by (simp add: verifySignature_rpc_def verifySignature_def rpc_ClientFor_def rpc_view_def Let_def)
    next
      case (Inr code)
      obtain ret r2 where q2: "on_client (rpc_CallContract dial' ?a ?d) ?k (connections.gets r1 others) = (ret, r2)"
        by fastforce
      then have ret: "fst (rpc_CallContract dial ?a ?d c) = ret" using answer [OF Inr] by simp
      show ?thesis
        using False Some q q2 res ret Inr
        by (cases ret) (simp_all add: verifySignature_rpc_def verifySignature_def rpc_ClientFor_def rpc_view_def Let_def)
    qed
  qed
qed

lemma rpc_stage_grows:
  "connected r \<subseteq>\<^sub>m connected (snd (verifySignature_rpc L dial others dial' m sig r))"
proof -
  let ?k = "''eip155:'' @ fmt_d (swChainID m)"
  let ?a = "swAddress m"
  let ?d = "erc1271Calldata (lTextHash L (lString L m)) sig"
  obtain res r1 where q: "on_client (rpc_CodeAt dial ?a) ?k r = (res, r1)" by fastforce
  obtain ret r2 where q2: "on_client (rpc_CallContract dial' ?a ?d) ?k (connections.gets r1 others) = (ret, r2)"
    by fastforce
  have g1: "connected r \<subseteq>\<^sub>m connected r1" using on_client_grows(1) [of r dial ?a ?k] q by simp
  have "connected (connections.gets r1 others) \<subseteq>\<^sub>m connected r2"
    using on_client_grows(2) [of "connections.gets r1 others" dial' ?a ?d ?k] q2 by simp
  then have g2: "connected r \<subseteq>\<^sub>m connected r2"
    using map_le_trans [OF map_le_trans [OF g1 gets_grows]] by blast
  show ?thesis
    using g1 g2 q q2 rpc_validate_grows
    by (cases res; cases ret) (auto simp: verifySignature_rpc_def Let_def split: option.split)
qed

section \<open>Properties\<close>

text \<open>C37. The signature stage over the production resolver is the stage over a chain that answers as a
  function: whatever a second dial would bring and whatever connections other goroutines ask
  for between the two questions, the verdict is the one that the first dial, or the connection
  that was there, decides; and no connection of the resolver is lost or replaced.\<close>

theorem rpc_stage_refines:
  "fst (verifySignature_rpc L dial others dial' m sig r) = verifySignature L (Some (rpc_ClientFor dial r)) m sig
   \<and> connected r \<subseteq>\<^sub>m connected (snd (verifySignature_rpc L dial others dial' m sig r))"
  using rpc_stage_result rpc_stage_grows by (rule conjI)

end
