(* ===== verification/TestVectors.thy ===== *)
theory TestVectors
  imports SolanaAdapter GoBase64
begin

text \<open>
  \<open>internal/testvectors/load.go\<close>: the loader of the signed test vectors. The JSON decoding is
  a parameter, the result of \<open>json.Unmarshal\<close> on the file; \<open>crypto/ed25519\<close> gives the
  private key of a seed and the signature of a message.
\<close>

record Key =
  kyID :: bytes
  kyPublicKeyBase58 :: bytes
  kyPrivateSeed :: bytes

record Vector =
  veName :: bytes
  veKey :: bytes
  veMessage :: bytes
  veSignature :: bytes
  veExpectedError :: "gerror option"

record Corpus =
  coReferenceTime :: instant
  coKeys :: "bytes \<rightharpoonup> Key"
  coValid :: "Vector list"
  coInvalid :: "Vector list"

record ed_sign =
  esNewKey :: "bytes \<Rightarrow> bytes"
  esSign :: "bytes \<Rightarrow> bytes \<Rightarrow> bytes"

text \<open>\<open>ed25519.NewKeyFromSeed\<close> panics unless the seed has 32 bytes.\<close>

definition Key_PrivateKey :: "ed_sign \<Rightarrow> Key \<Rightarrow> bytes res" where
  "Key_PrivateKey E k = (if length (kyPrivateSeed k) \<noteq> 32 then Panic else Ok (esNewKey E (kyPrivateSeed k)))"

definition Key_Sign :: "ed_sign \<Rightarrow> Key \<Rightarrow> bytes \<Rightarrow> bytes res" where
  "Key_Sign E k msg = bind_res (Key_PrivateKey E k) (\<lambda>sk. Ok (esSign E sk msg))"

record rawKey =
  rkID :: bytes
  rkPublicKeyBase58 :: bytes
  rkPrivateSeedB64 :: bytes

record rawEntry =
  reName :: bytes
  reKey :: bytes
  reMessageB64 :: bytes
  reSignatureB64 :: bytes
  reExpectedError :: bytes

record rawFile =
  rfReferenceTime :: bytes
  rfKeys :: "rawKey list"
  rfValid :: "rawEntry list"
  rfInvalid :: "rawEntry list"

definition sentinelMap :: "bytes \<rightharpoonup> sentinel" where
  "sentinelMap = map_of
     [(''ErrMalformed'', SiwsErrMalformed), (''ErrBadSignature'', SiwsErrBadSignature),
      (''ErrExpired'', SiwsErrExpired), (''ErrNotYetValid'', SiwsErrNotYetValid),
      (''ErrDomainMismatch'', SiwsErrDomainMismatch), (''ErrNonceMismatch'', SiwsErrNonceMismatch)]"

fun SiwxSentinelFor :: "gerror option \<Rightarrow> gerror option" where
  "SiwxSentinelFor (Some (Sentinel SiwsErrMalformed)) = Some (Sentinel ErrMalformed)"
| "SiwxSentinelFor (Some (Sentinel SiwsErrBadSignature)) = Some (Sentinel ErrBadSignature)"
| "SiwxSentinelFor (Some (Sentinel SiwsErrExpired)) = Some (Sentinel ErrExpired)"
| "SiwxSentinelFor (Some (Sentinel SiwsErrNotYetValid)) = Some (Sentinel ErrNotYetValid)"
| "SiwxSentinelFor (Some (Sentinel SiwsErrDomainMismatch)) = Some (Sentinel ErrDomainMismatch)"
| "SiwxSentinelFor (Some (Sentinel SiwsErrNonceMismatch)) = Some (Sentinel ErrNonceMismatch)"
| "SiwxSentinelFor e = e"

definition parseTime :: "bytes \<Rightarrow> instant res" where
  "parseTime s = (case first_layout [RFC3339Nano, RFC3339, layout_ms_Z] s of
     Some t \<Rightarrow> Ok t | None \<Rightarrow> Err (NewError (''unparseable timestamp: '' @ s)))"

text \<open>\<open>fmt.Errorf\<close> around the error of a call.\<close>

definition wrap_err :: "string \<Rightarrow> string list \<Rightarrow> 'a res \<Rightarrow> 'a res" where
  "wrap_err f args r = (case r of Err e \<Rightarrow> Err (Errorf f args [e]) | _ \<Rightarrow> r)"

fun parse_keys :: "rawKey list \<Rightarrow> (bytes \<rightharpoonup> Key) \<Rightarrow> (bytes \<rightharpoonup> Key) res" where
  "parse_keys [] keys = Ok keys"
| "parse_keys (k # ks) keys =
     bind_res (wrap_err ''testvectors: key %s seed: %w'' [rkID k]
         (b64_decode StdEncoding (rkPrivateSeedB64 k))) (\<lambda>seed.
       parse_keys ks (keys(rkID k \<mapsto>
         \<lparr>kyID = rkID k, kyPublicKeyBase58 = rkPublicKeyBase58 k, kyPrivateSeed = seed\<rparr>)))"

definition toVector :: "rawEntry \<Rightarrow> bool \<Rightarrow> Vector res" where
  "toVector e valid =
     bind_res (wrap_err ''testvectors: %s message: %w'' [reName e]
         (b64_decode StdEncoding (reMessageB64 e))) (\<lambda>msg.
     bind_res (wrap_err ''testvectors: %s signature: %w'' [reName e]
         (b64_decode StdEncoding (reSignatureB64 e))) (\<lambda>sig.
     bind_res
       (if \<not> valid
        then (case sentinelMap (reExpectedError e) of
                None \<Rightarrow> Err (Errorf ''testvectors: unknown expectedError %q'' [reExpectedError e] [])
              | Some s \<Rightarrow> Ok (Some (Sentinel s)))
        else Ok None) (\<lambda>sentinel.
       Ok \<lparr>veName = reName e, veKey = reKey e, veMessage = msg, veSignature = sig,
          veExpectedError = sentinel\<rparr>)))"

fun parse_entries :: "rawEntry list \<Rightarrow> bool \<Rightarrow> Vector list \<Rightarrow> Vector list res" where
  "parse_entries [] valid vs = Ok vs"
| "parse_entries (e # es) valid vs =
     bind_res (toVector e valid) (\<lambda>v. parse_entries es valid (vs @ [v]))"

definition parse_vectors :: "(bytes \<Rightarrow> gerror + rawFile) \<Rightarrow> bytes \<Rightarrow> Corpus res" where
  "parse_vectors unmarshal raw =
     (case unmarshal raw of
        Inl err \<Rightarrow> Err (Errorf ''testvectors: parse: %w'' [] [err])
      | Inr f \<Rightarrow>
          bind_res (wrap_err ''testvectors: referenceTime: %w'' [] (parseTime (rfReferenceTime f))) (\<lambda>refTime.
          bind_res (parse_keys (rfKeys f) Map.empty) (\<lambda>keys.
          bind_res (parse_entries (rfValid f) True []) (\<lambda>valid.
          bind_res (parse_entries (rfInvalid f) False []) (\<lambda>invalid.
            Ok \<lparr>coReferenceTime = refTime, coKeys = keys, coValid = valid, coInvalid = invalid\<rparr>)))))"

text \<open>\<open>file\<close> is what \<open>os.ReadFile\<close> gives.\<close>

definition Load :: "(bytes \<Rightarrow> gerror + rawFile) \<Rightarrow> gerror + bytes \<Rightarrow> Corpus res" where
  "Load unmarshal file = (case file of
     Inl err \<Rightarrow> Err (Errorf ''testvectors: %w'' [] [err]) | Inr raw \<Rightarrow> parse_vectors unmarshal raw)"

definition MustLoad :: "(bytes \<Rightarrow> gerror + rawFile) \<Rightarrow> gerror + bytes \<Rightarrow> Corpus res" where
  "MustLoad unmarshal file = (case Load unmarshal file of Err e \<Rightarrow> Panic | r \<Rightarrow> r)"

definition FrozenClock :: "Corpus \<Rightarrow> clock" where
  "FrozenClock c = (\<lambda>_. coReferenceTime c)"

definition Signer :: "Corpus \<Rightarrow> bytes \<Rightarrow> Key res" where
  "Signer c keyID = (case coKeys c keyID of None \<Rightarrow> Panic | Some k \<Rightarrow> Ok k)"

definition SiwsVerifyOpts :: "instant option \<Rightarrow> bytes \<Rightarrow> bytes \<Rightarrow> SiwsOpts" where
  "SiwsVerifyOpts now site nonce =
     \<lparr>soExpectedDomain = site, soExpectedNonce = nonce, soNow = now\<rparr>"

definition extract_step :: "bytes \<times> bytes \<Rightarrow> bytes \<Rightarrow> bytes \<times> bytes" where
  "extract_step dn line =
     (let suffix = '' wants you to sign in with your Solana account:'';
          dn = (if has_suffix line suffix then (trim_suffix line suffix, snd dn) else dn)
      in if has_prefix line ''Nonce: '' then (fst dn, trim_prefix line ''Nonce: '') else dn)"

definition ExtractDomainNonce :: "bytes \<Rightarrow> bytes \<times> bytes" where
  "ExtractDomainNonce msg = foldl extract_step ([], []) (split_byte nl msg)"

section \<open>The vectors that are loaded\<close>

lemma wrap_err_Ok [simp]: "wrap_err f args r = Ok x \<longleftrightarrow> r = Ok x"
  by (cases r) (simp_all add: wrap_err_def)

text \<open>A vector that says what its entry says.\<close>

definition vector_of :: "bool \<Rightarrow> rawEntry \<Rightarrow> Vector \<Rightarrow> bool" where
  "vector_of valid e v \<longleftrightarrow> veName v = reName e \<and> veKey v = reKey e
     \<and> b64_decode StdEncoding (reMessageB64 e) = Ok (veMessage v)
     \<and> b64_decode StdEncoding (reSignatureB64 e) = Ok (veSignature v)
     \<and> (if valid then veExpectedError v = None
        else \<exists>s. sentinelMap (reExpectedError e) = Some s \<and> veExpectedError v = Some (Sentinel s))"

lemma toVector_Ok: "toVector e valid = Ok v \<longleftrightarrow> vector_of valid e v"
  by (cases v; cases "sentinelMap (reExpectedError e)")
     (auto simp: toVector_def vector_of_def res_simps)

lemma parse_entries_append:
  "parse_entries es valid vs = bind_res (parse_entries es valid []) (\<lambda>ws. Ok (vs @ ws))"
proof (induction es arbitrary: vs)
  case (Cons e es)
  show ?case
    using Cons.IH [of "vs @ [v]" for v] Cons.IH [of "[v]" for v]
    by (cases "toVector e valid") (simp_all add: bind_res_assoc)
qed simp

lemma parse_entries_Ok: "parse_entries es valid [] = Ok vs \<longleftrightarrow> list_all2 (vector_of valid) es vs"
proof (induction es arbitrary: vs)
  case (Cons e es)
  show ?case
    using Cons.IH
    by (auto simp: parse_entries_append [of es valid "[v]" for v] res_simps toVector_Ok list_all2_Cons1)
qed auto

lemma parse_vectors_Ok:
  assumes "parse_vectors unmarshal raw = Ok c"
  shows "\<exists>f. unmarshal raw = Inr f
     \<and> first_layout [RFC3339Nano, RFC3339, layout_ms_Z] (rfReferenceTime f) = Some (coReferenceTime c)
     \<and> list_all2 (vector_of True) (rfValid f) (coValid c)
     \<and> list_all2 (vector_of False) (rfInvalid f) (coInvalid c)"
  using assms
  by (auto simp: parse_vectors_def res_simps parse_entries_Ok parseTime_def split: sum.splits option.splits)

section \<open>The scan for domain and nonce\<close>

lemma extract_blank [simp]: "extract_step dn [] = dn"
  by (simp add: extract_step_def has_suffix_def)

lemma split_snoc_nl: "split_byte c (s @ [c]) = split_byte c s @ [[]]"
proof (induction s)
  case (Cons x s)
  then show ?case by (cases "split_byte c s") auto
qed simp

lemma extract_trailing: "foldl extract_step st (split_byte nl (trim_right_byte nl s)) = foldl extract_step st (split_byte nl s)"
proof (induction s rule: rev_induct)
  case (snoc c s)
  show ?case
  proof (cases "c = nl")
    case True
    then show ?thesis using snoc by (simp add: split_snoc_nl)
  next
    case False
    then have "trim_right_byte nl (s @ [c]) = s @ [c]" by (intro trim_right_byte_last) auto
    then show ?thesis by simp
  qed
qed simp

lemma extract_no_nonce:
  "\<forall>l \<in> set ls. \<not> has_prefix l ''Nonce: '' \<Longrightarrow> snd (foldl extract_step st ls) = snd st"
  by (induction ls arbitrary: st) (auto simp: extract_step_def Let_def)

lemma extract_no_header:
  "\<forall>l \<in> set ls. \<not> has_suffix l headerSuffix \<Longrightarrow> fst (foldl extract_step st ls) = fst st"
  by (induction ls arbitrary: st) (auto simp: extract_step_def Let_def headerSuffix_def)

lemma extract_nonce_line: "snd (extract_step st (''Nonce: '' @ n)) = n"
  by (simp add: extract_step_def Let_def)

lemma extract_header_line: "fst (extract_step st (d @ headerSuffix)) = d"
proof -
  have "has_suffix (d @ headerSuffix) '' wants you to sign in with your Solana account:''"
    "trim_suffix (d @ headerSuffix) '' wants you to sign in with your Solana account:'' = d"
    by (simp_all only: headerSuffix_def has_suffix_append trim_suffix_append)
  then show ?thesis by (simp add: extract_step_def Let_def)
qed

lemma after_nonce:
  "l \<in> set ((''Issued At: '' @ i) # trailer_lines e n r rs) \<Longrightarrow> \<not> has_prefix l ''Nonce: ''"
  by (auto simp: trailer_lines_def opt_line_def resource_lines_def item_line_def split: option.splits)

lemma extract_grammar_nonce: "snd (foldl extract_step st (grammar_lines g)) = gNonce g"
proof -
  let ?pre = "[gDomain g @ headerSuffix, gAddress g, []] @ statement_lines (gStatement g)
     @ [''URI: '' @ gURI g, ''Version: 1''] @ opt_line ''Chain ID: '' (gChain g)"
  let ?post = "(''Issued At: '' @ gIssued g)
     # trailer_lines (gExpiration g) (gNotBefore g) (gRequestID g) (gResources g)"
  have "grammar_lines g = ?pre @ (''Nonce: '' @ gNonce g) # ?post" by (simp add: grammar_lines_def)
  then have "foldl extract_step st (grammar_lines g)
      = foldl extract_step (extract_step (foldl extract_step st ?pre) (''Nonce: '' @ gNonce g)) ?post"
    by (simp only: foldl_append foldl_Cons)
  then show ?thesis using extract_no_nonce [of ?post] after_nonce extract_nonce_line by metis
qed

lemma extract_grammar_domain:
  assumes "\<forall>l \<in> set (tl (grammar_lines g)). \<not> has_suffix l headerSuffix"
  shows "fst (foldl extract_step st (grammar_lines g)) = gDomain g"
proof -
  have "grammar_lines g = (gDomain g @ headerSuffix) # tl (grammar_lines g)" by (simp add: grammar_lines_def)
  then have "foldl extract_step st (grammar_lines g)
      = foldl extract_step (extract_step st (gDomain g @ headerSuffix)) (tl (grammar_lines g))"
    by (metis foldl_Cons)
  then show ?thesis using extract_no_header [OF assms] extract_header_line by metis
qed

section \<open>Properties\<close>

text \<open>A corpus that loads is the file's: the vectors stand in the file's order, each with the
  decoded message and signature of its entry; a vector of the valid section expects no error
  and one of the invalid section exactly the sentinel its entry names.\<close>

theorem load_vectors:
  assumes "Load unmarshal file = Ok c"
  shows "\<exists>raw f. file = Inr raw \<and> unmarshal raw = Inr f
     \<and> first_layout [RFC3339Nano, RFC3339, layout_ms_Z] (rfReferenceTime f) = Some (coReferenceTime c)
     \<and> list_all2 (vector_of True) (rfValid f) (coValid c)
     \<and> list_all2 (vector_of False) (rfInvalid f) (coInvalid c)"
  using assms parse_vectors_Ok by (auto simp: Load_def split: sum.splits)

definition sample_file :: rawFile where
  "sample_file =
     \<lparr>rfReferenceTime = ''1970-01-01T00:00:00Z'', rfKeys = [], rfValid = [],
      rfInvalid = [\<lparr>reName = ''late'', reKey = ''k'', reMessageB64 = b64_encode StdEncoding ''m'',
        reSignatureB64 = b64_encode StdEncoding ''s'', reExpectedError = ''ErrExpired''\<rparr>]\<rparr>"

lemma sample_file_loads:
  "Load (\<lambda>_. Inr sample_file) (Inr []) = Ok \<lparr>coReferenceTime = 0, coKeys = Map.empty, coValid = [],
     coInvalid = [\<lparr>veName = ''late'', veKey = ''k'', veMessage = ''m'', veSignature = ''s'',
       veExpectedError = Some (Sentinel SiwsErrExpired)\<rparr>]\<rparr>"
proof -
  have "parseTime ''1970-01-01T00:00:00Z'' = Ok 0" by code_simp
  then show ?thesis
    by (simp add: Load_def parse_vectors_def sample_file_def toVector_def std.b64_decode_encode
        wrap_err_def sentinelMap_def del: b64_encode.simps)
qed

theorem load_vectors_witness:
  "first_layout [RFC3339Nano, RFC3339, layout_ms_Z] (rfReferenceTime sample_file) = Some 0"
  using load_vectors [OF sample_file_loads] by auto



text \<open>The loader's table of siwx errors is the Solana adapter's: an error that wraps one siws
  sentinel is turned by the adapter into one that wraps exactly the sentinel the table names,
  whatever order the adapter visits its map in.\<close>

theorem SiwxSentinelFor_agrees:
  assumes "sentinelMap name = Some s" and "\<forall>t. errors_Is e t \<longleftrightarrow> t = s"
  shows "\<exists>t. SiwxSentinelFor (Some (Sentinel s)) = Some (Sentinel t) \<and> mapErr pick (Some e) = Some (wrap t)"
proof -
  have "s \<in> set (map fst mapErr_table)" using assms(1)
    by (auto simp: sentinelMap_def mapErr_table_def split: if_splits)
  moreover from this have "SiwxSentinelFor (Some (Sentinel s)) = Some (Sentinel (siwx_of s))"
    by (auto simp: mapErr_table_def siwx_of_def)
  ultimately show ?thesis using mapErr_single [OF assms(2), of pick] by blast
qed

theorem SiwxSentinelFor_agrees_witness:
  "mapErr [] (Some (siws_err ''x: %w'' SiwsErrExpired)) = Some (wrap ErrExpired)"
proof -
  have "sentinelMap ''ErrExpired'' = Some SiwsErrExpired" by (simp add: sentinelMap_def)
  from SiwxSentinelFor_agrees [OF this, of "siws_err ''x: %w'' SiwsErrExpired" "[]"] show ?thesis by auto
qed

end
