(* ===== verification/Loops.thy ===== *)
theory Loops
  imports Base58 "HOL-Library.While_Combinator"
begin

text \<open>
  The loops of \<open>EncodeBase58\<close> as \<open>while\<close> loops over the variables of the source, where not
  returning is the value \<open>None\<close>: that they end, after how many rounds, and with what.
\<close>

text \<open>\<open>for n.Cmp(zero) > 0\<close>: one division per round.\<close>

definition encode_guard :: "nat \<times> bytes \<Rightarrow> bool" where
  "encode_guard s \<longleftrightarrow> fst s > 0"

definition encode_round :: "nat \<times> bytes \<Rightarrow> nat \<times> bytes" where
  "encode_round s = (fst s div 58, snd s @ [alphabet ! (fst s mod 58)])"

text \<open>\<open>for i, j := 0, len(result)-1; i < j; i, j = i+1, j-1\<close>: one swap per round.\<close>

definition reverse_guard :: "bytes \<times> int \<times> int \<Rightarrow> bool" where
  "reverse_guard s \<longleftrightarrow> (case s of (xs, i, j) \<Rightarrow> i < j)"

definition reverse_round :: "bytes \<times> int \<times> int \<Rightarrow> bytes \<times> int \<times> int" where
  "reverse_round s = (case s of (xs, i, j) \<Rightarrow>
     (xs[nat i := xs ! nat j, nat j := xs ! nat i], i + 1, j - 1))"

text \<open>\<open>EncodeBase58\<close> with its loops as they stand.\<close>

definition EncodeBase58_while :: "bytes \<Rightarrow> bytes option" where
  "EncodeBase58_while b =
     (case while_option encode_guard encode_round (big_SetBytes b, []) of
        None \<Rightarrow> None
      | Some (n, result) \<Rightarrow>
          let result = result @ replicate (length (takeWhile (\<lambda>c. c = CHR 0x00) b)) (CHR ''1'') in
          map_option fst (while_option reverse_guard reverse_round (result, 0, int (length result) - 1)))"

lemma encode_while: "while_option encode_guard encode_round (n, acc) = Some (0, encode_loop n acc)"
proof (induction n acc rule: encode_loop.induct)
  case (1 n acc)
  show ?case
  proof (cases "n = 0")
    case True
    then show ?thesis
      by (subst while_option_unfold) (simp add: encode_guard_def encode_loop.simps)
  next
    case False
    then have "while_option encode_guard encode_round (n, acc)
        = while_option encode_guard encode_round (n div 58, acc @ [alphabet ! (n mod 58)])"
      by (subst while_option_unfold) (simp add: encode_guard_def encode_round_def)
    with 1 False show ?thesis by (simp add: encode_loop.simps [of n acc])
  qed
qed

lemma reverse_while:
  "\<exists>i' j'. while_option reverse_guard reverse_round (xs, i, j) = Some (reverse_loop xs i j, i', j')"
proof (induction xs i j rule: reverse_loop.induct)
  case (1 xs i j)
  show ?case
  proof (cases "i < j")
    case True
    then have "while_option reverse_guard reverse_round (xs, i, j)
        = while_option reverse_guard reverse_round
            (xs[nat i := xs ! nat j, nat j := xs ! nat i], i + 1, j - 1)"
      by (subst while_option_unfold) (simp add: reverse_guard_def reverse_round_def)
    with "1.IH" [OF True] True show ?thesis by (simp add: reverse_loop.simps [of xs i j])
  next
    case False
    then show ?thesis
      by (subst while_option_unfold) (simp add: reverse_guard_def reverse_loop.simps [of xs i j])
  qed
qed

lemma EncodeBase58_returns: "EncodeBase58_while b = Some (EncodeBase58 b)"
proof -
  let ?r = "encode_loop (big_SetBytes b) [] @ replicate (length (takeWhile (\<lambda>c. c = CHR 0x00) b)) (CHR ''1'')"
  obtain i j where "while_option reverse_guard reverse_round (?r, 0, int (length ?r) - 1)
      = Some (reverse_loop ?r 0 (int (length ?r) - 1), i, j)"
    using reverse_while [of ?r 0 "int (length ?r) - 1"] by blast
  then show ?thesis
    by (simp add: EncodeBase58_while_def encode_while EncodeBase58_def Let_def)
qed

lemma encode_rounds: "(encode_round ^^ length (digits 58 n)) (n, acc) = (0, encode_loop n acc)"
proof (induction n acc rule: encode_loop.induct)
  case (1 n acc)
  show ?case
  proof (cases "n = 0")
    case True
    then show ?thesis by (simp add: encode_loop.simps)
  next
    case False
    then have "(encode_round ^^ length (digits 58 n)) (n, acc)
        = (encode_round ^^ length (digits 58 (n div 58))) (n div 58, acc @ [alphabet ! (n mod 58)])"
      by (simp add: digits_step funpow_swap1 encode_round_def)
    with 1 False show ?thesis by (simp add: encode_loop.simps [of n acc])
  qed
qed

lemma encode_rounds_bound: "length (digits 58 (big_SetBytes b)) \<le> 2 * length b"
proof -
  have "big_SetBytes b < 256 ^ length b"
    using value_of_less [of 256 "map of_char b"] by (simp add: big_SetBytes_def)
  also have "(256 :: nat) ^ length b \<le> (58 ^ 2) ^ length b" by (rule power_mono) simp_all
  also have "\<dots> = 58 ^ (2 * length b)" by (simp add: power_mult)
  finally show ?thesis by (intro length_digits_le) simp_all
qed

section \<open>Properties\<close>

text \<open>C25. \<open>EncodeBase58\<close> always returns: its loops, as loops that may run for ever, end on every
  input with the result of the encoder, and the division loop takes at most two rounds per
  byte of the input.\<close>

theorem EncodeBase58_terminates:
  "EncodeBase58_while b = Some (EncodeBase58 b)
   \<and> (\<exists>k \<le> 2 * length b. \<not> encode_guard ((encode_round ^^ k) (big_SetBytes b, [])))"
proof
  have "\<not> encode_guard ((encode_round ^^ length (digits 58 (big_SetBytes b))) (big_SetBytes b, []))"
    unfolding encode_rounds by (simp add: encode_guard_def)
  then show "\<exists>k \<le> 2 * length b. \<not> encode_guard ((encode_round ^^ k) (big_SetBytes b, []))"
    using encode_rounds_bound by blast
qed (rule EncodeBase58_returns)

end
