(* ===== verification/Spec2Isabelle.thy ===== *)
theory Spec2Isabelle
  imports Dispatch Disclosure Contracts HubSessions HubMetrics HubBounds JwksSteps ValidatorCode RpcVerify
    TestVectors Loops
begin

text \<open>
  siwx-go lets a wallet sign in to a site by signing a short text: a Sign-In With Solana message
  (package \<open>siws\<close>) or a SIWE message (package \<open>siwx/evm\<close>, over the library siwe-go). The
  package \<open>siwx\<close> dispatches a message to the verifier of its chain and reports what happens to
  observers; \<open>examples/hub\<close> is a server around it, with nonces, identities, session tokens
  and a simulated chain, and \<open>examples/middleware\<close> checks those tokens. This development
  models all of it, from the bytes of a message to the replies of the server.

  \<^bold>\<open>Theories and the code they model.\<close> Definitions have the names of the functions they
  translate; where two packages share a name, a prefix tells them apart.

  \<^item> Go itself: \<open>Prelude\<close> (bytes, results, lists), \<open>GoUtf8\<close> (ranging over a string),
    \<open>GoTime\<close> and \<open>GoTimeFormat\<close> (instants, RFC 3339), \<open>GoHex\<close>, \<open>GoBase64\<close>, \<open>GoBig\<close>
    (big integers and their \<open>Int64\<close>), \<open>GoStrings\<close> (trimming, cutting, \<open>Atoi\<close>, scanning
    lines), \<open>GoQuote\<close> (quoted strings); \<open>Positional\<close> and \<open>Codec\<close> hold place-value numbers and the contract of a codec.
  \<^item> \<open>siws\<close>: \<open>Base58\<close> and \<open>Loops\<close> (\<open>base58.go\<close>), \<open>SiwsMessage\<close> (\<open>message.go\<close>),
    \<open>SiwsParse\<close> (\<open>parse.go\<close>, stage by stage), \<open>SiwsGrammar\<close> (the grammar as an independent
    specification), \<open>SiwsRoundtrip\<close>, \<open>SiwsVerify\<close> (\<open>verify.go\<close>).
  \<^item> \<open>siwx\<close>: \<open>Caip\<close> (\<open>caip.go\<close>), \<open>Observer\<close> (\<open>observer.go\<close>), \<open>Verifier\<close>
    (\<open>verifier.go\<close>, \<open>errors.go\<close> and the interface as the locale \<open>verifier\<close>), \<open>Registry\<close>
    (\<open>registry.go\<close>), \<open>SolanaAdapter\<close> (\<open>solana/adapter.go\<close>), \<open>Erc1271\<close> and
    \<open>EvmAdapter\<close> (\<open>evm/adapter.go\<close>, \<open>evm/erc6492.go\<close>), \<open>ValidatorCode\<close> (what
    \<open>evm/erc6492.go\<close> sets up at the start), \<open>Cache\<close> and \<open>EvmRpc\<close>
    (\<open>evm/evmrpc/resolver.go\<close>), \<open>RpcVerify\<close> (the signature stage over that resolver), \<open>Dispatch\<close> (the registry with both verifiers), \<open>Disclosure\<close> (what its
    observers learn).
  \<^item> \<open>examples/hub\<close>: \<open>SingleUse\<close> and \<open>NonceStore\<close>, \<open>IdentityStore\<close> (\<open>stores.go\<close>),
    \<open>Recorder\<close> and \<open>Metrics\<close> (\<open>observe.go\<close>), \<open>Problems\<close> (\<open>problems.go\<close>), \<open>ContractWallet\<close>
    (\<open>contractwallet.go\<close>), \<open>Issuer\<close> (\<open>issuer.go\<close>), \<open>HubConfig\<close> (\<open>config.go\<close>),
    \<open>Hub\<close> (\<open>handlers.go\<close>), \<open>Server\<close> (\<open>main.go\<close>); \<open>JwtMiddleware\<close> and \<open>JwksSteps\<close>
    (\<open>examples/middleware/jwt.go\<close>). \<open>HubNonces\<close>, \<open>HubSignIn\<close> and \<open>HubSafety\<close> hold what is
    shown of sequences of requests; \<open>HubSteps\<close> splits the handlers at their locks, and
    \<open>HubInterleaving\<close>, \<open>HubSessions\<close>, \<open>HubMetrics\<close> and \<open>HubBounds\<close> hold what is shown of
    requests that interleave.
  \<^item> \<open>Contracts\<close> (\<open>contracts/contracts.go\<close>) and \<open>TestVectors\<close>
    (\<open>internal/testvectors/load.go\<close>).

  \<^bold>\<open>How the code is translated.\<close> A string or byte slice is a list of bytes, an instant a number
  of nanoseconds. A function that returns an error gives \<open>Ok\<close>, \<open>Err\<close> or \<open>Panic\<close>; an error is
  the tree of the values it wraps, and \<open>errors_Is\<close> searches it. A verifier returns its events
  with its result, so the order of events is part of the model; an observer may panic, and the
  fan-out recovers. A clock is a function of the number of the reading, so the three readings
  of one verification may differ. The state of the hub is one record; a handler takes the
  request, the record \<open>env\<close> of what the outside gives it while it runs (clock readings and
  random bytes, which may fail) and the state, and returns the reply and the new state. A
  handler is modelled twice: as a function, and as a task whose steps are its locked sections;
  the second run alone is the first (\<open>handler_is_its_steps\<close>), and any number of tasks interleave
  step by step. The key cache of the middleware is split in the same way. Go's
  iteration over a map is a parameter (\<open>pick\<close>) where its order can be observed. Lengths and
  counters whose overflow matters are words of 64 bits.

  \<^bold>\<open>What is shown.\<close> The parser accepts the grammar and nothing else, never panics, and is
  inverse to the printer within the size bound. \<open>VerifyRaw\<close> accepts exactly a message that
  names the domain and the nonce, is inside its window and is signed; the first failing check
  determines the error. Both adapters accept exactly under these conditions, and the EVM
  signature stage accepts what an account, a deployed contract wallet or the ERC-6492
  validator authorises; the simulated chain and the RPC resolver are shown to be such chains.
  The registry frames the events of every verifier that keeps the interface and is indifferent
  to observers, and what an observer sees is one of 53 traces that depend on the identifiers of
  the call and the length of the message alone. The stage over the dialling and caching resolver
  decides as the one over a chain that answers as a function, whatever other goroutines connect.
  For the hub: however requests interleave, every session returned and every account linked is
  that of an account that signed a message for the hub and the nonce of the request, a nonce is
  accepted at most as often as it was handed out, the nonce store holds unexpired nonces only
  right after it issues one, the counters are the numbers of the replies they count, the stores
  and the recorder stay well formed, every handler returns, and the middleware only uses keys that
  were published; a session is returned exactly when the nonce is live and the message
  verifies; a client that follows the protocol within ten minutes gets one; its token opens
  linking for that identity and no other request does; no label breaks the metrics page. Base58
  is the textbook change of base and its loops end.

  \<^bold>\<open>Interfaces.\<close> The locales are \<open>codec\<close> and \<open>b64_alphabet\<close> (encoders with their inverse),
  \<open>verifier\<close> (the Go interface, interpreted by both adapters), \<open>single_use\<close> (a store whose
  events are issues and burns, interpreted by the nonce store), \<open>cache\<close> and \<open>stable_cache\<close>
  (read-through caches, interpreted by the JWKS cache and the RPC connections).

  \<^bold>\<open>Bounds and fuel.\<close> No definition takes fuel: every loop of the code recurses on a list or
  with a measure, and \<open>Loops\<close> states the loops of \<open>EncodeBase58\<close> a second time as loops that
  need not end and proves that they do. The bounds are the code's own: 8 KiB for a message, 128
  characters for base58, 1024 buffered attempts, ten minutes for a nonce, one hour for a token.
  The simulated wallet's calldata is treated for every signature below 4 GiB, where the 32-bit
  length that the adapter writes is exact.

  \<^bold>\<open>Parameters.\<close> Code outside the repository is an argument: Ed25519, siwe-go with the EIP-191
  check and the EIP-55 text of an address, the Keccak hash and key recovery of go-ethereum, an
  Ethereum connection and the dialling of it, golang-jwt, the fetch of a key set, RSA key
  generation, and JSON decoding. What a property needs of them is among its hypotheses.

  \<^bold>\<open>Not modelled.\<close> Log lines, the durations in events and replies, static files and the JSON
  text of replies are output only; requests are taken after JSON decoding, of which the limit
  on bodies is the one part of the repository (\<open>limitBody\<close>). The cookie's attributes other
  than its value and age are constants. The declarations that \<open>contracts.go\<close> repeats from the
  package \<open>siwx\<close> are modelled there; its interface \<open>SignatureScheme\<close> has no implementation.
  The increment of a counter is not a step of its own, since only the metrics page reads
  counters. The bytecode of the ERC-6492 validator runs on the chain and is part of the
  connection's answer; its file is data, and only the decoding of it is modelled.
\<close>

section \<open>Properties\<close>

text \<open>Dispatch is by namespace and nothing else: with any observer that does not panic, and
  whatever the chain reference, the result is the Solana verifier's, the EVM verifier's, or
  the unsupported-namespace error, on the options with the defaults filled in.\<close>

theorem registry_dispatch:
  assumes "harmless pan opts"
  shows "snd (Registry_Verify pan wall (Some b) (both_verifiers pan pick ed L resolver) c msg sig opts) =
     (if cNamespace c = ''solana'' then snd (solana_Verify pan pick ed msg sig (prepared wall b opts))
      else if cNamespace c = ''eip155'' then snd (evm_Verify pan L resolver msg sig (prepared wall b opts))
      else Err (unsupported_err (cNamespace c)))"
  using solana_dispatch evm_dispatch other_dispatch assms by auto

definition nil_opts :: VerifyOpts where
  "nil_opts = \<lparr>voExpectedDomain = ''example.com'', voExpectedNonce = ''abcd1234'',
     voObserver = None, voClock = None, voAttemptID = []\<rparr>"

lemma nil_opts_harmless: "harmless pan nil_opts"
  by (simp add: harmless_def nil_opts_def)

theorem registry_dispatch_witness:
  "snd (Registry_Verify (\<lambda>_ _. False) (\<lambda>_. 0) (Some ''r'')
      (both_verifiers (\<lambda>_ _. False) [] sample_ed sample_lib None)
      \<lparr>cNamespace = ''cosmos'', cReference = ''1''\<rparr> [] [] nil_opts) = Err (unsupported_err ''cosmos'')"
  using registry_dispatch [OF nil_opts_harmless] by simp

text \<open>Every verifier that keeps the contract \<open>verifier\<close> is framed by the registry the same
  way: a listening observer sees the attempt, then only parse and check events of the same
  attempt, then one result, which says whether the call succeeded and on failure names a
  sentinel the returned error wraps.\<close>

theorem registry_frames_events:
  assumes "verifier pan V" and "rVerifiers r (cNamespace c) = Some V"
    and "voObserver opts = Some (External n)" and "\<forall>e. \<not> pan n e"
  shows "\<exists>att res inner. events_of (fst (Registry_Verify pan wall (Some b) r c msg sig opts))
       = att # inner @ [res]
     \<and> (\<exists>i. att = VerifyAttempt i (cNamespace c) (voExpectedDomain opts) []
         \<and> (\<forall>e \<in> set inner. inner_event e \<and> attempt_id e = i)
         \<and> (\<exists>ok s. res = VerifyResult i ok s (cNamespace c)
             \<and> (ok \<longleftrightarrow> (\<exists>x. snd (Registry_Verify pan wall (Some b) r c msg sig opts) = Ok x))
             \<and> (s = None \<longleftrightarrow> ok)
             \<and> (\<forall>e. snd (Registry_Verify pan wall (Some b) r c msg sig opts) = Err e \<longrightarrow>
                  (\<exists>t \<in> set siwx_sentinels. s = Some (Sentinel t) \<and> errors_Is e t))))"
  using verifier.dispatch_events [OF assms] .

theorem registry_frames_events_witness:
  "\<exists>att res inner. events_of (fst (Registry_Verify (\<lambda>_ _. False) (\<lambda>_. 0) (Some ''r'')
      (both_verifiers (\<lambda>_ _. False) [] sample_ed sample_lib None)
      \<lparr>cNamespace = ''solana'', cReference = ''mainnet''\<rparr> [] [] (sample_vopts (\<lambda>_. 0)))) = att # inner @ [res]"
proof -
  have "rVerifiers (both_verifiers (\<lambda>_ _. False) [] sample_ed sample_lib None)
      (cNamespace \<lparr>cNamespace = ''solana'', cReference = ''mainnet''\<rparr>)
      = Some (solana_New (\<lambda>_ _. False) [] sample_ed)"
    by (simp add: both_verifiers_lookup)
  from registry_frames_events [OF solana.verifier_axioms this sample_vopts_fields(1) [of "\<lambda>_. 0"],
      where wall = "\<lambda>_. 0" and b = "''r''" and msg = "[]" and sig = "[]"]
  show ?thesis by auto
qed

text \<open>C21. Observability is outside the decision (S5): whatever observers are fanned out to, panicking
  or not, the registry returns what it returns without any observer.\<close>

theorem observers_do_not_decide:
  "snd (Registry_Verify pan wall (Some b) (both_verifiers pan pick ed L resolver) c msg sig
       (opts\<lparr>voObserver := Some (MultiObserver obs)\<rparr>)) =
   snd (Registry_Verify pan wall (Some b) (both_verifiers pan pick ed L resolver) c msg sig
       (opts\<lparr>voObserver := None\<rparr>))"
proof -
  let ?m = "opts\<lparr>voObserver := Some (MultiObserver obs)\<rparr>" and ?n = "opts\<lparr>voObserver := None\<rparr>"
  have h: "harmless pan ?m" "harmless pan ?n" by (simp_all add: harmless_def)
  have p: "prepared wall b ?m = (prepared wall b ?n)\<lparr>voObserver := Some (MultiObserver obs)\<rparr>"
    by (simp add: prepared_def)
  have r: "ready pan (prepared wall b ?n)" by (rule ready_prepared [OF h(2)])
  show ?thesis
    using solana.observer_free [OF r, where ob = "MultiObserver obs"]
      evm.observer_free [OF r, where ob = "MultiObserver obs"]
      solana_dispatch [OF _ h(1)] solana_dispatch [OF _ h(2)] evm_dispatch [OF _ h(1)]
      evm_dispatch [OF _ h(2)] other_dispatch [OF _ h(1)] other_dispatch [OF _ h(2)]
    by (cases "cNamespace c = ''solana''"; cases "cNamespace c = ''eip155''")
       (simp_all add: p solana_New_def evm_New_def)
qed

text \<open>C6. The whole path for a Solana sign-in, from the registry to the signature: with a harmless
  observer and a clock standing at \<open>t\<close>, an identity comes back exactly when the message
  parses, names the expected domain and nonce, is inside its window at \<open>t\<close> and is signed, as
  received, by the key of its address.\<close>

theorem registry_solana_end_to_end:
  assumes "cNamespace c = ''solana''" and "harmless pan opts" and "voClock opts = Some (\<lambda>_. t)"
  shows "snd (Registry_Verify pan wall (Some b) (both_verifiers pan pick ed L resolver) c msg sig opts) = Ok i \<longleftrightarrow>
     (\<exists>m. ParseMessage msg = Ok m \<and> i = solana_identity m
        \<and> voExpectedDomain opts \<noteq> [] \<and> mDomain m = voExpectedDomain opts
        \<and> in_window m t \<and> mNonce m = voExpectedNonce opts \<and> signed_by ed (mAddress m) msg sig)"
  using assms by (rule registry_solana_Ok)

theorem registry_solana_end_to_end_witness:
  "snd (Registry_Verify (\<lambda>_ _. False) (\<lambda>_. 0) (Some ''r'')
       (both_verifiers (\<lambda>_ _. False) [] sample_ed sample_lib None)
       \<lparr>cNamespace = ''solana'', cReference = ''mainnet''\<rparr>
       (Message_String sample_message) sample_sig (sample_vopts (\<lambda>_. 0)))
     = Ok (solana_identity sample_message)"
proof -
  note f = sample_facts [OF sample_message_printable sample_message_fields]
  have "harmless (\<lambda>_ _. False) (sample_vopts (\<lambda>_. 0))" "voClock (sample_vopts (\<lambda>_. 0)) = Some (\<lambda>_. 0)"
    by (simp_all add: harmless_def sample_vopts_def)
  from registry_solana_end_to_end [OF _ this] f sample_message_fields
  show ?thesis by (auto simp: sample_vopts_def)
qed

text \<open>The chain asked for is not compared with the chain the message names: a Solana message
  for mainnet verifies under any reference of the namespace.\<close>

theorem registry_ignores_reference:
  "\<exists>i. snd (Registry_Verify (\<lambda>_ _. False) (\<lambda>_. 0) (Some ''r'')
       (both_verifiers (\<lambda>_ _. False) [] sample_ed sample_lib None)
       \<lparr>cNamespace = ''solana'', cReference = ''devnet''\<rparr>
       (Message_String sample_message) sample_sig (sample_vopts (\<lambda>_. 0))) = Ok i
     \<and> cChainID (idAccount i) = \<lparr>cNamespace = ''solana'', cReference = ''mainnet''\<rparr>"
  by (simp add: sample_registry) (simp add: solana_identity_def sample_message_def)

end
